(* ===== verification/Prelude.thy ===== *)
theory Prelude imports Complex_Main "HOL-Library.AList" "HOL-Library.Sublist" begin

text \<open>
  What every other theory of the development shares: Python exceptions as values, the
  two ways a Python function is modelled (a function that may raise returns
  \<open>exn + 'a\<close>; a function that also prints returns the lines it printed together with that
  sum), and the generic facts about them that carry the component proofs.
\<close>

section \<open>Exceptions\<close>

text \<open>
  One constructor per exception class the sources raise or let through. Every class but
  \<open>SystemExit\<close> is a subclass of Python's \<open>Exception\<close>. \<open>LibraryError\<close> is any other exception
  of a third-party library. \<open>OutOfModel\<close> is not Python's: it marks the inputs this
  development does not describe (they are named where they arise), so that such an input is
  never taken for a successful run.
\<close>

datatype exn =
    HTTPException int string
  | PyJWTError string
  | RequestException string
  | JSONDecodeError
  | BinasciiError
  | UnicodeError
  | ValueError
  | KeyError
  | IndexError
  | TypeError
  | AttributeError
  | OverflowError
  | RuntimeError string
  | LibraryError string
  | SystemExit int
  | OutOfModel

section \<open>Functions that may raise\<close>

definition ebind :: "'e + 'a \<Rightarrow> ('a \<Rightarrow> 'e + 'b) \<Rightarrow> 'e + 'b" where
  "ebind m f = (case m of Inl e \<Rightarrow> Inl e | Inr x \<Rightarrow> f x)"

fun emap :: "('a \<Rightarrow> 'e + 'b) \<Rightarrow> 'a list \<Rightarrow> 'e + 'b list" where
  "emap f [] = Inr []"
| "emap f (x # xs) = ebind (f x) (\<lambda>y. ebind (emap f xs) (\<lambda>ys. Inr (y # ys)))"

text \<open>A \<open>for\<close> loop that threads a state and may raise in its body.\<close>

fun efold :: "('a \<Rightarrow> 's \<Rightarrow> 'e + 's) \<Rightarrow> 'a list \<Rightarrow> 's \<Rightarrow> 'e + 's" where
  "efold f [] s = Inr s"
| "efold f (x # xs) s = ebind (f x s) (efold f xs)"

named_theorems raises \<open>inversion of a computation that returned or raised\<close>

lemma ebind_simps [simp]:
  "ebind (Inl e) f = Inl e"
  "ebind (Inr x) f = f x"
  by (simp_all add: ebind_def)

lemma ebind_Inr_iff [raises]: "ebind m f = Inr y \<longleftrightarrow> (\<exists>x. m = Inr x \<and> f x = Inr y)"
  by (cases m) auto

lemma ebind_Inl_iff [raises]:
  "ebind m f = Inl e \<longleftrightarrow> m = Inl e \<or> (\<exists>x. m = Inr x \<and> f x = Inl e)"
  by (cases m) auto

lemma Inr_ebind_iff [raises]: "Inr y = ebind m f \<longleftrightarrow> (\<exists>x. m = Inr x \<and> f x = Inr y)"
  by (cases m) auto

lemma ebind_assoc: "ebind (ebind m f) g = ebind m (\<lambda>x. ebind (f x) g)"
  by (cases m) simp_all

lemma ebind_Inr_right [simp]: "ebind m Inr = m"
  by (cases m) simp_all

lemma ebind_cong [fundef_cong]:
  "m = m' \<Longrightarrow> (\<And>x. m' = Inr x \<Longrightarrow> f x = f' x) \<Longrightarrow> ebind m f = ebind m' f'"
  by (cases m') auto

lemma if_Inl_Inr [raises]:
  "(if b then Inl e else m) = Inr y \<longleftrightarrow> \<not> b \<and> m = Inr y"
  by simp

lemma emap_Inr_iff: "emap f xs = Inr ys \<longleftrightarrow> list_all2 (\<lambda>x y. f x = Inr y) xs ys"
proof (induction xs arbitrary: ys)
  case (Cons x xs)
  then show ?case by (cases ys) (auto simp: raises)
qed auto

lemma emap_pure [simp]: "emap (\<lambda>x. Inr (f x)) xs = Inr (map f xs)"
  by (induction xs) auto

lemma efold_append: "efold f (xs @ ys) s = ebind (efold f xs s) (efold f ys)"
proof (induction xs arbitrary: s)
  case (Cons x xs)
  then have "efold f (xs @ ys) = (\<lambda>s. ebind (efold f xs s) (efold f ys))" by (intro ext) simp
  then show ?case by (simp add: ebind_assoc)
qed simp

lemma efold_pure: "(\<And>x s. x \<in> set xs \<Longrightarrow> f x s = Inr (g x s)) \<Longrightarrow> efold f xs s = Inr (fold g xs s)"
  by (induction xs arbitrary: s) auto

lemma efold_cong_set:
  "(\<And>x s. x \<in> set xs \<Longrightarrow> f x s = g x s) \<Longrightarrow> efold f xs s = efold g xs s"
proof (induction xs arbitrary: s)
  case (Cons x xs)
  then have "efold f xs = efold g xs" by (intro ext) simp
  with Cons.prems show ?case by simp
qed simp

text \<open>The invariant rule for such a loop.\<close>

lemma efold_invariant:
  assumes "efold f xs s = Inr t" "P s"
    and "\<And>x s s'. x \<in> set xs \<Longrightarrow> P s \<Longrightarrow> f x s = Inr s' \<Longrightarrow> P s'"
  shows "P t"
  using assms
proof (induction xs arbitrary: s)
  case (Cons x xs)
  then obtain s' where "f x s = Inr s'" "efold f xs s' = Inr t"
    by (auto simp: raises)
  with Cons show ?case by (metis list.set_intros(1,2))
qed simp

section \<open>Functions that also print\<close>

text \<open>
  A run is the list of the events it produced, in order, and its outcome. What was printed
  before an exception stays printed.
\<close>

type_synonym ('o, 'a) run = "'o list \<times> (exn + 'a)"

definition ret :: "'a \<Rightarrow> ('o, 'a) run" where
  "ret x = ([], Inr x)"

definition emit :: "'o \<Rightarrow> ('o, unit) run" where
  "emit x = ([x], Inr ())"

definition lift_exn :: "exn + 'a \<Rightarrow> ('o, 'a) run" where
  "lift_exn m = ([], m)"

definition wbind :: "('o, 'a) run \<Rightarrow> ('a \<Rightarrow> ('o, 'b) run) \<Rightarrow> ('o, 'b) run" where
  "wbind m f = (case m of
      (out, Inl e) \<Rightarrow> (out, Inl e)
    | (out, Inr x) \<Rightarrow> (let (out', r) = f x in (out @ out', r)))"

definition wthen :: "('o, unit) run \<Rightarrow> ('o, 'b) run \<Rightarrow> ('o, 'b) run" where
  "wthen m n = wbind m (\<lambda>_. n)"

fun wfor :: "'a list \<Rightarrow> ('a \<Rightarrow> ('o, unit) run) \<Rightarrow> ('o, unit) run" where
  "wfor [] f = ret ()"
| "wfor (x # xs) f = wthen (f x) (wfor xs f)"

definition when_run :: "bool \<Rightarrow> ('o, unit) run \<Rightarrow> ('o, unit) run" where
  "when_run b m = (if b then m else ret ())"

abbreviation outcome :: "('o, 'a) run \<Rightarrow> exn + 'a" where
  "outcome \<equiv> snd"

abbreviation printed :: "('o, 'a) run \<Rightarrow> 'o list" where
  "printed \<equiv> fst"

lemma outcome_wbind: "outcome (wbind m f) = ebind (outcome m) (\<lambda>x. outcome (f x))"
  by (auto simp: wbind_def split: prod.splits sum.splits)

lemma outcome_wthen: "outcome (wthen m n) = ebind (outcome m) (\<lambda>_. outcome n)"
  by (simp add: wthen_def outcome_wbind)

lemma outcome_basic [simp]:
  "outcome (ret x) = Inr x" "outcome (emit y) = Inr ()" "outcome (lift_exn m) = m"
  "outcome (when_run b c) = (if b then outcome c else Inr ())"
  by (simp_all add: ret_def emit_def lift_exn_def when_run_def)

lemma printed_basic [simp]:
  "printed (ret x) = []" "printed (emit y) = [y]" "printed (lift_exn m) = []"
  "printed (when_run b c) = (if b then printed c else [])"
  by (simp_all add: ret_def emit_def lift_exn_def when_run_def)

lemma printed_wbind:
  "printed (wbind m f) =
     printed m @ (case outcome m of Inl _ \<Rightarrow> [] | Inr x \<Rightarrow> printed (f x))"
  by (auto simp: wbind_def split: prod.splits sum.splits)

lemma printed_wthen:
  "printed (wthen m n) =
     printed m @ (case outcome m of Inl _ \<Rightarrow> [] | Inr _ \<Rightarrow> printed n)"
  by (simp add: wthen_def printed_wbind)

lemma wbind_ret_left [simp]: "wbind (ret x) f = f x"
  by (simp add: wbind_def ret_def)

lemma wbind_ret_right [simp]: "wbind m ret = m"
  by (cases m; cases "outcome m") (auto simp: wbind_def ret_def)

lemma wbind_assoc: "wbind (wbind m f) g = wbind m (\<lambda>x. wbind (f x) g)"
  by (rule prod_eqI)
    (auto simp: printed_wbind outcome_wbind ebind_def split: sum.splits)

lemma wfor_outcome_ok:
  "(\<And>x. x \<in> set xs \<Longrightarrow> outcome (f x) = Inr ()) \<Longrightarrow> outcome (wfor xs f) = Inr ()"
  by (induction xs) (auto simp: outcome_wthen)

lemma wfor_printed_ok:
  "(\<And>x. x \<in> set xs \<Longrightarrow> outcome (f x) = Inr ()) \<Longrightarrow>
     printed (wfor xs f) = concat (map (\<lambda>x. printed (f x)) xs)"
  by (induction xs) (auto simp: printed_wthen)

lemmas run_simps = outcome_wbind outcome_wthen printed_wbind printed_wthen

section \<open>Association lists as dicts\<close>

text \<open>
  A dict is an association list in insertion order with distinct keys: \<open>d[k] = v\<close> is
  \<open>AList.update k v d\<close> (in place when the key is there, at the end otherwise) and a lookup
  is \<open>map_of d k\<close>.
\<close>

definition wf_dict :: "('k \<times> 'v) list \<Rightarrow> bool" where
  "wf_dict d \<longleftrightarrow> distinct (map fst d)"

lemma wf_dict_Nil [simp]: "wf_dict []"
  by (simp add: wf_dict_def)

lemma wf_dict_update [simp, intro]: "wf_dict d \<Longrightarrow> wf_dict (AList.update k v d)"
  unfolding wf_dict_def by (rule distinct_update)

lemma map_of_update [simp]: "map_of (AList.update k v d) = (map_of d)(k \<mapsto> v)"
  by (rule update_conv')

lemma wf_dict_mem_iff: "wf_dict d \<Longrightarrow> (k, v) \<in> set d \<longleftrightarrow> map_of d k = Some v"
  unfolding wf_dict_def by (metis map_of_SomeD map_of_is_SomeI)

lemma dict_keys_dom: "fst ` set d = dom (map_of d)"
  by (simp add: dom_map_of_conv_image_fst)

lemma length_update: "length (AList.update k v d) = (if k \<in> fst ` set d then length d else Suc (length d))"
  by (induction d) auto

section \<open>Lists\<close>

lemma takeWhile_prefix_id: "(\<And>x. x \<in> set xs \<Longrightarrow> P x) \<Longrightarrow> ys = [] \<or> \<not> P (hd ys) \<Longrightarrow> takeWhile P (xs @ ys) = xs"
  by (induction xs) (cases ys; auto)+

lemma dropWhile_prefix_drop: "(\<And>x. x \<in> set xs \<Longrightarrow> P x) \<Longrightarrow> ys = [] \<or> \<not> P (hd ys) \<Longrightarrow> dropWhile P (xs @ ys) = ys"
  by (induction xs) (cases ys; auto)+

end
