(* ===== verification/PyStr.thy ===== *)
theory PyStr imports Prelude "HOL-Library.Char_ord" "HOL-Library.List_Lexorder" "HOL-Library.Word" begin

text \<open>
  The operations of Python's \<open>str\<close>, \<open>bytes\<close> and \<open>int\<close> that the sources call, with Python's
  treatment of missing separators, empty strings and malformed numerals. A \<open>str\<close> is an
  Isabelle \<^typ>\<open>string\<close>: one \<^typ>\<open>char\<close> per code point, so the strings described here are
  those whose code points are below U+0100; an operation that would produce a larger code
  point answers \<open>OutOfModel\<close>. The order on strings is the library's lexicographic order, which is
  Python's. A \<open>bytes\<close> object is a list of 8-bit words.
\<close>

unbundle bit_operations_syntax

type_synonym byte = "8 word"

section \<open>Searching and cutting\<close>

text \<open>\<open>s.partition(sep)\<close> for a one-character separator: head, separator, tail.\<close>

definition str_partition :: "char \<Rightarrow> string \<Rightarrow> string \<times> string \<times> string" where
  "str_partition sep s =
     (takeWhile (\<lambda>c. c \<noteq> sep) s, if sep \<in> set s then [sep] else [],
      drop 1 (dropWhile (\<lambda>c. c \<noteq> sep) s))"

text \<open>\<open>s.split(sep)\<close> for a one-character separator: always at least one piece.\<close>

fun str_split :: "char \<Rightarrow> string \<Rightarrow> string list" where
  "str_split sep [] = [[]]"
| "str_split sep (c # cs) =
     (if c = sep then [] # str_split sep cs
      else (case str_split sep cs of [] \<Rightarrow> [[c]] | p # ps \<Rightarrow> (c # p) # ps))"

text \<open>
  \<open>s.replace(old, new)\<close>: occurrences from the left, not overlapping. The counter skips the
  rest of an occurrence that was replaced. An empty \<open>old\<close> matches between all characters.
\<close>

fun replace_from :: "string \<Rightarrow> string \<Rightarrow> nat \<Rightarrow> string \<Rightarrow> string" where
  "replace_from old new k [] = []"
| "replace_from old new (Suc k) (c # cs) = replace_from old new k cs"
| "replace_from old new 0 (c # cs) =
     (if prefix old (c # cs) then new @ replace_from old new (length old - 1) cs
      else c # replace_from old new 0 cs)"

definition str_replace :: "string \<Rightarrow> string \<Rightarrow> string \<Rightarrow> string" where
  "str_replace old new s =
     (if old = [] then new @ concat (map (\<lambda>c. c # new) s) else replace_from old new 0 s)"

text \<open>\<open>bytes.rstrip(b"=")\<close> and its kin: drop one character from the end, as often as it is there.\<close>

definition rstrip_char :: "char \<Rightarrow> string \<Rightarrow> string" where
  "rstrip_char c s = rev (dropWhile (\<lambda>x. x = c) (rev s))"

lemma str_partition_append:
  "sep \<notin> set a \<Longrightarrow> str_partition sep (a @ sep # c) = (a, [sep], c)"
  by (induction a) (auto simp: str_partition_def)

lemma str_partition_absent: "sep \<notin> set s \<Longrightarrow> str_partition sep s = (s, [], [])"
  by (induction s) (auto simp: str_partition_def)

lemma str_partition_cases:
  obtains (absent) "sep \<notin> set s" "str_partition sep s = (s, [], [])"
  | (found) a c where "s = a @ sep # c" "sep \<notin> set a" "str_partition sep s = (a, [sep], c)"
  by (metis split_list_first str_partition_absent str_partition_append)

lemma str_partition_recompose: "str_partition sep s = (a, b, c) \<Longrightarrow> a @ b @ c = s"
  by (cases rule: str_partition_cases [of sep s]) auto

lemma str_partition_head: "str_partition sep s = (a, b, c) \<Longrightarrow> sep \<notin> set a"
  by (cases rule: str_partition_cases [of sep s]) auto

lemma str_split_not_Nil [simp]: "str_split sep s \<noteq> []"
  by (induction s) (auto split: list.splits)

lemma str_split_single: "sep \<notin> set s \<Longrightarrow> str_split sep s = [s]"
  by (induction s) auto

lemma concat_str_split: "concat (map (\<lambda>x. x @ [c]) (str_split c s)) = s @ [c]"
  by (induction s) (auto split: list.splits)

lemma str_split_append:
  "sep \<notin> set a \<Longrightarrow> str_split sep (a @ sep # s) = a # str_split sep s"
  by (induction a) (auto split: list.splits)

lemma str_split_pieces: "p \<in> set (str_split sep s) \<Longrightarrow> sep \<notin> set p"
proof (induction s arbitrary: p)
  case (Cons c cs)
  obtain q qs where "str_split sep cs = q # qs" by (meson list.exhaust str_split_not_Nil)
  with Cons show ?case by (auto split: if_splits)
qed simp

lemma length_str_split: "length (str_split sep s) = Suc (count_list s sep)"
  by (induction s) (auto split: list.splits)

lemma hd_str_split: "hd (str_split sep s) = takeWhile (\<lambda>c. c \<noteq> sep) s"
  by (induction s) (auto split: list.splits)

lemma replace_from_absent:
  "old \<noteq> [] \<Longrightarrow> \<not> sublist old s \<Longrightarrow> replace_from old new 0 s = s"
  by (induction s) (auto simp: sublist_Cons_right)

lemma replace_from_skip: "replace_from old new k s = replace_from old new 0 (drop k s)"
  by (induction k arbitrary: s) (case_tac s; simp)+

lemma str_replace_absent: "old \<noteq> [] \<Longrightarrow> \<not> sublist old s \<Longrightarrow> str_replace old new s = s"
  by (simp add: str_replace_def replace_from_absent)

lemma str_replace_prefix: "old \<noteq> [] \<Longrightarrow> str_replace old new (old @ s) = new @ str_replace old new s"
proof -
  assume "old \<noteq> []"
  then obtain x xs where old: "old = x # xs" by (cases old) auto
  have "replace_from old new (length xs) (xs @ s) = replace_from old new 0 s"
    by (simp add: replace_from_skip [of old new "length xs"])
  with old show ?thesis by (simp add: str_replace_def)
qed

lemma rstrip_char_id: "xs = [] \<or> last xs \<noteq> c \<Longrightarrow> rstrip_char c xs = xs"
  by (cases xs rule: rev_cases) (auto simp: rstrip_char_def)

lemma rstrip_char_append: "rstrip_char c (xs @ replicate n c) = rstrip_char c xs"
proof -
  have "dropWhile (\<lambda>x. x = c) (replicate n c @ ys) = dropWhile (\<lambda>x. x = c) ys" for ys
    by (induction n) simp_all
  then show ?thesis by (simp add: rstrip_char_def)
qed

section \<open>Numerals\<close>

definition digit_char :: "nat \<Rightarrow> char" where
  "digit_char d = char_of (48 + d)"

definition is_digit :: "char \<Rightarrow> bool" where
  "is_digit c \<longleftrightarrow> 48 \<le> (of_char c :: nat) \<and> (of_char c :: nat) \<le> 57"

definition digit_val :: "char \<Rightarrow> nat" where
  "digit_val c = of_char c - 48"

definition nat_of_digits :: "string \<Rightarrow> nat" where
  "nat_of_digits s = foldl (\<lambda>n c. 10 * n + digit_val c) 0 s"

fun string_of_nat :: "nat \<Rightarrow> string" where
  "string_of_nat n =
     (if n < 10 then [digit_char n] else string_of_nat (n div 10) @ [digit_char (n mod 10)])"

declare string_of_nat.simps [simp del]

text \<open>\<open>str(i)\<close>.\<close>

definition string_of_int :: "int \<Rightarrow> string" where
  "string_of_int i = (if i < 0 then CHR ''-'' # string_of_nat (nat (- i)) else string_of_nat (nat i))"

lemma digit_char_ok [simp]:
  assumes "d < 10"
  shows "is_digit (digit_char d)" "digit_val (digit_char d) = d"
proof -
  from assms have "48 + d < 256" by simp
  then have "of_char (char_of (48 + d) :: char) = 48 + d" by (simp add: of_char_of take_bit_eq_mod)
  with assms show "is_digit (digit_char d)" "digit_val (digit_char d) = d"
    by (auto simp: is_digit_def digit_val_def digit_char_def)
qed

lemma string_of_nat_small: "n < 10 \<Longrightarrow> string_of_nat n = [digit_char n]"
  by (subst string_of_nat.simps) simp

lemma string_of_nat_large:
  "\<not> n < 10 \<Longrightarrow> string_of_nat n = string_of_nat (n div 10) @ [digit_char (n mod 10)]"
  by (subst string_of_nat.simps) simp

lemma string_of_nat_digits: "c \<in> set (string_of_nat n) \<Longrightarrow> is_digit c"
proof (induction n rule: string_of_nat.induct)
  case (1 n)
  then show ?case by (cases "n < 10") (auto simp: string_of_nat_small string_of_nat_large)
qed

lemma string_of_nat_not_Nil [simp]: "string_of_nat n \<noteq> []"
  by (cases "n < 10") (simp_all add: string_of_nat_small string_of_nat_large)

lemma nat_of_digits_snoc: "nat_of_digits (s @ [c]) = 10 * nat_of_digits s + digit_val c"
  by (simp add: nat_of_digits_def)

lemma nat_of_digits_string_of_nat [simp]: "nat_of_digits (string_of_nat n) = n"
proof (induction n rule: string_of_nat.induct)
  case (1 n)
  show ?case
  proof (cases "n < 10")
    case True
    then show ?thesis by (simp add: string_of_nat_small nat_of_digits_def)
  next
    case False
    with "1.IH" show ?thesis by (simp add: string_of_nat_large nat_of_digits_snoc)
  qed
qed

lemma string_of_nat_hd: "0 < n \<Longrightarrow> hd (string_of_nat n) \<noteq> CHR ''0''"
proof (induction n rule: string_of_nat.induct)
  case (1 n)
  show ?case
  proof (cases "n < 10")
    case True
    have "digit_val (CHR ''0'') = 0" by (simp add: digit_val_def)
    with True "1.prems" have "digit_char n \<noteq> CHR ''0''" by (metis digit_char_ok(2) not_less_zero)
    with True show ?thesis by (auto simp: string_of_nat_small)
  next
    case False
    with "1.IH" show ?thesis by (simp add: string_of_nat_large)
  qed
qed

text \<open>
  \<open>int(s)\<close> for a string: surrounding white space, one sign, decimal digits, single
  underscores between digits; anything else is a \<open>ValueError\<close>.
\<close>

definition is_space :: "char \<Rightarrow> bool" where
  "is_space c \<longleftrightarrow>
     (let n = of_char c :: nat in 9 \<le> n \<and> n \<le> 13 \<or> 28 \<le> n \<and> n \<le> 32 \<or> n = 133 \<or> n = 160)"

definition str_strip :: "string \<Rightarrow> string" where
  "str_strip s = rev (dropWhile is_space (rev (dropWhile is_space s)))"

definition int_of_str :: "string \<Rightarrow> exn + int" where
  "int_of_str s =
     (let t = str_strip s;
          neg = (t \<noteq> [] \<and> hd t = CHR ''-'');
          body = (if t \<noteq> [] \<and> hd t \<in> set ''+-'' then tl t else t);
          groups = str_split (CHR ''_'') body
      in if list_all (\<lambda>g. g \<noteq> [] \<and> list_all is_digit g) groups
         then Inr ((if neg then -1 else 1) * int (nat_of_digits (concat groups)))
         else Inl ValueError)"

lemma is_digit_special:
  "is_digit c \<Longrightarrow> \<not> is_space c" "is_digit c \<Longrightarrow> c \<noteq> CHR ''-''" "is_digit c \<Longrightarrow> c \<noteq> CHR ''+''"
  "is_digit c \<Longrightarrow> c \<noteq> CHR ''_''"
  by (auto simp: is_digit_def is_space_def)

lemma str_strip_id: "s \<noteq> [] \<Longrightarrow> \<not> is_space (hd s) \<Longrightarrow> \<not> is_space (last s) \<Longrightarrow> str_strip s = s"
proof -
  assume "s \<noteq> []" "\<not> is_space (hd s)" "\<not> is_space (last s)"
  then have "dropWhile is_space s = s" "dropWhile is_space (rev s) = rev s"
    by (simp_all add: dropWhile_eq_self_iff hd_rev)
  then show "str_strip s = s" by (simp add: str_strip_def)
qed

text \<open>What \<open>str\<close> prints, \<open>int\<close> reads back.\<close>

lemma int_of_str_string_of_int: "int_of_str (string_of_int i) = Inr i"
proof -
  let ?ds = "string_of_nat (nat \<bar>i\<bar>)"
  have digits: "\<forall>c \<in> set ?ds. is_digit c" using string_of_nat_digits by blast
  then have hdl: "is_digit (hd ?ds)" "is_digit (last ?ds)" by simp_all
  have split: "str_split (CHR ''_'') ?ds = [?ds]"
    using digits is_digit_special(4) by (intro str_split_single) blast
  show ?thesis
  proof (cases "i < 0")
    case True
    have "str_strip (CHR ''-'' # ?ds) = CHR ''-'' # ?ds"
      using hdl by (intro str_strip_id) (auto simp: is_digit_special, simp add: is_space_def)
    with True split digits show ?thesis
      by (simp add: int_of_str_def string_of_int_def Let_def list_all_iff)
  next
    case False
    have "str_strip ?ds = ?ds" using hdl by (intro str_strip_id) (auto simp: is_digit_special)
    with False split digits hdl show ?thesis
      by (auto simp: int_of_str_def string_of_int_def Let_def list_all_iff is_digit_special)
  qed
qed

section \<open>Hexadecimal\<close>

definition hex_char :: "nat \<Rightarrow> char" where
  "hex_char d = (if d < 10 then char_of (48 + d) else char_of (87 + d))"

definition hex_val :: "char \<Rightarrow> nat option" where
  "hex_val c =
     (let n = of_char c in
      if 48 \<le> n \<and> n \<le> 57 then Some (n - 48)
      else if 97 \<le> n \<and> n \<le> 102 then Some (n - 87)
      else if 65 \<le> n \<and> n \<le> 70 then Some (n - 55) else None)"

text \<open>The last \<open>k\<close> hexadecimal digits of a number, most significant first.\<close>

fun hex_fixed :: "nat \<Rightarrow> nat \<Rightarrow> string" where
  "hex_fixed 0 n = []"
| "hex_fixed (Suc k) n = hex_fixed k (n div 16) @ [hex_char (n mod 16)]"

lemma hex_val_hex_char [simp]:
  assumes "d < 16"
  shows "hex_val (hex_char d) = Some d"
proof -
  have "\<forall>d \<in> {0..<16}. hex_val (hex_char d) = Some d"
    by (simp add: hex_val_def hex_char_def Let_def of_char_of take_bit_eq_mod atLeastLessThan_nat_numeral)
  with assms show ?thesis by simp
qed

lemma length_hex_fixed [simp]: "length (hex_fixed k n) = k"
  by (induction k arbitrary: n) simp_all

section \<open>Bytes\<close>

text \<open>\<open>s.encode()\<close>: UTF-8, two bytes for a code point from U+0080 on.\<close>

definition utf8_char :: "char \<Rightarrow> byte list" where
  "utf8_char c =
     (let n = of_char c :: nat in
      if n < 128 then [word_of_nat n]
      else [word_of_nat (192 + n div 64), word_of_nat (128 + n mod 64)])"

definition utf8_encode :: "string \<Rightarrow> byte list" where
  "utf8_encode s = concat (map utf8_char s)"

text \<open>
  \<open>b.decode("utf-8")\<close>: the leading bytes C2 and C3 with a continuation byte give the code
  points U+0080 to U+00FF; a leading byte C4 to F4 starts a code point above U+00FF and leaves the
  model; every other byte from 80 on is malformed.
\<close>

fun utf8_decode :: "byte list \<Rightarrow> exn + string" where
  "utf8_decode [] = Inr []"
| "utf8_decode (b # bs) =
     (if unat b < 128 then ebind (utf8_decode bs) (\<lambda>s. Inr (char_of (unat b) # s))
      else if unat b = 194 \<or> unat b = 195 then
        (case bs of
           [] \<Rightarrow> Inl UnicodeError
         | c # cs \<Rightarrow>
             if 128 \<le> unat c \<and> unat c < 192
             then ebind (utf8_decode cs)
                    (\<lambda>s. Inr (char_of ((unat b - 192) * 64 + (unat c - 128)) # s))
             else Inl UnicodeError)
      else if 196 \<le> unat b \<and> unat b \<le> 244 then Inl OutOfModel
      else Inl UnicodeError)"

text \<open>\<open>int.from_bytes(b, "big")\<close>.\<close>

definition int_of_bytes :: "byte list \<Rightarrow> int" where
  "int_of_bytes bs = foldl (\<lambda>n b. 256 * n + uint b) 0 bs"

lemma unat_byte_of_nat: "n < 256 \<Longrightarrow> unat (word_of_nat n :: byte) = n"
  by (simp add: unat_of_nat)

lemma utf8_decode_pair:
  "unat b = 192 + q \<Longrightarrow> q = 2 \<or> q = 3 \<Longrightarrow> unat c = 128 + r \<Longrightarrow> r < 64 \<Longrightarrow>
     utf8_decode (b # c # cs) = ebind (utf8_decode cs) (\<lambda>s. Inr (char_of (q * 64 + r) # s))"
  by auto

lemma utf8_roundtrip: "utf8_decode (utf8_encode s) = Inr s"
proof (induction s)
  case Nil
  show ?case by (simp add: utf8_encode_def)
next
  case (Cons c s)
  define n where "n = (of_char c :: nat)"
  have n: "n < 256" and c: "char_of n = c" by (simp_all add: n_def)
  show ?case
  proof (cases "n < 128")
    case True
    with Cons c n show ?thesis
      by (simp add: utf8_encode_def utf8_char_def n_def [symmetric] unat_byte_of_nat Let_def)
  next
    case False
    define q r where "q = n div 64" and "r = n mod 64"
    from False have "128 div 64 \<le> q" unfolding q_def by (intro div_le_mono) simp
    moreover from n have "q < 4" unfolding q_def by (simp add: less_mult_imp_div_less)
    ultimately have q: "q = 2 \<or> q = 3" by auto
    have r: "r < 64" and qr: "q * 64 + r = n" by (simp_all add: q_def r_def)
    have enc: "utf8_char c = [word_of_nat (192 + q), word_of_nat (128 + r)]"
      using False by (simp add: utf8_char_def n_def [symmetric] q_def r_def Let_def)
    have words: "unat (word_of_nat (192 + q) :: byte) = 192 + q"
      "unat (word_of_nat (128 + r) :: byte) = 128 + r"
      using q r by (intro unat_byte_of_nat; linarith)+
    have "utf8_encode (c # s) = word_of_nat (192 + q) # word_of_nat (128 + r) # utf8_encode s"
      by (simp only: utf8_encode_def enc list.map concat.simps append.simps)
    also have "utf8_decode \<dots> = ebind (utf8_decode (utf8_encode s)) (\<lambda>s. Inr (char_of (q * 64 + r) # s))"
      by (rule utf8_decode_pair [OF words(1) q words(2) r])
    finally show ?thesis by (simp only: Cons qr c ebind_simps)
  qed
qed

lemma length_utf8_ascii: "list_all (\<lambda>c. (of_char c :: nat) < 128) s \<Longrightarrow> length (utf8_encode s) = length s"
  by (induction s) (auto simp: utf8_encode_def utf8_char_def Let_def)

lemma utf8_encode_inj: "utf8_encode s = utf8_encode t \<Longrightarrow> s = t"
  by (metis utf8_roundtrip sum.inject(2))

lemma utf8_decode_raises: "utf8_decode b = Inl e \<Longrightarrow> e \<in> {UnicodeError, OutOfModel}"
  by (induction b rule: utf8_decode.induct) (auto simp: raises split: if_splits list.splits)

end
