(* ===== verification/PyBase64.thy ===== *)
theory PyBase64 imports PyStr begin

text \<open>
  \<open>base64.urlsafe_b64encode\<close> and \<open>base64.urlsafe_b64decode\<close> of the standard library, on the
  level of bits. Decoding is the non-strict mode of \<open>binascii.a2b_base64\<close>: it skips characters
  outside the alphabet, accepts both alphabets, and stops at a padding that completes a
  quadruple. The round trip shows that the decoder reads back every byte string the encoder
  writes.
\<close>

definition b64_alphabet :: string where
  "b64_alphabet = ''ABCDEFGHIJKLMNOPQRSTUVWXYZabcdefghijklmnopqrstuvwxyz0123456789-_''"

definition b64_char :: "byte \<Rightarrow> char" where
  "b64_char w = b64_alphabet ! unat w"

definition b64_val :: "char \<Rightarrow> byte option" where
  "b64_val c =
     (let n = of_char c :: nat in
      if 65 \<le> n \<and> n \<le> 90 then Some (word_of_nat (n - 65))
      else if 97 \<le> n \<and> n \<le> 122 then Some (word_of_nat (n - 71))
      else if 48 \<le> n \<and> n \<le> 57 then Some (word_of_nat (n + 4))
      else if n = 43 \<or> n = 45 then Some 62
      else if n = 47 \<or> n = 95 then Some 63
      else None)"

fun urlsafe_b64encode :: "byte list \<Rightarrow> string" where
  "urlsafe_b64encode [] = []"
| "urlsafe_b64encode [a] =
     [b64_char (drop_bit 2 a), b64_char (push_bit 4 (take_bit 2 a)), CHR ''='', CHR ''='']"
| "urlsafe_b64encode [a, b] =
     [b64_char (drop_bit 2 a), b64_char (push_bit 4 (take_bit 2 a) OR drop_bit 4 b),
      b64_char (push_bit 2 (take_bit 4 b)), CHR ''='']"
| "urlsafe_b64encode (a # b # c # bs) =
     b64_char (drop_bit 2 a) # b64_char (push_bit 4 (take_bit 2 a) OR drop_bit 4 b)
     # b64_char (push_bit 2 (take_bit 4 b) OR drop_bit 6 c) # b64_char (take_bit 6 c)
     # urlsafe_b64encode bs"

text \<open>
  The decoder's loop: the position in the current quadruple, the number of padding characters
  seen in a row, and the bits left over from the last character.
\<close>

fun a2b_base64 :: "nat \<Rightarrow> nat \<Rightarrow> byte \<Rightarrow> string \<Rightarrow> exn + byte list" where
  "a2b_base64 quad pads left [] = (if quad = 0 then Inr [] else Inl BinasciiError)"
| "a2b_base64 quad pads left (c # cs) =
     (if c = CHR ''='' then
        (if 2 \<le> quad
         then (if 4 \<le> quad + Suc pads then Inr [] else a2b_base64 quad (Suc pads) left cs)
         else a2b_base64 quad pads left cs)
      else (case b64_val c of
          None \<Rightarrow> a2b_base64 quad pads left cs
        | Some v \<Rightarrow>
            if quad = 0 then a2b_base64 1 0 v cs
            else if quad = 1 then
              ebind (a2b_base64 2 0 (take_bit 4 v) cs) (\<lambda>bs. Inr ((push_bit 2 left OR drop_bit 4 v) # bs))
            else if quad = 2 then
              ebind (a2b_base64 3 0 (take_bit 2 v) cs) (\<lambda>bs. Inr ((push_bit 4 left OR drop_bit 2 v) # bs))
            else
              ebind (a2b_base64 0 0 0 cs) (\<lambda>bs. Inr ((push_bit 6 left OR v) # bs))))"

text \<open>A string argument with a character outside ASCII is refused before it is decoded.\<close>

definition is_ascii :: "string \<Rightarrow> bool" where
  "is_ascii s \<longleftrightarrow> list_all (\<lambda>c. (of_char c :: nat) < 128) s"

definition urlsafe_b64decode :: "string \<Rightarrow> exn + byte list" where
  "urlsafe_b64decode s = (if is_ascii s then a2b_base64 0 0 0 s else Inl ValueError)"

section \<open>The alphabet\<close>

lemma b64_alphabet_facts:
  "list_all2 (\<lambda>n c. b64_val c = Some (word_of_nat n) \<and> c \<noteq> CHR ''='' \<and> (of_char c :: nat) < 128)
     [0..<64] b64_alphabet"
  by (simp add: upt_conv_Cons b64_alphabet_def b64_val_def Let_def)

lemma b64_char_facts:
  assumes "unat w < 64"
  shows "b64_val (b64_char w) = Some w" "b64_char w \<noteq> CHR ''=''" "(of_char (b64_char w) :: nat) < 128"
    "CHR ''='' \<noteq> b64_char w" "b64_char w \<in> set b64_alphabet"
proof -
  from assms list_all2_nthD [OF b64_alphabet_facts, of "unat w"]
  show "b64_val (b64_char w) = Some w" "b64_char w \<noteq> CHR ''=''" "CHR ''='' \<noteq> b64_char w"
    "(of_char (b64_char w) :: nat) < 128"
    by (auto simp add: b64_char_def)
  have "length b64_alphabet = 64" by (simp add: b64_alphabet_def)
  with assms show "b64_char w \<in> set b64_alphabet" by (simp add: b64_char_def)
qed

text \<open>Every index the encoder forms has six bits.\<close>

lemma unat_six_bits:
  assumes "\<And>n. 6 \<le> n \<Longrightarrow> n < 8 \<Longrightarrow> \<not> bit w n"
  shows "unat (w :: byte) < 64"
proof -
  have "take_bit 6 w = w"
  proof (rule bit_word_eqI)
    fix n
    show "n < LENGTH(8) \<Longrightarrow> bit (take_bit 6 w) n \<longleftrightarrow> bit w n"
      using assms [of n] by (cases "6 \<le> n") (auto simp: bit_simps)
  qed
  then have "unat w = take_bit 6 (unat w)" by (metis unsigned_take_bit_eq)
  then show ?thesis using take_bit_nat_less_exp [of 6 "unat w"] by simp
qed

lemma six_bits [simp]:
  fixes a b c :: byte
  shows "unat (drop_bit 2 a) < 64" "unat (push_bit 4 (take_bit 2 a)) < 64"
    "unat (push_bit 4 (take_bit 2 a) OR drop_bit 4 b) < 64" "unat (push_bit 2 (take_bit 4 b)) < 64"
    "unat (push_bit 2 (take_bit 4 b) OR drop_bit 6 c) < 64" "unat (take_bit 6 c) < 64"
  subgoal by (rule unat_six_bits) (auto simp: bit_simps dest: bit_imp_le_length)
  subgoal by (rule unat_six_bits) (auto simp: bit_simps dest: bit_imp_le_length)
  subgoal by (rule unat_six_bits) (auto simp: bit_simps dest: bit_imp_le_length)
  subgoal by (rule unat_six_bits) (auto simp: bit_simps dest: bit_imp_le_length)
  subgoal by (rule unat_six_bits) (auto simp: bit_simps dest: bit_imp_le_length)
  subgoal by (rule unat_six_bits) (auto simp: bit_simps dest: bit_imp_le_length)
  done

lemmas b64_char_simps [simp] = b64_char_facts [OF six_bits(1)] b64_char_facts [OF six_bits(2)]
  b64_char_facts [OF six_bits(3)] b64_char_facts [OF six_bits(4)] b64_char_facts [OF six_bits(5)]
  b64_char_facts [OF six_bits(6)]

lemma Suc_Suc_minus2 [simp]: "2 \<le> n \<Longrightarrow> Suc (Suc (n - 2)) = n"
  by simp

text \<open>The decoder's joins undo the encoder's cuts.\<close>

lemma join_bits [simp]:
  fixes a b c :: byte
  shows "push_bit 2 (drop_bit 2 a) OR drop_bit 4 (push_bit 4 (take_bit 2 a) OR drop_bit 4 b) = a"
    "push_bit 2 (drop_bit 2 a) OR drop_bit 4 (push_bit 4 (take_bit 2 a)) = a"
    "push_bit 4 (take_bit 4 (push_bit 4 (take_bit 2 a) OR drop_bit 4 b)) OR
       drop_bit 2 (push_bit 2 (take_bit 4 b) OR drop_bit 6 c) = b"
    "push_bit 4 (take_bit 4 (push_bit 4 (take_bit 2 a) OR drop_bit 4 b)) OR
       drop_bit 2 (push_bit 2 (take_bit 4 b)) = b"
    "push_bit 6 (take_bit 2 (push_bit 2 (take_bit 4 b) OR drop_bit 6 c)) OR take_bit 6 c = c"
  subgoal by (rule bit_word_eqI) (auto simp: bit_simps not_le dest: bit_imp_le_length, (metis Suc_Suc_minus2 not_le)?)
  subgoal by (rule bit_word_eqI) (auto simp: bit_simps not_le dest: bit_imp_le_length, (metis Suc_Suc_minus2 not_le)?)
  subgoal by (rule bit_word_eqI) (auto simp: bit_simps not_le dest: bit_imp_le_length, (metis Suc_Suc_minus2 not_le)?)
  subgoal by (rule bit_word_eqI) (auto simp: bit_simps not_le dest: bit_imp_le_length, (metis Suc_Suc_minus2 not_le)?)
  subgoal by (rule bit_word_eqI) (auto simp: bit_simps not_le dest: bit_imp_le_length, (metis Suc_Suc_minus2 not_le)?)
  done

section \<open>Round trip\<close>

text \<open>The number of padding characters the encoder appends.\<close>

definition b64_padding :: "nat \<Rightarrow> nat" where
  "b64_padding n = (if n mod 3 = 0 then 0 else 3 - n mod 3)"

lemma b64_roundtrip: "a2b_base64 0 0 0 (urlsafe_b64encode bs) = Inr bs"
proof (induction bs rule: urlsafe_b64encode.induct)
  case (4 a b c bs)
  then show ?case by (simp add: Let_def del: push_bit_or drop_bit_or take_bit_or)
qed (simp_all del: push_bit_or drop_bit_or take_bit_or)

lemma replicate_two: "replicate 2 x = [x, x]"
  by (simp add: numeral_2_eq_2)

lemma b64_encode_shape:
  "\<exists>body. urlsafe_b64encode bs = body @ replicate (b64_padding (length bs)) (CHR ''='') \<and>
     set body \<subseteq> set b64_alphabet \<and> length body + b64_padding (length bs) = 4 * ((length bs + 2) div 3) \<and>
     CHR ''='' \<notin> set body \<and> list_all (\<lambda>c. (of_char c :: nat) < 128) body"
proof (induction bs rule: urlsafe_b64encode.induct)
  case 1
  show ?case by (simp add: b64_padding_def)
next
  case (2 a)
  show ?case
    by (rule exI [of _ "[b64_char (drop_bit 2 a), b64_char (push_bit 4 (take_bit 2 a))]"])
      (simp add: b64_padding_def replicate_two)
next
  case (3 a b)
  show ?case
    by (rule exI [of _ "[b64_char (drop_bit 2 a), b64_char (push_bit 4 (take_bit 2 a) OR drop_bit 4 b),
          b64_char (push_bit 2 (take_bit 4 b))]"])
      (simp add: b64_padding_def replicate_two)
next
  case (4 a b c bs)
  let ?pre = "[b64_char (drop_bit 2 a), b64_char (push_bit 4 (take_bit 2 a) OR drop_bit 4 b),
    b64_char (push_bit 2 (take_bit 4 b) OR drop_bit 6 c), b64_char (take_bit 6 c)]"
  from 4 obtain body where body:
    "urlsafe_b64encode bs = body @ replicate (b64_padding (length bs)) (CHR ''='')"
    "set body \<subseteq> set b64_alphabet" "length body + b64_padding (length bs) = 4 * ((length bs + 2) div 3)"
    "CHR ''='' \<notin> set body" "list_all (\<lambda>c. (of_char c :: nat) < 128) body"
    by blast
  have pad: "b64_padding (length (a # b # c # bs)) = b64_padding (length bs)"
    by (simp add: b64_padding_def)
  have len: "(length (a # b # c # bs) + 2) div 3 = Suc ((length bs + 2) div 3)" by simp
  show ?case
    unfolding pad len by (rule exI [of _ "?pre @ body"]) (use body in simp)
qed

lemma a2b_base64_raises: "a2b_base64 q p l s = Inl e \<Longrightarrow> e = BinasciiError"
  by (induction q p l s rule: a2b_base64.induct) (auto simp: raises split: if_splits option.splits)

end
