(* ===== verification/PyValue.thy ===== *)
theory PyValue imports PyStr "HOL-Library.Multiset" begin

text \<open>
  The Python values that come out of \<open>json.loads\<close> and the operations the sources apply to them:
  truth, \<open>in\<close>, subscripts, \<open>dict.get\<close>, equality with a string, use as a dict key, \<open><\<close> and
  \<open>sorted\<close>, each with the exception it raises on a value of the wrong type.
\<close>

section \<open>Values\<close>

text \<open>
  A finite float is its exact value. The rounding of a float to a double and of float
  arithmetic is not modelled. Infinities and NaN are values, because \<open>json.loads\<close> accepts them.
\<close>

datatype pyfloat = Finite rat | PosInf | NegInf | NaN

datatype json =
    JNull
  | JBool bool
  | JInt int
  | JFloat pyfloat
  | JStr string
  | JArr "json list"
  | JObj "(string \<times> json) list"

type_synonym dict = "(string \<times> json) list"

text \<open>Every object inside a value has distinct keys, as a Python dict has.\<close>

fun wf_json :: "json \<Rightarrow> bool" where
  "wf_json (JArr vs) = list_all wf_json vs"
| "wf_json (JObj kvs) = (distinct (map fst kvs) \<and> list_all (\<lambda>kv. wf_json (snd kv)) kvs)"
| "wf_json _ = True"

section \<open>Operations\<close>

text \<open>\<open>if v:\<close> and \<open>not v\<close>.\<close>

fun truthy :: "json \<Rightarrow> bool" where
  "truthy JNull = False"
| "truthy (JBool b) = b"
| "truthy (JInt i) = (i \<noteq> 0)"
| "truthy (JFloat f) = (f \<noteq> Finite 0)"
| "truthy (JStr s) = (s \<noteq> [])"
| "truthy (JArr vs) = (vs \<noteq> [])"
| "truthy (JObj kvs) = (kvs \<noteq> [])"

text \<open>\<open>d.get(k, default)\<close> on a dict, and on a value that may not be one.\<close>

definition dget :: "dict \<Rightarrow> string \<Rightarrow> json \<Rightarrow> json" where
  "dget d k dflt = (case map_of d k of None \<Rightarrow> dflt | Some v \<Rightarrow> v)"

fun py_get :: "json \<Rightarrow> string \<Rightarrow> json \<Rightarrow> exn + json" where
  "py_get (JObj d) k dflt = Inr (dget d k dflt)"
| "py_get _ k dflt = Inl AttributeError"

text \<open>\<open>d[k]\<close> with a string \<open>k\<close>.\<close>

definition dgetitem :: "dict \<Rightarrow> string \<Rightarrow> exn + json" where
  "dgetitem d k = (case map_of d k of None \<Rightarrow> Inl KeyError | Some v \<Rightarrow> Inr v)"

fun py_getitem :: "json \<Rightarrow> string \<Rightarrow> exn + json" where
  "py_getitem (JObj d) k = dgetitem d k"
| "py_getitem _ k = Inl TypeError"

text \<open>\<open>k in v\<close> for a string \<open>k\<close>: keys of a dict, elements of a list, substrings of a string.\<close>

fun py_in :: "string \<Rightarrow> json \<Rightarrow> exn + bool" where
  "py_in k (JObj d) = Inr (k \<in> fst ` set d)"
| "py_in k (JArr vs) = Inr (JStr k \<in> set vs)"
| "py_in k (JStr s) = Inr (sublist k s)"
| "py_in k _ = Inl TypeError"

text \<open>\<open>d.setdefault(k, v)\<close>.\<close>

fun py_setdefault :: "json \<Rightarrow> string \<Rightarrow> json \<Rightarrow> exn + json" where
  "py_setdefault (JObj d) k v =
     Inr (JObj (case map_of d k of None \<Rightarrow> d @ [(k, v)] | Some _ \<Rightarrow> d))"
| "py_setdefault _ k v = Inl AttributeError"

text \<open>
  Iteration, as in \<open>for x in v\<close>: the elements of a list, the characters of a string, the keys
  of a dict.
\<close>

fun py_iter :: "json \<Rightarrow> exn + json list" where
  "py_iter (JArr vs) = Inr vs"
| "py_iter (JStr s) = Inr (map (\<lambda>c. JStr [c]) s)"
| "py_iter (JObj d) = Inr (map (\<lambda>kv. JStr (fst kv)) d)"
| "py_iter _ = Inl TypeError"

text \<open>Unpacking into two names, \<open>a, b = v\<close>.\<close>

definition py_unpack2 :: "json \<Rightarrow> exn + json \<times> json" where
  "py_unpack2 v = ebind (py_iter v) (\<lambda>vs. case vs of [a, b] \<Rightarrow> Inr (a, b) | _ \<Rightarrow> Inl ValueError)"

text \<open>The number a value is, for comparisons and arithmetic (a bool counts as an int).\<close>

fun num_val :: "json \<Rightarrow> rat option" where
  "num_val (JBool b) = Some (if b then 1 else 0)"
| "num_val (JInt i) = Some (of_int i)"
| "num_val (JFloat (Finite q)) = Some q"
| "num_val _ = None"

text \<open>\<open>int(v)\<close>.\<close>

definition py_trunc :: "rat \<Rightarrow> int" where
  "py_trunc q = (if 0 \<le> q then \<lfloor>q\<rfloor> else \<lceil>q\<rceil>)"

fun py_int :: "json \<Rightarrow> exn + int" where
  "py_int (JInt i) = Inr i"
| "py_int (JBool b) = Inr (if b then 1 else 0)"
| "py_int (JFloat (Finite q)) = Inr (py_trunc q)"
| "py_int (JFloat NaN) = Inl ValueError"
| "py_int (JFloat _) = Inl OverflowError"
| "py_int (JStr s) = int_of_str s"
| "py_int _ = Inl TypeError"

section \<open>Dict keys\<close>

text \<open>
  What a value is as a dict key: numbers that compare equal (\<open>1\<close>, \<open>1.0\<close>, \<open>True\<close>) are one key;
  lists and dicts are unhashable; a key that is an infinity or NaN is outside the model.
\<close>

datatype key = KNone | KNum rat | KStr string

fun hash_key :: "json \<Rightarrow> exn + key" where
  "hash_key JNull = Inr KNone"
| "hash_key (JBool b) = Inr (KNum (if b then 1 else 0))"
| "hash_key (JInt i) = Inr (KNum (of_int i))"
| "hash_key (JFloat (Finite q)) = Inr (KNum q)"
| "hash_key (JFloat _) = Inl OutOfModel"
| "hash_key (JStr s) = Inr (KStr s)"
| "hash_key (JArr _) = Inl TypeError"
| "hash_key (JObj _) = Inl TypeError"

section \<open>Order and sorting\<close>

text \<open>
  \<open>v < w\<close>: numbers by value, strings lexicographically; lists (compared element by element) and
  the non-finite floats are outside the model; any other pair is a \<open>TypeError\<close>.
\<close>

fun ordered_outside :: "json \<Rightarrow> bool" where
  "ordered_outside (JArr _) = True"
| "ordered_outside (JFloat PosInf) = True"
| "ordered_outside (JFloat NegInf) = True"
| "ordered_outside (JFloat NaN) = True"
| "ordered_outside _ = False"

definition py_less :: "json \<Rightarrow> json \<Rightarrow> exn + bool" where
  "py_less v w =
     (case (num_val v, num_val w) of
        (Some x, Some y) \<Rightarrow> Inr (x < y)
      | _ \<Rightarrow> (case (v, w) of
            (JStr s, JStr t) \<Rightarrow> Inr (s < t)
          | _ \<Rightarrow> if ordered_outside v \<or> ordered_outside w then Inl OutOfModel else Inl TypeError))"

text \<open>
  \<open>sorted(xs, key=f)\<close>: stable; a list of at most one element is returned unchanged whatever its
  key; otherwise the keys must all be numbers or all be strings. A comparison sort compares the
  keys along a connected graph, so a mixed list always meets a pair that cannot be compared.
\<close>

definition str_of_json :: "json \<Rightarrow> string" where
  "str_of_json v = (case v of JStr s \<Rightarrow> s | _ \<Rightarrow> [])"

definition num_of_json :: "json \<Rightarrow> rat" where
  "num_of_json v = (case num_val v of Some q \<Rightarrow> q | None \<Rightarrow> 0)"

fun is_str :: "json \<Rightarrow> bool" where
  "is_str (JStr _) = True"
| "is_str _ = False"

definition py_sorted :: "('a \<Rightarrow> json) \<Rightarrow> 'a list \<Rightarrow> exn + 'a list" where
  "py_sorted f xs =
     (if length xs \<le> 1 then Inr xs
      else if list_all (\<lambda>x. num_val (f x) \<noteq> None) xs then Inr (sort_key (\<lambda>x. num_of_json (f x)) xs)
      else if list_all (\<lambda>x. is_str (f x)) xs then Inr (sort_key (\<lambda>x. str_of_json (f x)) xs)
      else if list_ex (\<lambda>x. ordered_outside (f x)) xs then Inl OutOfModel
      else Inl TypeError)"

fun key_json :: "key \<Rightarrow> json" where
  "key_json KNone = JNull"
| "key_json (KNum q) = JFloat (Finite q)"
| "key_json (KStr s) = JStr s"

section \<open>Laws\<close>

lemma dget_simps [simp]:
  "map_of d k = None \<Longrightarrow> dget d k v = v"
  "map_of d k = Some w \<Longrightarrow> dget d k v = w"
  by (simp_all add: dget_def)

lemma dget_eq_JStr_iff: "dget d k JNull = JStr s \<longleftrightarrow> map_of d k = Some (JStr s)"
  by (auto simp: dget_def split: option.splits)

lemma JStr_eq_dget_iff: "JStr s = dget d k JNull \<longleftrightarrow> map_of d k = Some (JStr s)"
  by (metis dget_eq_JStr_iff)

lemma dgetitem_Inr_iff [raises]: "dgetitem d k = Inr v \<longleftrightarrow> map_of d k = Some v"
  by (auto simp: dgetitem_def split: option.splits)

lemma py_get_Inr_iff [raises]: "py_get v k w = Inr x \<longleftrightarrow> (\<exists>d. v = JObj d \<and> x = dget d k w)"
  by (cases v) auto

lemma py_getitem_Inr_iff [raises]: "py_getitem v k = Inr x \<longleftrightarrow> (\<exists>d. v = JObj d \<and> map_of d k = Some x)"
  by (cases v) (auto simp: raises)

lemma py_setdefault_Inr_iff [raises]:
  "py_setdefault v k x = Inr w \<longleftrightarrow>
     (\<exists>d. v = JObj d \<and> w = JObj (case map_of d k of None \<Rightarrow> d @ [(k, x)] | Some _ \<Rightarrow> d))"
  by (cases v) auto

lemma hash_key_JStr_iff: "hash_key v = Inr (KStr s) \<longleftrightarrow> v = JStr s"
  by (cases v rule: hash_key.cases) auto

lemma py_sorted_mset:
  assumes "py_sorted f xs = Inr ys"
  shows "mset ys = mset xs"
  using assms by (auto simp: py_sorted_def split: if_splits)

lemma py_sorted_set: "py_sorted f xs = Inr ys \<Longrightarrow> set ys = set xs"
  by (metis py_sorted_mset set_mset_mset)

lemma py_sorted_length: "py_sorted f xs = Inr ys \<Longrightarrow> length ys = length xs"
  by (metis py_sorted_mset size_mset)

lemma insort_key_agree:
  "(\<And>y. y \<in> set (x # ys) \<Longrightarrow> f y = g y) \<Longrightarrow> insort_key f x ys = insort_key g x ys"
  by (induction ys) auto

lemma sort_key_agree: "(\<And>y. y \<in> set xs \<Longrightarrow> f y = g y) \<Longrightarrow> sort_key f xs = sort_key g xs"
proof (induction xs)
  case (Cons x xs)
  then have "sort_key f xs = sort_key g xs" by simp
  moreover have "insort_key f x (sort_key g xs) = insort_key g x (sort_key g xs)"
    using Cons.prems by (intro insort_key_agree) auto
  ultimately show ?case by simp
qed simp

lemma py_sorted_numbers:
  "(\<And>x. x \<in> set xs \<Longrightarrow> num_val (f x) = Some (g x)) \<Longrightarrow> py_sorted f xs = Inr (sort_key g xs)"
proof -
  assume g: "\<And>x. x \<in> set xs \<Longrightarrow> num_val (f x) = Some (g x)"
  then have "num_of_json (f x) = g x" if "x \<in> set xs" for x using that by (simp add: num_of_json_def)
  then have "sort_key (\<lambda>x. num_of_json (f x)) xs = sort_key g xs"
    by (rule sort_key_agree)
  moreover have "sort_key g xs = xs" if "length xs \<le> 1" using that by (cases xs; cases "tl xs") auto
  ultimately show ?thesis using g by (auto simp: py_sorted_def list_all_iff)
qed

end
