(* ===== verification/PyJson.thy ===== *)
theory PyJson imports PyValue begin

text \<open>
  \<open>json.dumps\<close> and \<open>json.loads\<close> of the standard library: the printer with its separators and its
  ASCII escapes, the scanner with its grammar (white space, escapes, numbers, NaN and the
  infinities, trailing data). The scanner's recursion is bounded by a fuel that the length of the
  text makes sufficient. The round trip at the end is what lets one service's log line be another
  program's input.
\<close>

section \<open>Printing\<close>

text \<open>The characters a string literal escapes: quote, backslash, and everything but \<open>' '\<close> to \<open>'~'\<close>.\<close>

definition json_escape :: "char \<Rightarrow> string" where
  "json_escape c =
     (if c = CHR 0x22 then [CHR 0x5C, CHR 0x22]
      else if c = CHR 0x5C then [CHR 0x5C, CHR 0x5C]
      else if c = CHR 0x0A then [CHR 0x5C, CHR ''n'']
      else if c = CHR 0x0D then [CHR 0x5C, CHR ''r'']
      else if c = CHR 0x09 then [CHR 0x5C, CHR ''t'']
      else if c = CHR 0x08 then [CHR 0x5C, CHR ''b'']
      else if c = CHR 0x0C then [CHR 0x5C, CHR ''f'']
      else if 32 \<le> (of_char c :: nat) \<and> (of_char c :: nat) \<le> 126 then [c]
      else [CHR 0x5C, CHR ''u''] @ hex_fixed 4 (of_char c))"

definition json_quote :: "string \<Rightarrow> string" where
  "json_quote s = CHR 0x22 # concat (map json_escape s) @ [CHR 0x22]"

fun str_join :: "string \<Rightarrow> string list \<Rightarrow> string" where
  "str_join sep [] = []"
| "str_join sep [x] = x"
| "str_join sep (x # y # ys) = x @ sep @ str_join sep (y # ys)"

text \<open>
  \<open>json.dumps(v, separators=(isep, ksep))\<close>; \<open>frepr\<close> is \<open>float.__repr__\<close>, the shortest decimal that
  reads back as the same double, which is C code of the interpreter and a parameter here.
\<close>

fun json_dumps :: "(rat \<Rightarrow> string) \<Rightarrow> string \<Rightarrow> string \<Rightarrow> json \<Rightarrow> string" where
  "json_dumps frepr isep ksep JNull = ''null''"
| "json_dumps frepr isep ksep (JBool b) = (if b then ''true'' else ''false'')"
| "json_dumps frepr isep ksep (JInt i) = string_of_int i"
| "json_dumps frepr isep ksep (JFloat (Finite q)) = frepr q"
| "json_dumps frepr isep ksep (JFloat PosInf) = ''Infinity''"
| "json_dumps frepr isep ksep (JFloat NegInf) = ''-Infinity''"
| "json_dumps frepr isep ksep (JFloat NaN) = ''NaN''"
| "json_dumps frepr isep ksep (JStr s) = json_quote s"
| "json_dumps frepr isep ksep (JArr vs) =
     CHR ''['' # str_join isep (map (json_dumps frepr isep ksep) vs) @ [CHR '']'']"
| "json_dumps frepr isep ksep (JObj kvs) =
     CHR ''{'' # str_join isep (map (\<lambda>kv. json_quote (fst kv) @ ksep @ json_dumps frepr isep ksep (snd kv)) kvs)
       @ [CHR ''}'']"

section \<open>Scanning\<close>

definition is_json_ws :: "char \<Rightarrow> bool" where
  "is_json_ws c \<longleftrightarrow> c = CHR 0x20 \<or> c = CHR 0x09 \<or> c = CHR 0x0A \<or> c = CHR 0x0D"

definition skip_ws :: "string \<Rightarrow> string" where
  "skip_ws = dropWhile is_json_ws"

definition json_unescape :: "char \<Rightarrow> char option" where
  "json_unescape e =
     (if e = CHR 0x22 \<or> e = CHR 0x5C \<or> e = CHR ''/'' then Some e
      else if e = CHR ''b'' then Some (CHR 0x08)
      else if e = CHR ''f'' then Some (CHR 0x0C)
      else if e = CHR ''n'' then Some (CHR 0x0A)
      else if e = CHR ''r'' then Some (CHR 0x0D)
      else if e = CHR ''t'' then Some (CHR 0x09)
      else None)"

definition hex4 :: "char \<Rightarrow> char \<Rightarrow> char \<Rightarrow> char \<Rightarrow> nat option" where
  "hex4 a b c d =
     (case (hex_val a, hex_val b, hex_val c, hex_val d) of
        (Some w, Some x, Some y, Some z) \<Rightarrow> Some (4096 * w + 256 * x + 16 * y + z)
      | _ \<Rightarrow> None)"

definition push_char :: "char \<Rightarrow> exn + string \<times> string \<Rightarrow> exn + string \<times> string" where
  "push_char c m = ebind m (\<lambda>(s, r). Inr (c # s, r))"

text \<open>What follows a backslash: the character it stands for, and the rest of the text.\<close>

definition json_escaped :: "string \<Rightarrow> exn + char \<times> string" where
  "json_escaped s =
     (case s of
        [] \<Rightarrow> Inl JSONDecodeError
      | e # es \<Rightarrow>
          if e = CHR ''u'' then
            (case es of
               w # x # y # z # r \<Rightarrow>
                 (case hex4 w x y z of
                    None \<Rightarrow> Inl JSONDecodeError
                  | Some n \<Rightarrow> if n < 256 then Inr (char_of n, r) else Inl OutOfModel)
             | _ \<Rightarrow> Inl JSONDecodeError)
          else (case json_unescape e of None \<Rightarrow> Inl JSONDecodeError | Some u \<Rightarrow> Inr (u, es)))"

lemma json_escaped_shorter: "json_escaped s = Inr (u, r) \<Longrightarrow> length r < length s"
  by (auto simp: json_escaped_def split: list.splits option.splits if_splits)

text \<open>A string after its opening quote: its characters, and the text after the closing quote.\<close>

function json_string :: "string \<Rightarrow> exn + string \<times> string" where
  "json_string [] = Inl JSONDecodeError"
| "json_string (c # cs) =
     (if c = CHR 0x22 then Inr ([], cs)
      else if c = CHR 0x5C then ebind (json_escaped cs) (\<lambda>p. push_char (fst p) (json_string (snd p)))
      else if (of_char c :: nat) < 32 then Inl JSONDecodeError
      else push_char c (json_string cs))"
  by pat_completeness auto
termination
  by (relation "measure length") (auto dest: json_escaped_shorter)

text \<open>
  A number: \<open>(-?(?:0|[1-9]\d*))(\.\d+)?([eE][-+]?\d+)?\<close>; without fraction and exponent an int. A float
  literal beyond the range of a double is an infinity.
\<close>

definition float_of_rat :: "rat \<Rightarrow> pyfloat" where
  "float_of_rat q =
     (if 2 ^ 1024 - 2 ^ 970 \<le> q then PosInf
      else if q \<le> - (2 ^ 1024 - 2 ^ 970) then NegInf else Finite q)"

definition json_int_part :: "string \<Rightarrow> (string \<times> string) option" where
  "json_int_part s =
     (case s of
        [] \<Rightarrow> None
      | c # cs \<Rightarrow>
          if c = CHR ''0'' then Some ([c], cs)
          else if is_digit c then Some (takeWhile is_digit s, dropWhile is_digit s)
          else None)"

definition json_frac_part :: "string \<Rightarrow> string \<times> string" where
  "json_frac_part s =
     (case s of
        c # d # cs \<Rightarrow>
          if c = CHR ''.'' \<and> is_digit d then (takeWhile is_digit (d # cs), dropWhile is_digit (d # cs))
          else ([], s)
      | _ \<Rightarrow> ([], s))"

definition json_exp_part :: "string \<Rightarrow> int option \<times> string" where
  "json_exp_part s =
     (case s of
        [] \<Rightarrow> (None, s)
      | c # cs \<Rightarrow>
          if c \<in> set ''eE'' then
            (let neg = (cs \<noteq> [] \<and> hd cs = CHR ''-'');
                 ds = (if cs \<noteq> [] \<and> hd cs \<in> set ''+-'' then tl cs else cs)
             in if ds \<noteq> [] \<and> is_digit (hd ds)
                then (Some ((if neg then -1 else 1) * int (nat_of_digits (takeWhile is_digit ds))),
                      dropWhile is_digit ds)
                else (None, s))
          else (None, s))"

definition pow10 :: "int \<Rightarrow> rat" where
  "pow10 e = (if 0 \<le> e then 10 ^ nat e else 1 / 10 ^ nat (- e))"

definition json_number :: "string \<Rightarrow> exn + json \<times> string" where
  "json_number s =
     (let neg = (s \<noteq> [] \<and> hd s = CHR ''-''); sgn = (if neg then -1 else 1 :: int);
          body = (if neg then tl s else s)
      in case json_int_part body of
           None \<Rightarrow> Inl JSONDecodeError
         | Some (ip, r1) \<Rightarrow>
             (let (fp, r2) = json_frac_part r1; (ex, r3) = json_exp_part r2
              in if fp = [] \<and> ex = None then Inr (JInt (sgn * int (nat_of_digits ip)), r1)
                 else Inr (JFloat (float_of_rat (of_int (sgn * int (nat_of_digits (ip @ fp)))
                              * pow10 ((case ex of None \<Rightarrow> 0 | Some e \<Rightarrow> e) - int (length fp)))), r3)))"

definition json_scalar :: "string \<Rightarrow> exn + json \<times> string" where
  "json_scalar s =
     (if prefix ''null'' s then Inr (JNull, drop 4 s)
      else if prefix ''true'' s then Inr (JBool True, drop 4 s)
      else if prefix ''false'' s then Inr (JBool False, drop 5 s)
      else if prefix ''NaN'' s then Inr (JFloat NaN, drop 3 s)
      else if prefix ''Infinity'' s then Inr (JFloat PosInf, drop 8 s)
      else if prefix ''-Infinity'' s then Inr (JFloat NegInf, drop 9 s)
      else json_number s)"

text \<open>A dict built from pairs: a later pair replaces the value of an earlier one with its key.\<close>

definition dict_of :: "(string \<times> json) list \<Rightarrow> dict" where
  "dict_of kvs = fold (\<lambda>kv d. AList.update (fst kv) (snd kv) d) kvs []"

definition head_is :: "char \<Rightarrow> string \<Rightarrow> bool" where
  "head_is c s \<longleftrightarrow> s \<noteq> [] \<and> hd s = c"

fun json_value :: "nat \<Rightarrow> string \<Rightarrow> exn + json \<times> string"
  and json_items :: "nat \<Rightarrow> string \<Rightarrow> exn + json list \<times> string"
  and json_members :: "nat \<Rightarrow> string \<Rightarrow> exn + (string \<times> json) list \<times> string"
where
  "json_value 0 s = Inl JSONDecodeError"
| "json_value (Suc k) s =
     (if head_is (CHR 0x22) s then ebind (json_string (tl s)) (\<lambda>(t, r). Inr (JStr t, r))
      else if head_is (CHR ''{'') s then
        (let r = skip_ws (tl s) in
         if head_is (CHR ''}'') r then Inr (JObj [], tl r)
         else ebind (json_members k r) (\<lambda>(kvs, r'). Inr (JObj (dict_of kvs), r')))
      else if head_is (CHR ''['') s then
        (let r = skip_ws (tl s) in
         if head_is (CHR '']'') r then Inr (JArr [], tl r)
         else ebind (json_items k r) (\<lambda>(vs, r'). Inr (JArr vs, r')))
      else json_scalar s)"
| "json_items 0 s = Inl JSONDecodeError"
| "json_items (Suc k) s =
     ebind (json_value k s) (\<lambda>(v, r0).
       let r = skip_ws r0 in
       if head_is (CHR '']'') r then Inr ([v], tl r)
       else if head_is (CHR '','') r then
         ebind (json_items k (skip_ws (tl r))) (\<lambda>(vs, r'). Inr (v # vs, r'))
       else Inl JSONDecodeError)"
| "json_members 0 s = Inl JSONDecodeError"
| "json_members (Suc k) s =
     (if head_is (CHR 0x22) s then
        ebind (json_string (tl s)) (\<lambda>(key, r0).
          let r1 = skip_ws r0 in
          if head_is (CHR '':'') r1 then
            ebind (json_value k (skip_ws (tl r1))) (\<lambda>(v, r2).
              let r = skip_ws r2 in
              if head_is (CHR ''}'') r then Inr ([(key, v)], tl r)
              else if head_is (CHR '','') r then
                ebind (json_members k (skip_ws (tl r))) (\<lambda>(kvs, r'). Inr ((key, v) # kvs, r'))
              else Inl JSONDecodeError)
          else Inl JSONDecodeError)
      else Inl JSONDecodeError)"

text \<open>\<open>json.loads(s)\<close>.\<close>

definition json_loads :: "string \<Rightarrow> exn + json" where
  "json_loads s =
     (let t = skip_ws s in
      ebind (json_value (Suc (2 * length t)) t) (\<lambda>(v, r).
        if skip_ws r = [] then Inr v else Inl JSONDecodeError))"

text \<open>
  \<open>json.loads(b)\<close> of bytes: the encoding is detected from the first bytes. Zero bytes and byte order
  marks announce UTF-16, UTF-32 or UTF-8 with a signature and are outside the model.
\<close>

definition other_encoding :: "byte list \<Rightarrow> bool" where
  "other_encoding b =
     (take 2 b = [0xFF, 0xFE] \<or> take 2 b = [0xFE, 0xFF] \<or> take 3 b = [0xEF, 0xBB, 0xBF] \<or>
      ((4 \<le> length b \<or> length b = 2) \<and> (b ! 0 = 0 \<or> b ! 1 = 0)))"

definition json_loads_bytes :: "byte list \<Rightarrow> exn + json" where
  "json_loads_bytes b =
     (if other_encoding b then Inl OutOfModel else ebind (utf8_decode b) json_loads)"

section \<open>The scanner consumes its input\<close>

lemma push_char_Inr_iff [raises]:
  "push_char c m = Inr (s, r) \<longleftrightarrow> (\<exists>s'. m = Inr (s', r) \<and> s = c # s')"
  by (cases m) (auto simp: push_char_def)

lemma json_string_shorter: "json_string s = Inr (t, r) \<Longrightarrow> length r < length s"
proof (induction s arbitrary: t r rule: json_string.induct)
  case (2 c cs)
  show ?case
  proof (cases "c = CHR 0x5C")
    case True
    with "2.prems" obtain u r0 s' where "json_escaped cs = Inr (u, r0)" "json_string r0 = Inr (s', r)"
      by (auto simp: raises split: if_splits)
    with True "2.IH"(1) [of "(u, r0)" s' r] json_escaped_shorter [of cs u r0] show ?thesis by simp
  next
    case False
    with "2.prems" "2.IH"(2) show ?thesis by (fastforce simp: raises split: if_splits)
  qed
qed simp

lemma length_skip_ws: "length (skip_ws s) \<le> length s"
  by (simp add: skip_ws_def length_dropWhile_le)

lemma json_int_part_shorter: "json_int_part s = Some (p, r) \<Longrightarrow> length r < length s"
  by (cases s)
    (auto simp: json_int_part_def length_dropWhile_le le_imp_less_Suc split: if_splits)

lemma json_frac_part_shorter: "json_frac_part s = (p, r) \<Longrightarrow> length r \<le> length s"
  using length_dropWhile_le [of is_digit "tl s"]
  by (auto simp: json_frac_part_def split: list.splits if_splits)

lemma json_exp_part_shorter: "json_exp_part s = (p, r) \<Longrightarrow> length r \<le> length s"
  using length_dropWhile_le [of is_digit "tl s"] length_dropWhile_le [of is_digit "tl (tl s)"]
  by (auto simp: json_exp_part_def Let_def split: list.splits if_splits)

lemma json_number_shorter: "json_number s = Inr (v, r) \<Longrightarrow> length r < length s"
proof -
  assume *: "json_number s = Inr (v, r)"
  define body where "body = (if s \<noteq> [] \<and> hd s = CHR ''-'' then tl s else s)"
  have "length body \<le> length s" by (simp add: body_def)
  moreover from * have "length r < length body"
    by (auto simp: json_number_def Let_def body_def [symmetric]
        split: option.splits prod.splits if_splits
        dest!: json_int_part_shorter json_frac_part_shorter json_exp_part_shorter)
  ultimately show ?thesis by simp
qed

lemma json_scalar_shorter: "json_scalar s = Inr vr \<Longrightarrow> length (snd vr) < length s"
  by (cases vr)
    (auto simp: json_scalar_def prefix_def dest: json_number_shorter split: if_splits)

lemma head_is_length: "head_is c s \<Longrightarrow> length (tl s) < length s"
  by (cases s) (auto simp: head_is_def)

lemma skip_ws_le: "length r < length (skip_ws s) \<Longrightarrow> length r < length s"
  using length_skip_ws [of s] by simp

lemma json_shorter:
  shows "json_value k s = Inr vr \<Longrightarrow> length (snd vr) < length s"
    and "json_items k s = Inr vsr \<Longrightarrow> length (snd vsr) < length s"
    and "json_members k s = Inr kvsr \<Longrightarrow> length (snd kvsr) < length s"
proof (induction k arbitrary: s vr vsr kvsr)
  case (Suc k)
  have D: "n < length (skip_ws (tl (skip_ws r))) \<Longrightarrow> n < length r" for n and r :: string
    using length_skip_ws [of "tl (skip_ws r)"] length_skip_ws [of r] by simp
  have G: "length r < n \<Longrightarrow> length (skip_ws r) - Suc 0 < n" for n and r :: string
    using length_skip_ws [of r] by simp
  {
    case 1
    then show ?case
      using length_skip_ws [of "tl s"]
      by (auto simp: raises Let_def split: if_splits prod.splits
          dest!: Suc.IH json_string_shorter json_scalar_shorter head_is_length)
  next
    case 2
    then show ?case
      by (auto simp: raises Let_def split: if_splits prod.splits dest!: Suc.IH D intro!: G)
  next
    case 3
    then show ?case
      by (auto simp: raises Let_def split: if_splits prod.splits
          dest!: Suc.IH json_string_shorter D intro!: G)
  }
qed simp_all

text \<open>More fuel than the text is long changes nothing.\<close>

lemma json_fuel_step:
  shows "2 * length s < k \<Longrightarrow> json_value (Suc k) s = json_value k s"
    and "2 * length s + 1 < k \<Longrightarrow> json_items (Suc k) s = json_items k s"
    and "2 * length s < k \<Longrightarrow> json_members (Suc k) s = json_members k s"
proof (induction k arbitrary: s)
  case (Suc k)
  have shrink: "length (skip_ws (tl (skip_ws r))) < n" if "length r < n" for n and r :: string
    using that length_skip_ws [of "tl (skip_ws r)"] length_skip_ws [of r] by simp
  {
    case 1
    have m: "json_members (Suc k) (skip_ws (tl s)) = json_members k (skip_ws (tl s))"
      and i: "json_items (Suc k) (skip_ws (tl s)) = json_items k (skip_ws (tl s))"
      if "head_is c s" for c
      using 1 length_skip_ws [of "tl s"] head_is_length [OF that] by (intro Suc.IH; simp)+
    show ?case
      by (subst (1 2) json_value.simps)
        (simp add: Let_def m i del: json_value.simps json_items.simps json_members.simps)
  next
    case 2
    then have v: "json_value (Suc k) s = json_value k s" by (intro Suc.IH) simp
    have "json_items (Suc k) (skip_ws (tl (skip_ws r))) = json_items k (skip_ws (tl (skip_ws r)))"
      if "json_value k s = Inr (x, r)" for x r
    proof -
      from json_shorter(1) [OF that] have "length r < length s" by simp
      from shrink [OF this] 2 show ?thesis by (intro Suc.IH) simp
    qed
    with v show ?case 
      by (subst (1 2) json_items.simps)
        (auto simp: Let_def intro!: ebind_cong simp del: json_value.simps json_items.simps json_members.simps)
  next
    case 3
    have v: "json_value (Suc k) (skip_ws (tl (skip_ws r))) = json_value k (skip_ws (tl (skip_ws r)))"
      and m: "\<And>y r'. json_value k (skip_ws (tl (skip_ws r))) = Inr (y, r') \<Longrightarrow>
        json_members (Suc k) (skip_ws (tl (skip_ws r'))) = json_members k (skip_ws (tl (skip_ws r')))"
      if "head_is (CHR 0x22) s" "json_string (tl s) = Inr (x, r)" for x r
    proof -
      have r: "length (skip_ws (tl (skip_ws r))) < length (tl s)"
        using json_string_shorter [OF that(2)] by (rule shrink)
      then show "json_value (Suc k) (skip_ws (tl (skip_ws r))) = json_value k (skip_ws (tl (skip_ws r)))"
        using 3 by (intro Suc.IH) simp
      show "json_members (Suc k) (skip_ws (tl (skip_ws r'))) = json_members k (skip_ws (tl (skip_ws r')))"
        if "json_value k (skip_ws (tl (skip_ws r))) = Inr (y, r')" for y r'
      proof -
        have "length r' < length (tl s)" using json_shorter(1) [OF that] r by simp
        from shrink [OF this] 3 show ?thesis by (intro Suc.IH) simp
      qed
    qed
    show ?case
      by (subst (1 2) json_members.simps)
        (auto simp: Let_def v m intro!: ebind_cong simp del: json_value.simps json_items.simps json_members.simps)
  }
qed simp_all

lemma json_fuel_enough: "2 * length s < k \<Longrightarrow> json_value k s = json_value (Suc (2 * length s)) s"
proof (induction k)
  case (Suc k)
  then show ?case
    using json_fuel_step(1) [of s k] by (cases "2 * length s < k") (simp_all add: not_less_less_Suc_eq)
qed simp

section \<open>Round trip\<close>

text \<open>The separators of \<open>json.dumps\<close>: a comma and a colon, each with optional white space.\<close>

definition json_seps :: "string \<Rightarrow> string \<Rightarrow> bool" where
  "json_seps isep ksep \<longleftrightarrow>
     isep \<noteq> [] \<and> hd isep = CHR '','' \<and> list_all is_json_ws (tl isep) \<and>
     ksep \<noteq> [] \<and> hd ksep = CHR '':'' \<and> list_all is_json_ws (tl ksep)"

fun float_free :: "json \<Rightarrow> bool" where
  "float_free (JFloat (Finite q)) = False"
| "float_free (JArr vs) = list_all float_free vs"
| "float_free (JObj kvs) = list_all (\<lambda>kv. float_free (snd kv)) kvs"
| "float_free _ = True"

text \<open>A text that cannot continue a number.\<close>

definition stops_number :: "string \<Rightarrow> bool" where
  "stops_number r \<longleftrightarrow> r = [] \<or> \<not> is_digit (hd r) \<and> hd r \<notin> set ''.eE''"

lemma hex4_hex_fixed:
  assumes "n < 256"
  shows "\<exists>w x y z. hex_fixed 4 n = [w, x, y, z] \<and> hex4 w x y z = Some n"
proof -
  from assms have "n div 16 < 16" by (simp add: less_mult_imp_div_less)
  then have "n div 16 div 16 = 0" "16 * (n div 16 mod 16) + n mod 16 = n" by simp_all
  moreover have "hex_fixed 4 n = [hex_char (n div 16 div 16 div 16 mod 16),
      hex_char (n div 16 div 16 mod 16), hex_char (n div 16 mod 16), hex_char (n mod 16)]"
  proof -
    have "(4 :: nat) = Suc (Suc (Suc (Suc 0)))" by simp
    then show ?thesis by (simp only: hex_fixed.simps append.simps)
  qed
  ultimately show ?thesis by (simp add: hex4_def)
qed

lemma json_string_escape: "json_string (json_escape c @ r) = push_char c (json_string r)"
proof -
  consider (short) "c \<in> set [CHR 0x22, CHR 0x5C, CHR 0x0A, CHR 0x0D, CHR 0x09, CHR 0x08, CHR 0x0C]"
    | (plain) "c \<notin> set [CHR 0x22, CHR 0x5C, CHR 0x0A, CHR 0x0D, CHR 0x09, CHR 0x08, CHR 0x0C]"
        "32 \<le> (of_char c :: nat)" "(of_char c :: nat) \<le> 126"
    | (hex) "c \<notin> set [CHR 0x22, CHR 0x5C, CHR 0x0A, CHR 0x0D, CHR 0x09, CHR 0x08, CHR 0x0C]"
        "\<not> (32 \<le> (of_char c :: nat) \<and> (of_char c :: nat) \<le> 126)"
    by blast
  then show ?thesis
  proof cases
    case short
    then show ?thesis
      by simp (elim disjE; simp add: json_escape_def json_escaped_def json_unescape_def)
  next
    case plain
    then show ?thesis by (simp add: json_escape_def)
  next
    case hex
    obtain w x y z where h: "hex_fixed 4 (of_char c) = [w, x, y, z]" "hex4 w x y z = Some (of_char c)"
      using hex4_hex_fixed [of "of_char c"] by auto
    from hex have "json_escape c = [CHR 0x5C, CHR ''u'', w, x, y, z]"
      by (simp add: json_escape_def h del: of_char_eq_iff)
    with h show ?thesis by (simp add: json_escaped_def)
  qed
qed

lemma json_string_quoted: "json_string (concat (map json_escape s) @ CHR 0x22 # r) = Inr (s, r)"
  by (induction s) (simp_all add: json_string_escape push_char_def)

lemma json_int_part_digits:
  assumes "stops_number r"
  shows "json_int_part (string_of_nat n @ r) = Some (string_of_nat n, r)"
proof (cases "n = 0")
  case True
  moreover have "digit_char 0 = CHR ''0''" by code_simp
  ultimately show ?thesis by (simp add: string_of_nat_small json_int_part_def)
next
  case False
  obtain c cs where c: "string_of_nat n = c # cs" by (cases "string_of_nat n") simp_all
  from False c have "c \<noteq> CHR ''0''" using string_of_nat_hd [of n] by simp
  moreover from c have "is_digit c" using string_of_nat_digits [of c n] by simp
  moreover from assms have "r = [] \<or> \<not> is_digit (hd r)" by (auto simp: stops_number_def)
  then have "takeWhile is_digit (string_of_nat n @ r) = string_of_nat n"
    "dropWhile is_digit (string_of_nat n @ r) = r"
    by (auto intro!: takeWhile_prefix_id dropWhile_prefix_drop dest: string_of_nat_digits)
  ultimately show ?thesis by (simp add: json_int_part_def c)
qed

lemma json_scalar_int:
  assumes "stops_number r"
  shows "json_scalar (string_of_int i @ r) = Inr (JInt i, r)"
proof -
  let ?ds = "string_of_nat (nat \<bar>i\<bar>)"
  obtain c cs where c: "?ds = c # cs" by (cases ?ds) simp_all
  then have val: "nat_of_digits (c # cs) = nat \<bar>i\<bar>"
    using nat_of_digits_string_of_nat [of "nat \<bar>i\<bar>"] by simp
  from c have dig: "is_digit c" using string_of_nat_digits [of c "nat \<bar>i\<bar>"] by simp
  then have heads: "c \<notin> set ''ntfNI-''" by (auto simp: is_digit_def)
  have parts: "json_int_part (?ds @ r) = Some (?ds, r)" using assms by (rule json_int_part_digits)
  have frac: "json_frac_part r = ([], r)" "json_exp_part r = (None, r)"
    using assms by (auto simp: json_frac_part_def json_exp_part_def stops_number_def split: list.splits)
  show ?thesis
  proof (cases "i < 0")
    case True
    have "json_number (CHR ''-'' # ?ds @ r) = Inr (JInt i, r)"
      using True parts frac c val by (simp add: json_number_def Let_def)
    with True heads c show ?thesis
      by (auto simp: json_scalar_def string_of_int_def)
  next
    case False
    have "json_number (?ds @ r) = Inr (JInt i, r)"
      using False parts frac heads c val by (simp add: json_number_def Let_def)
    with False heads c show ?thesis by (auto simp: json_scalar_def string_of_int_def)
  qed
qed

lemma dict_of_distinct: "distinct (map fst (d @ kvs)) \<Longrightarrow>
    fold (\<lambda>kv d. AList.update (fst kv) (snd kv) d) kvs d = d @ kvs"
proof (induction kvs arbitrary: d)
  case (Cons kv kvs)
  have "AList.update k v d = d @ [(k, v)]" if "k \<notin> fst ` set d" for k v
    using that by (induction d) auto
  with Cons.prems have "AList.update (fst kv) (snd kv) d = d @ [kv]" by (cases kv) auto
  with Cons.IH [of "d @ [kv]"] Cons.prems show ?case by simp
qed simp

lemma dict_of_id: "distinct (map fst kvs) \<Longrightarrow> dict_of kvs = kvs"
  using dict_of_distinct [of "[]" kvs] by (simp add: dict_of_def)

text \<open>The first character of a printed value.\<close>

lemma json_dumps_head:
  assumes "float_free v"
  shows "\<exists>c cs. json_dumps fr isep ksep v = c # cs \<and> \<not> is_json_ws c \<and> c \<noteq> CHR '']'' \<and> c \<noteq> CHR ''}''"
proof (cases v)
  case (JInt i)
  obtain c cs where c: "string_of_nat (nat \<bar>i\<bar>) = c # cs" by (cases "string_of_nat (nat \<bar>i\<bar>)") simp_all
  then have "is_digit c" using string_of_nat_digits [of c "nat \<bar>i\<bar>"] by simp
  then have "\<not> is_json_ws c" "c \<noteq> CHR '']''" "c \<noteq> CHR ''}''"
    by (auto simp: is_digit_def is_json_ws_def)
  with JInt c show ?thesis by (auto simp: string_of_int_def is_json_ws_def)
next
  case (JFloat f)
  with assms show ?thesis by (cases f) (auto simp: is_json_ws_def)
qed (auto simp: is_json_ws_def json_quote_def)

lemma skip_ws_dumps:
  assumes "float_free v"
  shows "skip_ws (json_dumps fr isep ksep v @ r) = json_dumps fr isep ksep v @ r"
    "\<not> head_is (CHR '']'') (json_dumps fr isep ksep v @ r)"
  using json_dumps_head [OF assms, of fr isep ksep] by (auto simp: skip_ws_def head_is_def)

lemma skip_ws_all: "list_all is_json_ws w \<Longrightarrow> skip_ws (w @ r) = skip_ws r"
  by (induction w) (auto simp: skip_ws_def)

lemma json_seps_skip:
  "json_seps isep ksep \<Longrightarrow> \<exists>w1 w2. isep = CHR '','' # w1 \<and> ksep = CHR '':'' # w2 \<and>
     (\<forall>r. skip_ws (w1 @ r) = skip_ws r) \<and> (\<forall>r. skip_ws (w2 @ r) = skip_ws r)"
  by (cases isep; cases ksep) (auto simp: json_seps_def skip_ws_all)

lemma skip_ws_Cons: "\<not> is_json_ws c \<Longrightarrow> skip_ws (c # r) = c # r"
  by (simp add: skip_ws_def)

lemma stops_sep [simp]: "stops_number (CHR '','' # r)" "stops_number (CHR '']'' # r)"
  "stops_number (CHR ''}'' # r)" "stops_number []"
  by (simp_all add: stops_number_def is_digit_def)

lemma not_ws [simp]: "\<not> is_json_ws (CHR '','')" "\<not> is_json_ws (CHR '']'')" "\<not> is_json_ws (CHR ''}'')"
  "\<not> is_json_ws (CHR '':'')" "\<not> is_json_ws (CHR 0x22)"
  by (simp_all add: is_json_ws_def)

lemma head_is_Cons [simp]: "head_is c (d # r) \<longleftrightarrow> d = c"
  by (auto simp: head_is_def)

definition reads_back :: "(json \<Rightarrow> string) \<Rightarrow> json \<Rightarrow> bool" where
  "reads_back d v \<longleftrightarrow>
     (\<forall>k r. stops_number r \<longrightarrow> 2 * length (d v) < k \<longrightarrow> json_value k (d v @ r) = Inr (v, r))"

lemma reads_backI:
  "(\<And>j r. stops_number r \<Longrightarrow> json_value (Suc j) (d v @ r) = Inr (v, r)) \<Longrightarrow> reads_back d v"
  by (auto simp: reads_back_def dest!: less_imp_Suc_add simp del: json_value.simps)

lemma json_items_roundtrip:
  assumes seps: "json_seps isep ksep"
    and "vs \<noteq> []" "\<And>v. v \<in> set vs \<Longrightarrow> reads_back (json_dumps fr isep ksep) v \<and> float_free v"
    and "2 * length (str_join isep (map (json_dumps fr isep ksep) vs)) + 1 < k"
  shows "json_items k (str_join isep (map (json_dumps fr isep ksep) vs) @ CHR '']'' # r) = Inr (vs, r)"
  using assms(2-)
proof (induction vs arbitrary: k)
  case (Cons v vs)
  let ?d = "json_dumps fr isep ksep"
  obtain j where k: "k = Suc j" using Cons.prems(3) by (cases k) auto
  from Cons.prems(2) have v: "reads_back ?d v" and fv: "float_free v" by auto
  obtain w1 where w1: "isep = CHR '','' # w1" "\<forall>r. skip_ws (w1 @ r) = skip_ws r"
    using json_seps_skip [OF seps] by blast
  show ?case
  proof (cases vs)
    case Nil
    with Cons.prems(3) v k have "json_value j (?d v @ CHR '']'' # r) = Inr (v, CHR '']'' # r)"
      by (simp add: reads_back_def)
    then show ?thesis using Nil k by (simp add: skip_ws_Cons Let_def)
  next
    case (Cons v' vs')
    let ?rest = "str_join isep (map ?d vs) @ CHR '']'' # r"
    have split: "str_join isep (map ?d (v # vs)) @ CHR '']'' # r = ?d v @ isep @ ?rest"
      using Cons by simp
    have "2 * length (?d v) < j" "2 * length (str_join isep (map ?d vs)) + 1 < j"
      using Cons.prems(3) Cons k w1 by simp_all
    moreover from this have "json_items j ?rest = Inr (vs, r)"
      using Cons Cons.prems(2) by (intro Cons.IH) auto
    moreover have "skip_ws ?rest = ?rest"
      using Cons Cons.prems(2) skip_ws_dumps(1) [of v' fr isep ksep]
      by (cases vs') auto
    ultimately show ?thesis
      unfolding split using v k w1 by (simp add: reads_back_def Let_def skip_ws_Cons)
  qed
qed simp

lemma json_members_roundtrip:
  fixes kvs :: "(string \<times> json) list"
  defines "m fr isep ksep kv \<equiv> json_quote (fst kv) @ ksep @ json_dumps fr isep ksep (snd kv)"
  assumes seps: "json_seps isep ksep"
    and "kvs \<noteq> []"
    and "\<And>kv. kv \<in> set kvs \<Longrightarrow> reads_back (json_dumps fr isep ksep) (snd kv) \<and> float_free (snd kv)"
    and "2 * length (str_join isep (map (m fr isep ksep) kvs)) < k"
  shows "json_members k (str_join isep (map (m fr isep ksep) kvs) @ CHR ''}'' # r) = Inr (kvs, r)"
  using assms(3-)
proof (induction kvs arbitrary: k)
  case (Cons kv kvs)
  let ?d = "json_dumps fr isep ksep" and ?m = "m fr isep ksep"
  obtain key v where kv: "kv = (key, v)" by (cases kv)
  obtain j where k: "k = Suc j" using Cons.prems(3) by (cases k) auto
  from Cons.prems(2) [of kv] kv have v: "reads_back ?d v" and fv: "float_free v" by simp_all
  obtain w1 w2 where w: "isep = CHR '','' # w1" "ksep = CHR '':'' # w2"
    "\<forall>r. skip_ws (w1 @ r) = skip_ws r" "\<forall>r. skip_ws (w2 @ r) = skip_ws r"
    using json_seps_skip [OF seps] by blast
  have str: "json_string (concat (map json_escape key) @ CHR 0x22 # x) = Inr (key, x)" for x
    by (rule json_string_quoted)
  show ?case
  proof (cases kvs)
    case Nil
    with Cons.prems(3) v k kv have "json_value j (?d v @ CHR ''}'' # r) = Inr (v, CHR ''}'' # r)"
      using w(2) by (simp add: reads_back_def m_def json_quote_def)
    then show ?thesis
      using Nil k kv w str skip_ws_dumps(1) [OF fv, of fr isep ksep]
      by (simp add: m_def json_quote_def skip_ws_Cons Let_def)
  next
    case (Cons kv' kvs')
    let ?rest = "str_join isep (map ?m kvs) @ CHR ''}'' # r"
    have split: "str_join isep (map ?m (kv # kvs)) @ CHR ''}'' # r = ?m kv @ isep @ ?rest"
      using Cons by simp
    have "length (?m kv) = length (json_quote key) + length ksep + length (?d v)"
      by (simp add: m_def kv)
    then have "2 * length (?d v) < j" "2 * length (str_join isep (map ?m kvs)) < j"
      using Cons.prems(3) Cons k w(1) by simp_all
    moreover from this have "json_members j ?rest = Inr (kvs, r)"
      using Cons Cons.prems(2) by (intro Cons.IH) auto
    moreover have "skip_ws ?rest = ?rest"
      using Cons by (cases kvs') (auto simp: m_def json_quote_def skip_ws_Cons)
    ultimately show ?thesis
      unfolding split using v k kv w str skip_ws_dumps(1) [OF fv, of fr isep ksep]
      by (simp add: m_def json_quote_def reads_back_def Let_def skip_ws_Cons)
  qed
qed simp

lemma json_value_roundtrip:
  assumes "json_seps isep ksep" "wf_json v" "float_free v"
  shows "reads_back (json_dumps fr isep ksep) v"
  using assms(2,3)
proof (induction v)
  case (JInt i)
  have "\<not> head_is c (string_of_int i @ r)" if "c \<in> {CHR 0x22, CHR ''{'', CHR ''[''}" for c r
  proof -
    obtain d ds where d: "string_of_nat (nat \<bar>i\<bar>) = d # ds" by (cases "string_of_nat (nat \<bar>i\<bar>)") simp_all
    then have "is_digit d" using string_of_nat_digits [of d "nat \<bar>i\<bar>"] by simp
    with d that show ?thesis by (auto simp: string_of_int_def is_digit_def)
  qed
  then have "json_value (Suc j) (string_of_int i @ r) = Inr (JInt i, r)" if "stops_number r" for j r
    using that by (simp add: json_scalar_int)
  then show ?case by (intro reads_backI) simp
next
  case (JFloat f)
  then show ?case by (cases f) (auto intro!: reads_backI simp: json_scalar_def)
next
  case (JStr s)
  show ?case
    by (intro reads_backI) (simp add: json_quote_def json_string_quoted)
next
  case (JArr vs)
  show ?case
  proof (cases "vs = []")
    case True
    then show ?thesis by (intro reads_backI) (simp add: skip_ws_Cons)
  next
    case False
    let ?j = "str_join isep (map (json_dumps fr isep ksep) vs)"
    have ne: "skip_ws (?j @ x) = ?j @ x" "\<not> head_is (CHR '']'') (?j @ x)" for x
      using False JArr.prems skip_ws_dumps [of "hd vs" fr isep ksep]
      by (cases vs; cases "tl vs"; force)+
    show ?thesis
      unfolding reads_back_def
    proof (intro allI impI)
      fix k r
      assume "2 * length (json_dumps fr isep ksep (JArr vs)) < k"
      then obtain i where i: "k = Suc i" "2 * length ?j + 1 < i" by (cases k) auto
      have "json_items i (?j @ CHR '']'' # r) = Inr (vs, r)"
        using assms(1) False JArr i(2) by (intro json_items_roundtrip) (auto simp: list_all_iff)
      with ne i show "json_value k (json_dumps fr isep ksep (JArr vs) @ r) = Inr (JArr vs, r)"
        by (simp add: Let_def)
    qed
  qed
next
  case (JObj kvs)
  show ?case
  proof (cases "kvs = []")
    case True
    then show ?thesis by (intro reads_backI) (simp add: skip_ws_Cons)
  next
    case False
    let ?j = "str_join isep (map (\<lambda>kv. json_quote (fst kv) @ ksep @ json_dumps fr isep ksep (snd kv)) kvs)"
    have ne: "skip_ws (?j @ x) = ?j @ x" "\<not> head_is (CHR ''}'') (?j @ x)" for x
      using False by (cases kvs; cases "tl kvs"; simp add: json_quote_def skip_ws_Cons)+
    show ?thesis
      unfolding reads_back_def
    proof (intro allI impI)
      fix k r
      assume "2 * length (json_dumps fr isep ksep (JObj kvs)) < k"
      then obtain i where i: "k = Suc i" "2 * length ?j < i" by (cases k) auto
      have "json_members i (?j @ CHR ''}'' # r) = Inr (kvs, r)"
        using assms(1) False JObj i(2) by (intro json_members_roundtrip) (force simp: list_all_iff)+
      moreover have "dict_of kvs = kvs" using JObj.prems by (intro dict_of_id) simp
      ultimately show "json_value k (json_dumps fr isep ksep (JObj kvs) @ r) = Inr (JObj kvs, r)"
        using ne i by (simp add: Let_def)
    qed
  qed
qed (auto intro!: reads_backI simp: json_scalar_def)

lemma json_loads_dumps:
  assumes "json_seps isep ksep" "wf_json v" "float_free v"
  shows "json_loads (json_dumps fr isep ksep v) = Inr v"
proof -
  let ?s = "json_dumps fr isep ksep v"
  have "json_value (Suc (2 * length ?s)) (?s @ []) = Inr (v, [])"
    using json_value_roundtrip [OF assms, of fr, unfolded reads_back_def, rule_format, of "[]" "Suc (2 * length ?s)"]
    by (simp del: json_value.simps)
  moreover have "skip_ws ?s = ?s" using skip_ws_dumps(1) [OF assms(3), of fr isep ksep "[]"] by simp
  ultimately show ?thesis by (simp add: json_loads_def Let_def skip_ws_def)
qed

text \<open>The same for the bytes of a printed object.\<close>

lemma json_loads_bytes_dumps:
  assumes "json_seps isep ksep" "wf_json (JObj kvs)" "float_free (JObj kvs)"
  shows "json_loads_bytes (utf8_encode (json_dumps fr isep ksep (JObj kvs))) = Inr (JObj kvs)"
proof -
  let ?s = "json_dumps fr isep ksep (JObj kvs)"
  obtain d ds where s: "?s = CHR ''{'' # d # ds" "d = CHR ''}'' \<or> d = CHR 0x22"
    by (cases kvs; cases "tl kvs") (auto simp: json_quote_def)
  then have "utf8_encode ?s = 0x7B # utf8_char d @ utf8_encode ds"
    by (simp add: utf8_encode_def utf8_char_def Let_def)
  with s(2) have "\<not> other_encoding (utf8_encode ?s)"
    by (auto simp: other_encoding_def utf8_char_def Let_def)
  then show ?thesis
    by (simp add: json_loads_bytes_def utf8_roundtrip json_loads_dumps [OF assms] del: json_dumps.simps)
qed

section \<open>What the scanner raises\<close>

lemma push_char_Inl_iff [raises]: "push_char c m = Inl e \<longleftrightarrow> m = Inl e"
  by (cases m) (auto simp: push_char_def)

lemma json_string_raises: "json_string s = Inl e \<Longrightarrow> e \<in> {JSONDecodeError, OutOfModel}"
proof (induction s rule: json_string.induct)
  case (2 c cs)
  then show ?case
    by (auto simp: raises json_escaped_def split: if_splits list.splits option.splits)
qed simp

lemma json_scalar_raises: "json_scalar s = Inl e \<Longrightarrow> e = JSONDecodeError"
  by (auto simp: json_scalar_def json_number_def Let_def split: if_splits option.splits prod.splits)

lemma json_value_raises:
  shows "json_value k s = Inl e \<Longrightarrow> e \<in> {JSONDecodeError, OutOfModel}"
    and "json_items k s = Inl e \<Longrightarrow> e \<in> {JSONDecodeError, OutOfModel}"
    and "json_members k s = Inl e \<Longrightarrow> e \<in> {JSONDecodeError, OutOfModel}"
proof (induction k arbitrary: s)
  case (Suc k)
  {
    case 1
    then show ?case
      by (auto simp: raises Let_def split: if_splits prod.splits
          dest!: Suc.IH json_string_raises json_scalar_raises)
  next
    case 2
    then show ?case
      by (auto simp: raises Let_def split: if_splits prod.splits dest!: Suc.IH)
  next
    case 3
    then show ?case
      by (auto simp: raises Let_def split: if_splits prod.splits dest!: Suc.IH json_string_raises)
  }
qed simp_all

lemma json_loads_raises: "json_loads s = Inl e \<Longrightarrow> e \<in> {JSONDecodeError, OutOfModel}"
  by (auto simp: json_loads_def Let_def raises split: if_splits prod.splits
      simp del: json_value.simps dest!: json_value_raises)

lemma json_loads_bytes_raises:
  "json_loads_bytes b = Inl e \<Longrightarrow> e \<in> {JSONDecodeError, UnicodeError, OutOfModel}"
  by (auto simp: json_loads_bytes_def raises split: if_splits dest!: json_loads_raises utf8_decode_raises)

end
