(* ===== verification/Codec.thy ===== *)
theory Codec imports PyBase64 PyJson begin

text \<open>
  The interface between the code that writes a text and the code that reads it back: an
  encoder, a decoder that may raise, and the values for which reading undoes writing. Its
  instances are the printers and parsers of the standard library; their composition is what one
  segment of a signed token is.
\<close>

locale codec =
  fixes enc :: "'a \<Rightarrow> 'b" and dec :: "'b \<Rightarrow> exn + 'a" and valid :: "'a \<Rightarrow> bool"
  assumes dec_enc: "valid x \<Longrightarrow> dec (enc x) = Inr x"
begin

lemma enc_inject: "valid x \<Longrightarrow> valid y \<Longrightarrow> enc x = enc y \<longleftrightarrow> x = y"
  by (metis dec_enc sum.inject(2))

lemma bind_dec_enc: "valid x \<Longrightarrow> ebind (dec (enc x)) f = f x"
  by (simp add: dec_enc)

end

locale codec_chain =
  inner: codec enc1 dec1 valid1 + outer: codec enc2 dec2 valid2
  for enc1 :: "'a \<Rightarrow> 'b" and dec1 :: "'b \<Rightarrow> exn + 'a" and valid1 :: "'a \<Rightarrow> bool"
    and enc2 :: "'b \<Rightarrow> 'c" and dec2 :: "'c \<Rightarrow> exn + 'b" and valid2 :: "'b \<Rightarrow> bool" +
  assumes inner_valid: "valid1 x \<Longrightarrow> valid2 (enc1 x)"
begin

lemma chain_dec_enc: "valid1 x \<Longrightarrow> ebind (dec2 (enc2 (enc1 x))) dec1 = Inr x"
  by (simp add: outer.dec_enc inner_valid inner.dec_enc)

end

sublocale codec_chain \<subseteq> chained: codec "\<lambda>x. enc2 (enc1 x)" "\<lambda>y. ebind (dec2 y) dec1" valid1
  by unfold_locales (rule chain_dec_enc)

text \<open>The values that survive \<open>json.dumps\<close> and \<open>json.loads\<close>: no finite float (how one is printed is a
  parameter), distinct keys.\<close>

definition plain_json :: "json \<Rightarrow> bool" where
  "plain_json v \<longleftrightarrow> wf_json v \<and> float_free v"

definition plain_object :: "json \<Rightarrow> bool" where
  "plain_object v \<longleftrightarrow> plain_json v \<and> (case v of JObj _ \<Rightarrow> True | _ \<Rightarrow> False)"

lemma plain_json_member:
  "plain_json (JObj d) \<Longrightarrow> map_of d k = Some v \<Longrightarrow> plain_json v"
  by (auto simp: plain_json_def list_all_iff dest!: map_of_SomeD)

text \<open>The two spellings the sources use: the default separators and the compact ones.\<close>

definition dumps_default :: "(rat \<Rightarrow> string) \<Rightarrow> json \<Rightarrow> string" where
  "dumps_default frepr = json_dumps frepr '', '' '': ''"

definition dumps_compact :: "(rat \<Rightarrow> string) \<Rightarrow> json \<Rightarrow> string" where
  "dumps_compact frepr = json_dumps frepr '','' '':''"

lemma seps_used: "json_seps '', '' '': ''" "json_seps '','' '':''"
  by (simp_all add: json_seps_def is_json_ws_def)

interpretation json_text: codec "dumps_default frepr" json_loads plain_json for frepr
  by unfold_locales (simp add: dumps_default_def plain_json_def json_loads_dumps seps_used)

interpretation json_compact: codec "dumps_compact frepr" json_loads plain_json for frepr
  by unfold_locales (simp add: dumps_compact_def plain_json_def json_loads_dumps seps_used)

interpretation json_bytes: codec "\<lambda>v. utf8_encode (dumps_compact frepr v)" json_loads_bytes plain_object
  for frepr
  by unfold_locales
    (auto simp: dumps_compact_def plain_object_def plain_json_def seps_used
      simp del: json_dumps.simps wf_json.simps float_free.simps
      intro!: json_loads_bytes_dumps split: json.splits)

interpretation utf8: codec utf8_encode utf8_decode "\<lambda>_. True"
  by unfold_locales (rule utf8_roundtrip)

end
