(* ===== verification/Sha256.thy ===== *)
theory Sha256 imports PyStr begin

text \<open>
  \<open>hashlib.sha256(b).digest()\<close>: the hash of FIPS 180-4 on 32-bit words, so that the digests the
  DPoP check compares are computed values; the theory shows the digest's length.
\<close>

type_synonym word32 = "32 word"

text \<open>The round constants and the initial hash value, in decimal.\<close>

definition sha_K :: "word32 list" where
  "sha_K =
    [1116352408, 1899447441, 3049323471, 3921009573, 961987163, 1508970993, 2453635748, 2870763221,
     3624381080, 310598401, 607225278, 1426881987, 1925078388, 2162078206, 2614888103, 3248222580,
     3835390401, 4022224774, 264347078, 604807628, 770255983, 1249150122, 1555081692, 1996064986,
     2554220882, 2821834349, 2952996808, 3210313671, 3336571891, 3584528711, 113926993, 338241895,
     666307205, 773529912, 1294757372, 1396182291, 1695183700, 1986661051, 2177026350, 2456956037,
     2730485921, 2820302411, 3259730800, 3345764771, 3516065817, 3600352804, 4094571909, 275423344,
     430227734, 506948616, 659060556, 883997877, 958139571, 1322822218, 1537002063, 1747873779,
     1955562222, 2024104815, 2227730452, 2361852424, 2428436474, 2756734187, 3204031479, 3329325298]"

definition sha_H0 :: "word32 list" where
  "sha_H0 =
    [1779033703, 3144134277, 1013904242, 2773480762, 1359893119, 2600822924, 528734635, 1541459225]"

definition rotr :: "nat \<Rightarrow> word32 \<Rightarrow> word32" where
  "rotr n w = drop_bit n w OR push_bit (32 - n) w"

definition sha_round :: "word32 \<times> word32 \<Rightarrow> word32 list \<Rightarrow> word32 list" where
  "sha_round kw s =
     (case s of
        [a, b, c, d, e, f, g, h] \<Rightarrow>
          (let s1 = rotr 6 e XOR rotr 11 e XOR rotr 25 e;
               ch = (e AND f) XOR (NOT e AND g);
               t1 = h + s1 + ch + fst kw + snd kw;
               s0 = rotr 2 a XOR rotr 13 a XOR rotr 22 a;
               maj = (a AND b) XOR (a AND c) XOR (b AND c)
           in [t1 + (s0 + maj), a, b, c, d + t1, e, f, g])
      | _ \<Rightarrow> s)"

text \<open>The message schedule: each new word from the 16 before it (kept latest first).\<close>

fun sha_schedule :: "nat \<Rightarrow> word32 list \<Rightarrow> word32 list" where
  "sha_schedule 0 ws = rev ws"
| "sha_schedule (Suc n) ws =
     (let w15 = ws ! 14; w2 = ws ! 1;
          s0 = rotr 7 w15 XOR rotr 18 w15 XOR drop_bit 3 w15;
          s1 = rotr 17 w2 XOR rotr 19 w2 XOR drop_bit 10 w2
      in sha_schedule n ((ws ! 15 + s0 + ws ! 6 + s1) # ws))"

definition word_of_bytes4 :: "byte list \<Rightarrow> word32" where
  "word_of_bytes4 bs = fold (\<lambda>b w. push_bit 8 w OR ucast b) bs 0"

fun chunks :: "nat \<Rightarrow> nat \<Rightarrow> 'a list \<Rightarrow> 'a list list" where
  "chunks 0 n xs = []"
| "chunks (Suc k) n xs = take n xs # chunks k n (drop n xs)"

definition sha_block :: "byte list \<Rightarrow> word32 list \<Rightarrow> word32 list" where
  "sha_block b h =
     (let ws = sha_schedule 48 (rev (map word_of_bytes4 (chunks 16 4 b)))
      in map (\<lambda>(x, y). x + y) (zip h (fold sha_round (zip sha_K ws) h)))"

definition bytes_of_word :: "nat \<Rightarrow> 'a::len word \<Rightarrow> byte list" where
  "bytes_of_word k w = map (\<lambda>i. ucast (drop_bit (8 * (k - 1 - i)) w)) [0..<k]"

definition sha_pad :: "byte list \<Rightarrow> byte list" where
  "sha_pad m =
     m @ 0x80 # replicate ((119 - length m mod 64) mod 64) 0 @ bytes_of_word 8 (word_of_nat (8 * length m) :: 64 word)"

definition sha256 :: "byte list \<Rightarrow> byte list" where
  "sha256 m =
     (let p = sha_pad m
      in concat (map (\<lambda>w. bytes_of_word 4 w)
           (fold sha_block (chunks (length p div 64) 64 p) sha_H0)))"

lemma length_sha_pad: "64 dvd length (sha_pad m)"
proof -
  have "length (sha_pad m) = length m + 9 + (119 - length m mod 64) mod 64"
    by (simp add: sha_pad_def bytes_of_word_def)
  moreover have "64 dvd (n + 9 + (119 - n mod 64) mod 64)" for n :: nat
  proof -
    define r where "r = n mod 64"
    have "r < 64" by (simp add: r_def)
    have "(119 - r) mod 64 = (if r \<le> 55 then 55 - r else 119 - r)"
    proof (cases "r \<le> 55")
      case True
      then have "119 - r = (55 - r) + 64" by simp
      then have "(119 - r) mod 64 = (55 - r) mod 64" by (metis mod_add_self2)
      with True show ?thesis by simp
    qed (use \<open>r < 64\<close> in simp)
    then have "r + 9 + (119 - r) mod 64 = 64 \<or> r + 9 + (119 - r) mod 64 = 128"
      using \<open>r < 64\<close> by auto
    moreover have "n + 9 + (119 - r) mod 64 = 64 * (n div 64) + (r + 9 + (119 - r) mod 64)"
      by (simp add: r_def)
    ultimately have "n + 9 + (119 - r) mod 64 = 64 * (n div 64 + 1) \<or>
        n + 9 + (119 - r) mod 64 = 64 * (n div 64 + 2)"
      by (elim disjE) (simp_all add: algebra_simps)
    then show ?thesis unfolding r_def [symmetric] by (metis dvd_triv_left)
  qed
  ultimately show ?thesis by simp
qed

lemma length_sha_round: "length (sha_round kw s) = length s"
  by (simp add: sha_round_def Let_def split: list.splits)

lemma length_fold_rounds: "length (fold sha_round kws s) = length s"
  by (induction kws arbitrary: s) (simp_all add: length_sha_round)

lemma length_sha_block: "length (sha_block b h) = length h"
  by (simp add: sha_block_def Let_def length_fold_rounds)

lemma length_sha256: "length (sha256 m) = 32"
proof -
  have "length (fold sha_block bs h) = length h" for bs h
    by (induction bs arbitrary: h) (simp_all add: length_sha_block)
  then show ?thesis
    by (simp add: sha256_def Let_def length_concat comp_def bytes_of_word_def sum_list_triv sha_H0_def)
qed

end
