(* ===== verification/Dpop.thy ===== *)
theory Dpop imports Codec Sha256 begin

text \<open>
  \<^verbatim>\<open>employee-service/dpop.py\<close>: the validation of a DPoP proof (RFC 9449) that comes with a
  sender-constrained access token. The functions keep the source's names and the order of its
  checks; every \<open>raise\<close>, and every exception the source does not catch, is a value. PyJWT,
  the \<open>cryptography\<close> package and PyMongo are the fields of a record of external functions.
\<close>

section \<open>What the code calls\<close>

text \<open>
  The arguments of one call of \<open>jwt.decode\<close>; \<open>opt_checks\<close> is its \<open>options\<close>. PyJWT makes every check of a
  registered claim that the options do not turn off.
\<close>

record jwt_options =
  opt_algorithms :: "string list"
  opt_audience :: "string option"
  opt_issuer :: "string option"
  opt_checks :: "(string \<times> bool) list"

definition enabled :: "jwt_options \<Rightarrow> string \<Rightarrow> bool" where
  "enabled opts check = (case map_of (opt_checks opts) check of None \<Rightarrow> True | Some b \<Rightarrow> b)"

text \<open>
  \<open>signing_key url token\<close> is \<open>PyJWKClient(url).get_signing_key_from_jwt(token).key\<close>;
  \<open>jwt_decode now token key options\<close> is \<open>jwt.decode\<close> at time \<open>now\<close>, which returns the payload as a dict;
  \<open>ec_public_key x y\<close> is \<open>EllipticCurvePublicNumbers(x, y, SECP256R1()).public_key()\<close>;
  \<open>float_repr\<close> is \<open>float.__repr__\<close>.
\<close>

record 'k externals =
  signing_key :: "string \<Rightarrow> string \<Rightarrow> exn + 'k"
  jwt_decode :: "rat \<Rightarrow> string \<Rightarrow> 'k \<Rightarrow> jwt_options \<Rightarrow> exn + dict"
  ec_public_key :: "int \<Rightarrow> int \<Rightarrow> exn + 'k"
  float_repr :: "rat \<Rightarrow> string"

text \<open>
  What the code reads of a request: \<open>request.method\<close>, \<open>str(request.url)\<close>, \<open>request.url.path\<close> and
  \<open>request.headers.get(name)\<close>.
\<close>

record request =
  req_method :: string
  req_url :: string
  req_path :: string
  req_header :: "string \<Rightarrow> string option"

section \<open>Helpers\<close>

definition IAT_TOLERANCE_SECONDS :: rat where
  "IAT_TOLERANCE_SECONDS = 60"

definition b64url_decode :: "string \<Rightarrow> exn + byte list" where
  "b64url_decode value =
     (let padding = replicate (nat (- int (length value) mod 4)) (CHR ''='')
      in urlsafe_b64decode (value @ padding))"

text \<open>\<open>base64.urlsafe_b64encode(b).rstrip(b"=").decode()\<close>, written out twice in the source.\<close>

definition b64url_encode :: "byte list \<Rightarrow> string" where
  "b64url_encode bs = rstrip_char (CHR ''='') (urlsafe_b64encode bs)"

definition jwk_thumbprint :: "'k externals \<Rightarrow> json \<Rightarrow> exn + string" where
  "jwk_thumbprint ext jwk =
     ebind (py_getitem jwk ''crv'') (\<lambda>crv.
     ebind (py_getitem jwk ''kty'') (\<lambda>kty.
     ebind (py_getitem jwk ''x'') (\<lambda>x.
     ebind (py_getitem jwk ''y'') (\<lambda>y.
       let canonical = dumps_compact (float_repr ext)
             (JObj [(''crv'', crv), (''kty'', kty), (''x'', x), (''y'', y)])
       in Inr (b64url_encode (sha256 (utf8_encode canonical)))))))"

definition base64url_sha256 :: "string \<Rightarrow> string" where
  "base64url_sha256 value = b64url_encode (sha256 (utf8_encode value))"

text \<open>
  \<open>_b64url_decode(jwk[k])\<close> for a member of the proof's key: \<open>len(value)\<close> and \<open>value + padding\<close> raise
  \<open>TypeError\<close> for anything but a string.
\<close>

definition b64url_member :: "json \<Rightarrow> string \<Rightarrow> exn + byte list" where
  "b64url_member jwk k =
     ebind (py_getitem jwk k) (\<lambda>v. case v of JStr s \<Rightarrow> b64url_decode s | _ \<Rightarrow> Inl TypeError)"

text \<open>
  \<open>abs(time.time() - iat) > IAT_TOLERANCE_SECONDS\<close>: an int beyond the range of a double overflows;
  the difference to an infinity is infinite; every comparison with NaN is false.
\<close>

fun iat_outside_window :: "rat \<Rightarrow> json \<Rightarrow> exn + bool" where
  "iat_outside_window now (JInt i) =
     (if 2 ^ 1024 - 2 ^ 970 \<le> \<bar>i\<bar> then Inl OverflowError
      else Inr (IAT_TOLERANCE_SECONDS < \<bar>now - of_int i\<bar>))"
| "iat_outside_window now (JBool b) = Inr (IAT_TOLERANCE_SECONDS < \<bar>now - (if b then 1 else 0)\<bar>)"
| "iat_outside_window now (JFloat (Finite q)) = Inr (IAT_TOLERANCE_SECONDS < \<bar>now - q\<bar>)"
| "iat_outside_window now (JFloat PosInf) = Inr True"
| "iat_outside_window now (JFloat NegInf) = Inr True"
| "iat_outside_window now (JFloat NaN) = Inr False"
| "iat_outside_window now _ = Inl TypeError"

section \<open>Validation\<close>

text \<open>\<open>not cnf or "jkt" not in cnf\<close>.\<close>

definition not_dpop_bound :: "json \<Rightarrow> exn + bool" where
  "not_dpop_bound cnf =
     (if \<not> truthy cnf then Inr True else ebind (py_in ''jkt'' cnf) (\<lambda>b. Inr (\<not> b)))"

definition unauthorized :: "string \<Rightarrow> exn + 'a" where
  "unauthorized detail = Inl (HTTPException 401 detail)"

text \<open>The checks after the signature: key, method, URL, time, access token.\<close>

definition check_proof_claims ::
  "'k externals \<Rightarrow> rat \<Rightarrow> request \<Rightarrow> json \<Rightarrow> string \<Rightarrow> json \<Rightarrow> json \<Rightarrow> exn + unit" where
  "check_proof_claims ext now request cnf access_token jwk payload =
     ebind (jwk_thumbprint ext jwk) (\<lambda>thumbprint.
     ebind (py_getitem cnf ''jkt'') (\<lambda>jkt.
     if JStr thumbprint \<noteq> jkt
     then unauthorized ''DPoP proof key does not match the token's cnf.jkt''
     else ebind (py_get payload ''htm'' JNull) (\<lambda>htm.
     if htm \<noteq> JStr (req_method request)
     then unauthorized ''DPoP proof htm does not match the request method''
     else ebind (py_get payload ''htu'' JNull) (\<lambda>htu.
     if htu \<noteq> JStr (str_split (CHR ''?'') (req_url request) ! 0)
     then unauthorized ''DPoP proof htu does not match the request URL''
     else ebind (py_get payload ''iat'' (JInt 0)) (\<lambda>iat.
     ebind (iat_outside_window now iat) (\<lambda>outside.
     if outside then unauthorized ''DPoP proof iat is outside the acceptable window''
     else ebind (py_get payload ''ath'' JNull) (\<lambda>ath.
     if ath \<noteq> JStr (base64url_sha256 access_token)
     then unauthorized ''DPoP proof ath does not match the presented access token''
     else Inr ())))))))"

text \<open>\<open>jwt.decode(proof, public_key, ...)\<close>, a \<open>PyJWTError\<close> turned into a 401.\<close>

definition proof_options :: jwt_options where
  "proof_options =
     \<lparr>opt_algorithms = [''ES256''], opt_audience = None, opt_issuer = None,
      opt_checks = [(''verify_exp'', False)]\<rparr>"

definition check_signature :: "'k externals \<Rightarrow> rat \<Rightarrow> string \<Rightarrow> 'k \<Rightarrow> exn + unit" where
  "check_signature ext now proof public_key =
     (case jwt_decode ext now proof public_key proof_options of
        Inl (PyJWTError e) \<Rightarrow> unauthorized (''DPoP proof signature is invalid: '' @ e)
      | Inl e \<Rightarrow> Inl e
      | Inr _ \<Rightarrow> Inr ())"

text \<open>The proof itself, once it is there: its three parts, its key, its signature, its claims.\<close>

definition check_proof ::
  "'k externals \<Rightarrow> rat \<Rightarrow> request \<Rightarrow> json \<Rightarrow> string \<Rightarrow> string \<Rightarrow> exn + unit" where
  "check_proof ext now request cnf access_token proof =
     (case str_split (CHR ''.'') proof of
        [header_b64, payload_b64, _] \<Rightarrow>
          ebind (ebind (b64url_decode header_b64) json_loads_bytes) (\<lambda>header.
          ebind (ebind (b64url_decode payload_b64) json_loads_bytes) (\<lambda>payload.
          ebind (py_get header ''typ'' JNull) (\<lambda>typ.
          if typ \<noteq> JStr ''dpop+jwt'' then unauthorized ''DPoP proof has wrong typ header''
          else ebind (py_getitem header ''jwk'') (\<lambda>jwk.
          ebind (b64url_member jwk ''x'') (\<lambda>x.
          ebind (b64url_member jwk ''y'') (\<lambda>y.
          ebind (ec_public_key ext (int_of_bytes x) (int_of_bytes y)) (\<lambda>public_key.
          ebind (check_signature ext now proof public_key) (\<lambda>_.
          check_proof_claims ext now request cnf access_token jwk payload))))))))
      | _ \<Rightarrow> Inl ValueError)"

definition validate_dpop ::
  "'k externals \<Rightarrow> rat \<Rightarrow> request \<Rightarrow> dict \<Rightarrow> string \<Rightarrow> exn + unit" where
  "validate_dpop ext now request claims access_token =
     (let cnf = dget claims ''cnf'' JNull in
      ebind (not_dpop_bound cnf) (\<lambda>not_bound.
      if not_bound then Inr ()
      else (case req_header request ''DPoP'' of
              None \<Rightarrow> unauthorized ''DPoP proof is missing for a DPoP-bound token''
            | Some proof \<Rightarrow>
                if proof = [] then unauthorized ''DPoP proof is missing for a DPoP-bound token''
                else check_proof ext now request cnf access_token proof)))"

section \<open>Base64url without padding\<close>

lemma b64url_encode_shape:
  "\<exists>n. urlsafe_b64encode bs = b64url_encode bs @ replicate n (CHR ''='') \<and>
     n = nat (- int (length (b64url_encode bs)) mod 4) \<and> n = b64_padding (length bs) \<and>
     set (b64url_encode bs) \<subseteq> set b64_alphabet \<and> is_ascii (b64url_encode bs) \<and>
     length (b64url_encode bs) = 4 * ((length bs + 2) div 3) - n"
proof -
  define n where "n = b64_padding (length bs)"
  obtain body where body: "urlsafe_b64encode bs = body @ replicate n (CHR ''='')"
    "set body \<subseteq> set b64_alphabet" "length body + n = 4 * ((length bs + 2) div 3)"
    "CHR ''='' \<notin> set body" "list_all (\<lambda>c. (of_char c :: nat) < 128) body"
    using b64_encode_shape [of bs] unfolding n_def by blast
  have "body = [] \<or> last body \<noteq> CHR ''=''" using body(4) last_in_set by metis
  then have enc: "b64url_encode bs = body"
    by (simp add: b64url_encode_def body(1) rstrip_char_append rstrip_char_id)
  have "n < 4" by (auto simp: n_def b64_padding_def)
  moreover have "- int (length body) = int n + 4 * - int ((length bs + 2) div 3)"
    using body(3) by simp
  ultimately have "- int (length body) mod 4 = int n" by (metis mod_mult_self2 mod_pos_pos_trivial of_nat_0_le_iff of_nat_less_numeral_iff)
  with body enc show ?thesis by (intro exI [of _ n]) (auto simp: is_ascii_def n_def)
qed

lemma b64url_roundtrip: "b64url_decode (b64url_encode bs) = Inr bs"
proof -
  obtain n where n: "urlsafe_b64encode bs = b64url_encode bs @ replicate n (CHR ''='')"
    "n = nat (- int (length (b64url_encode bs)) mod 4)" "is_ascii (b64url_encode bs)"
    using b64url_encode_shape by blast
  then have "is_ascii (urlsafe_b64encode bs)"
    by (auto simp: is_ascii_def list_all_iff set_replicate_conv_if)
  moreover have "b64url_decode (b64url_encode bs) = urlsafe_b64decode (urlsafe_b64encode bs)"
    by (simp only: b64url_decode_def Let_def n(2) [symmetric] n(1) [symmetric])
  ultimately show ?thesis by (simp add: urlsafe_b64decode_def b64_roundtrip)
qed

interpretation b64url: codec b64url_encode b64url_decode "\<lambda>_. True"
  by unfold_locales (rule b64url_roundtrip)

text \<open>One segment of a compact signed token: base64url of the UTF-8 bytes of a JSON object.\<close>

definition jws_segment :: "(rat \<Rightarrow> string) \<Rightarrow> json \<Rightarrow> string" where
  "jws_segment frepr v = b64url_encode (utf8_encode (dumps_compact frepr v))"

interpretation segment: codec_chain "\<lambda>v. utf8_encode (dumps_compact frepr v)" json_loads_bytes
    plain_object b64url_encode b64url_decode "\<lambda>_. True" for frepr
  by unfold_locales simp

lemma jws_segment_reads:
  "plain_object v \<Longrightarrow> ebind (b64url_decode (jws_segment frepr v)) json_loads_bytes = Inr v"
  unfolding jws_segment_def by (rule segment.chain_dec_enc)

lemma b64url_no_dot: "CHR ''.'' \<notin> set (b64url_encode bs)"
  using b64url_encode_shape [of bs] by (auto simp: b64_alphabet_def)

lemma base64url_sha256_shape:
  "length (base64url_sha256 s) = 43 \<and> set (base64url_sha256 s) \<subseteq> set b64_alphabet"
  using b64url_encode_shape [of "sha256 (utf8_encode s)"]
  by (auto simp: length_sha256 b64_padding_def base64url_sha256_def)

section \<open>What is accepted\<close>

definition proof_accepted ::
  "'k externals \<Rightarrow> rat \<Rightarrow> request \<Rightarrow> string \<Rightarrow> string \<Rightarrow> string \<Rightarrow> bool" where
  "proof_accepted ext now request jkt token proof \<longleftrightarrow>
     (\<exists>h p sig header payload jwk x y xb yb key signed.
        str_split (CHR ''.'') proof = [h, p, sig] \<and>
        ebind (b64url_decode h) json_loads_bytes = Inr (JObj header) \<and>
        ebind (b64url_decode p) json_loads_bytes = Inr (JObj payload) \<and>
        map_of header ''typ'' = Some (JStr ''dpop+jwt'') \<and>
        map_of header ''jwk'' = Some (JObj jwk) \<and>
        map_of jwk ''x'' = Some (JStr x) \<and> b64url_decode x = Inr xb \<and>
        map_of jwk ''y'' = Some (JStr y) \<and> b64url_decode y = Inr yb \<and>
        ec_public_key ext (int_of_bytes xb) (int_of_bytes yb) = Inr key \<and>
        jwt_decode ext now proof key proof_options = Inr signed \<and>
        jwk_thumbprint ext (JObj jwk) = Inr jkt \<and>
        map_of payload ''htm'' = Some (JStr (req_method request)) \<and>
        map_of payload ''htu'' = Some (JStr (takeWhile (\<lambda>c. c \<noteq> CHR ''?'') (req_url request))) \<and>
        iat_outside_window now (dget payload ''iat'' (JInt 0)) = Inr False \<and>
        map_of payload ''ath'' = Some (JStr (base64url_sha256 token)))"

lemmas dget_str = dget_eq_JStr_iff JStr_eq_dget_iff

lemma unauthorized_neq [simp]: "unauthorized d \<noteq> Inr x" "unauthorized d = Inl e \<longleftrightarrow> e = HTTPException 401 d"
  by (auto simp: unauthorized_def)

lemma case_JStr_Inr_iff [raises]:
  "(case v of JStr s \<Rightarrow> f s | _ \<Rightarrow> Inl e) = Inr b \<longleftrightarrow> (\<exists>s. v = JStr s \<and> f s = Inr b)"
  by (cases v) auto

lemma b64url_member_Inr_iff [raises]:
  "b64url_member jwk k = Inr b \<longleftrightarrow>
     (\<exists>d s. jwk = JObj d \<and> map_of d k = Some (JStr s) \<and> b64url_decode s = Inr b)"
  by (auto simp: b64url_member_def raises)

lemma check_signature_Inr_iff [raises]:
  "check_signature ext now proof key = Inr u \<longleftrightarrow> (\<exists>signed. jwt_decode ext now proof key proof_options = Inr signed)"
  by (auto simp: check_signature_def split: sum.splits exn.splits)

lemma str_split_first: "str_split c s ! 0 = takeWhile (\<lambda>d. d \<noteq> c) s"
  using hd_str_split [of c s] by (simp add: hd_conv_nth)

lemma check_proof_claims_Inr_iff [raises]:
  "check_proof_claims ext now request cnf token jwk payload = Inr u \<longleftrightarrow>
     (\<exists>jkt cd pd. jwk_thumbprint ext jwk = Inr jkt \<and> cnf = JObj cd \<and> map_of cd ''jkt'' = Some (JStr jkt) \<and>
        payload = JObj pd \<and> map_of pd ''htm'' = Some (JStr (req_method request)) \<and>
        map_of pd ''htu'' = Some (JStr (takeWhile (\<lambda>c. c \<noteq> CHR ''?'') (req_url request))) \<and>
        iat_outside_window now (dget pd ''iat'' (JInt 0)) = Inr False \<and>
        map_of pd ''ath'' = Some (JStr (base64url_sha256 token)))"
  by (auto simp: check_proof_claims_def raises str_split_first dget_str split: if_splits)

lemma check_proof_Inr_iff:
  "check_proof ext now request (JObj cd) token proof = Inr u \<longleftrightarrow>
     (\<exists>jkt. map_of cd ''jkt'' = Some (JStr jkt) \<and> proof_accepted ext now request jkt token proof)"
  unfolding check_proof_def proof_accepted_def
  by (auto simp: raises dget_str split: list.splits if_splits)

lemma validate_dpop_bound_iff:
  assumes "map_of claims ''cnf'' = Some (JObj cd)" "map_of cd ''jkt'' = Some v"
  shows "validate_dpop ext now request claims token = Inr () \<longleftrightarrow>
     (\<exists>proof jkt. req_header request ''DPoP'' = Some proof \<and> proof \<noteq> [] \<and> v = JStr jkt \<and>
        proof_accepted ext now request jkt token proof)"
proof -
  from assms(2) have "cd \<noteq> []" "''jkt'' \<in> fst ` set cd"
    by (auto simp: dict_keys_dom)
  with assms show ?thesis
    by (auto simp: validate_dpop_def not_dpop_bound_def check_proof_Inr_iff split: option.splits)
qed

lemma b64url_decode_raises: "b64url_decode s = Inl e \<Longrightarrow> e \<in> {BinasciiError, ValueError}"
  by (auto simp: b64url_decode_def urlsafe_b64decode_def Let_def split: if_splits dest!: a2b_base64_raises)

section \<open>What is raised\<close>

lemma check_signature_raises:
  "check_signature ext now proof key = Inl (HTTPException st d) \<Longrightarrow>
     st = 401 \<or> jwt_decode ext now proof key proof_options = Inl (HTTPException st d)"
  by (auto simp: check_signature_def split: sum.splits exn.splits)

lemma iat_outside_raises: "iat_outside_window now v = Inl e \<Longrightarrow> e \<in> {OverflowError, TypeError}"
  by (induction now v rule: iat_outside_window.induct) (auto split: if_splits)

lemma dgetitem_raises: "dgetitem d k = Inl e \<Longrightarrow> e = KeyError"
  by (auto simp: dgetitem_def split: option.splits)

lemma py_getitem_raises: "py_getitem v k = Inl e \<Longrightarrow> e \<in> {KeyError, TypeError}"
  by (cases v) (auto dest: dgetitem_raises)

lemma py_get_raises: "py_get v k d = Inl e \<Longrightarrow> e = AttributeError"
  by (cases v) auto

lemma py_in_raises: "py_in k v = Inl e \<Longrightarrow> e = TypeError"
  by (cases v) auto

lemma case_JStr_Inl_iff [raises]:
  "(case v of JStr s \<Rightarrow> f s | _ \<Rightarrow> Inl e) = Inl x \<longleftrightarrow> (\<exists>s. v = JStr s \<and> f s = Inl x) \<or> (x = e \<and> \<not> is_str v)"
  by (cases v) auto

lemma b64url_member_raises:
  "b64url_member jwk k = Inl e \<Longrightarrow> e \<in> {KeyError, TypeError, BinasciiError, ValueError}"
  by (auto simp: b64url_member_def raises dest!: py_getitem_raises dgetitem_raises b64url_decode_raises)

lemma jwk_thumbprint_raises: "jwk_thumbprint ext jwk = Inl e \<Longrightarrow> e \<in> {KeyError, TypeError}"
  by (auto simp: jwk_thumbprint_def Let_def raises dest!: py_getitem_raises dgetitem_raises)

lemma check_proof_claims_raises:
  "check_proof_claims ext now request cnf token jwk payload = Inl e \<Longrightarrow>
     e \<in> {KeyError, TypeError, AttributeError, OverflowError} \<or> (\<exists>d. e = HTTPException 401 d)"
  by (auto simp: check_proof_claims_def Let_def raises split: if_splits
      dest!: py_getitem_raises dgetitem_raises py_get_raises iat_outside_raises jwk_thumbprint_raises)

text \<open>
  No library call of the validation raises an \<open>HTTPException\<close> itself: that class is FastAPI's, and
  PyJWT, \<open>cryptography\<close> and the JWKS client do not know it.
\<close>

definition no_http_exception :: "'k externals \<Rightarrow> bool" where
  "no_http_exception ext \<longleftrightarrow>
     (\<forall>now t k opts st d. jwt_decode ext now t k opts \<noteq> Inl (HTTPException st d)) \<and>
     (\<forall>x y st d. ec_public_key ext x y \<noteq> Inl (HTTPException st d)) \<and>
     (\<forall>u t st d. signing_key ext u t \<noteq> Inl (HTTPException st d))"

lemma no_http_exceptionD:
  assumes "no_http_exception ext"
  shows "jwt_decode ext now t k opts = Inl e \<Longrightarrow> e \<noteq> HTTPException st d"
    and "ec_public_key ext x y = Inl e \<Longrightarrow> e \<noteq> HTTPException st d"
    and "signing_key ext u t = Inl e \<Longrightarrow> e \<noteq> HTTPException st d"
  using assms by (auto simp: no_http_exception_def)

lemma decode_json_raises:
  "ebind (b64url_decode s) json_loads_bytes = Inl e \<Longrightarrow>
     e \<in> {BinasciiError, ValueError, JSONDecodeError, UnicodeError, OutOfModel}"
  by (auto simp: raises dest!: b64url_decode_raises json_loads_bytes_raises)

lemma check_proof_http:
  assumes ext: "no_http_exception ext"
    and raised: "check_proof ext now request cnf token proof = Inl (HTTPException st d)"
  shows "st = 401"
proof (rule ccontr)
  assume st: "st \<noteq> 401"
  then have no: "check_signature ext now p k \<noteq> Inl (HTTPException st d)"
    "ec_public_key ext x y \<noteq> Inl (HTTPException st d)" for p k x y
    using ext check_signature_raises unfolding no_http_exception_def by metis+
  from raised st no show False
    unfolding check_proof_def
    by (auto simp: ebind_Inl_iff split: list.splits if_splits
        dest: decode_json_raises py_get_raises py_getitem_raises b64url_member_raises check_proof_claims_raises
        dest!: b64url_decode_raises json_loads_bytes_raises)
qed

lemma validate_dpop_401:
  assumes "no_http_exception ext"
    and "validate_dpop ext now request claims token = Inl (HTTPException status detail)"
  shows "status = 401"
  using assms(2)
  by (auto simp: validate_dpop_def Let_def raises not_dpop_bound_def dest!: py_in_raises
      split: if_splits option.splits dest: check_proof_http [OF assms(1)])

lemma bound_claims:
  assumes "map_of claims ''cnf'' = Some (JObj cd)" "map_of cd ''jkt'' = Some v"
  shows "not_dpop_bound (dget claims ''cnf'' JNull) = Inr False"
  using assms by (auto simp: not_dpop_bound_def dict_keys_dom)

lemma malformed_proof_raises:
  assumes "map_of claims ''cnf'' = Some (JObj cd)" "map_of cd ''jkt'' = Some v"
    and "req_header request ''DPoP'' = Some dp" "dp \<noteq> []" "count_list dp (CHR ''.'') \<noteq> 2"
  shows "validate_dpop ext now request claims token = Inl ValueError"
proof -
  have "length (str_split (CHR ''.'') dp) \<noteq> 3" using assms(5) by (simp add: length_str_split)
  then have "check_proof ext now request (JObj cd) token dp = Inl ValueError"
    by (auto simp: check_proof_def split: list.splits)
  with assms bound_claims [OF assms(1,2)] show ?thesis by (simp add: validate_dpop_def)
qed

section \<open>Time\<close>

text \<open>
  What PyJWT does with a registered claim that is a time: \<open>int(claim)\<close> must not fail and must not be later
  than its clock.
\<close>

definition not_before :: "rat \<Rightarrow> dict \<Rightarrow> string \<Rightarrow> bool" where
  "not_before now claims k =
     (case map_of claims k of
        None \<Rightarrow> True
      | Some v \<Rightarrow> (case py_int v of Inl e \<Rightarrow> False | Inr i \<Rightarrow> of_int i \<le> now))"

definition token_payload :: "string \<Rightarrow> exn + json" where
  "token_payload token =
     (case str_split (CHR ''.'') token of
        [h, p, s] \<Rightarrow> ebind (b64url_decode p) json_loads_bytes
      | _ \<Rightarrow> Inl ValueError)"


text \<open>The \<open>iat\<close> of a proof, and the time a proof is accepted at.\<close>

definition proof_iat :: "string \<Rightarrow> json" where
  "proof_iat proof =
     (case str_split (CHR ''.'') proof of
        [h, p, s] \<Rightarrow> (case ebind (b64url_decode p) json_loads_bytes of
            Inr (JObj payload) \<Rightarrow> dget payload ''iat'' (JInt 0) | _ \<Rightarrow> JNull)
      | _ \<Rightarrow> JNull)"

lemma proof_accepted_time:
  "proof_accepted ext now request jkt token proof \<Longrightarrow> iat_outside_window now (proof_iat proof) = Inr False"
  by (auto simp: proof_accepted_def proof_iat_def)


lemma in_window_cases:
  "iat_outside_window now v = Inr False \<longleftrightarrow>
     v = JFloat NaN \<or> (\<exists>q. num_val v = Some q \<and> \<bar>now - q\<bar> \<le> 60 \<and> (\<forall>i. v = JInt i \<longrightarrow> \<bar>i\<bar> < 2 ^ 1024 - 2 ^ 970))"
  by (induction now v rule: iat_outside_window.induct)
    (auto simp: IAT_TOLERANCE_SECONDS_def not_le not_less split: if_splits)

lemma validate_dpop_accepts:
  "validate_dpop ext now request claims token = Inr () \<longleftrightarrow>
     not_dpop_bound (dget claims ''cnf'' JNull) = Inr True \<or>
     (\<exists>cd jkt proof. map_of claims ''cnf'' = Some (JObj cd) \<and> map_of cd ''jkt'' = Some (JStr jkt) \<and>
        req_header request ''DPoP'' = Some proof \<and> proof \<noteq> [] \<and>
        proof_accepted ext now request jkt token proof)" (is "?l \<longleftrightarrow> ?n \<or> ?r")
proof (cases "\<exists>cd v. map_of claims ''cnf'' = Some (JObj cd) \<and> map_of cd ''jkt'' = Some v")
  case True
  then obtain cd v where c: "map_of claims ''cnf'' = Some (JObj cd)" "map_of cd ''jkt'' = Some v" by blast
  then have "\<not> ?n" by (auto simp: not_dpop_bound_def dict_keys_dom split: if_splits)
  with c show ?thesis by (auto simp: validate_dpop_bound_iff)
next
  case False
  then have "\<not> ?r" by blast
  moreover have "?l \<longleftrightarrow> ?n"
  proof
    assume l: ?l
    show ?n
    proof (rule ccontr)
      assume n: "\<not> ?n"
      with l obtain dp where
        p: "check_proof ext now request (dget claims ''cnf'' JNull) token dp = Inr ()"
          "not_dpop_bound (dget claims ''cnf'' JNull) = Inr False"
        by (auto simp: validate_dpop_def Let_def raises split: if_splits option.splits)
      from p(1) obtain cd jkt where "dget claims ''cnf'' JNull = JObj cd" "map_of cd ''jkt'' = Some (JStr jkt)"
        by (auto simp: check_proof_def raises split: list.splits if_splits)
      with False show False by (auto simp: dget_def split: option.splits)
    qed
  qed (simp add: validate_dpop_def)
  ultimately show ?thesis by blast
qed

section \<open>The specification of the validation\<close>

text \<open>A token that is bound to no key.\<close>

definition unbound :: "dict \<Rightarrow> bool" where
  "unbound claims \<longleftrightarrow>
     (case map_of claims ''cnf'' of
        None \<Rightarrow> True
      | Some (JObj cd) \<Rightarrow> map_of cd ''jkt'' = None
      | Some (JArr vs) \<Rightarrow> JStr ''jkt'' \<notin> set vs
      | Some (JStr s) \<Rightarrow> \<not> sublist ''jkt'' s
      | Some v \<Rightarrow> v \<in> {JNull, JBool False, JInt 0, JFloat (Finite 0)})"

text \<open>The text whose hash is the RFC 7638 thumbprint of an elliptic-curve key.\<close>

definition key_text :: "(rat \<Rightarrow> string) \<Rightarrow> dict \<Rightarrow> string" where
  "key_text frepr d = dumps_compact frepr
     (JObj (map (\<lambda>k. (k, the (map_of d k))) [''crv'', ''kty'', ''x'', ''y'']))"

definition key_members :: "dict \<Rightarrow> bool" where
  "key_members d \<longleftrightarrow> {''crv'', ''kty'', ''x'', ''y''} \<subseteq> dom (map_of d)"

lemma jwk_thumbprint_Inr_iff:
  "jwk_thumbprint ext (JObj d) = Inr t \<longleftrightarrow>
     key_members d \<and> t = b64url_encode (sha256 (utf8_encode (key_text (float_repr ext) d)))"
  by (auto simp: jwk_thumbprint_def key_members_def key_text_def raises dgetitem_Inr_iff Let_def)

lemma key_text_inject:
  assumes "plain_json (JObj a)" "plain_json (JObj b)" "key_members a" "key_members b"
    and "key_text frepr a = key_text frepr b" "k \<in> {''crv'', ''kty'', ''x'', ''y''}"
  shows "map_of a k = map_of b k"
proof -
  let ?canon = "\<lambda>d. JObj (map (\<lambda>k. (k, the (map_of d k))) [''crv'', ''kty'', ''x'', ''y''])"
  have plain: "plain_json (?canon d)" if "plain_json (JObj d)" "key_members d" for d
  proof -
    have "plain_json (the (map_of d k))" if k: "k \<in> {''crv'', ''kty'', ''x'', ''y''}" for k
    proof -
      obtain v where "map_of d k = Some v" using \<open>key_members d\<close> k unfolding key_members_def by blast
      then show ?thesis using plain_json_member [OF \<open>plain_json (JObj d)\<close>] by simp
    qed
    then show ?thesis by (simp add: plain_json_def)
  qed
  have "?canon a = ?canon b"
    using assms(5) unfolding key_text_def json_compact.enc_inject [OF plain [OF assms(1,3)] plain [OF assms(2,4)]] .
  then have "the (map_of a k) = the (map_of b k)" using assms(6) by auto
  moreover obtain v w where "map_of a k = Some v" "map_of b k = Some w"
    using assms(3,4,6) unfolding key_members_def by blast
  ultimately show ?thesis by simp
qed

definition recent :: "rat \<Rightarrow> json \<Rightarrow> bool" where
  "recent now iat \<longleftrightarrow>
     (case iat of
        JInt i \<Rightarrow> \<bar>i\<bar> < 2 ^ 1024 - 2 ^ 970 \<and> now - 60 \<le> of_int i \<and> of_int i \<le> now + 60
      | JBool b \<Rightarrow> now - 60 \<le> (if b then 1 else 0) \<and> (if b then 1 else 0) \<le> now + 60
      | JFloat (Finite q) \<Rightarrow> now - 60 \<le> q \<and> q \<le> now + 60
      | JFloat NaN \<Rightarrow> True
      | _ \<Rightarrow> False)"

lemma recent_iff: "iat_outside_window now iat = Inr False \<longleftrightarrow> recent now iat"
  by (cases "(now, iat)" rule: iat_outside_window.cases)
    (auto simp: recent_def IAT_TOLERANCE_SECONDS_def abs_le_iff not_less algebra_simps)

definition valid_proof ::
  "'k externals \<Rightarrow> rat \<Rightarrow> request \<Rightarrow> string \<Rightarrow> string \<Rightarrow> string \<Rightarrow> bool" where
  "valid_proof ext now request jkt token proof \<longleftrightarrow>
     (\<exists>h p sig header payload jwk x y xb yb key signed.
        proof = h @ CHR ''.'' # p @ CHR ''.'' # sig \<and> count_list proof (CHR ''.'') = 2 \<and>
        ebind (b64url_decode h) json_loads_bytes = Inr (JObj header) \<and>
        ebind (b64url_decode p) json_loads_bytes = Inr (JObj payload) \<and>
        map_of header ''typ'' = Some (JStr ''dpop+jwt'') \<and>
        map_of header ''jwk'' = Some (JObj jwk) \<and>
        map_of jwk ''x'' = Some (JStr x) \<and> b64url_decode x = Inr xb \<and>
        map_of jwk ''y'' = Some (JStr y) \<and> b64url_decode y = Inr yb \<and>
        ec_public_key ext (int_of_bytes xb) (int_of_bytes yb) = Inr key \<and>
        jwt_decode ext now proof key
          \<lparr>opt_algorithms = [''ES256''], opt_audience = None, opt_issuer = None,
           opt_checks = [(''verify_exp'', False)]\<rparr> = Inr signed \<and>
        key_members jwk \<and> jkt = b64url_encode (sha256 (utf8_encode (key_text (float_repr ext) jwk))) \<and>
        map_of payload ''htm'' = Some (JStr (req_method request)) \<and>
        map_of payload ''htu'' = Some (JStr (takeWhile (\<lambda>c. c \<noteq> CHR ''?'') (req_url request))) \<and>
        recent now (case map_of payload ''iat'' of None \<Rightarrow> JInt 0 | Some v \<Rightarrow> v) \<and>
        map_of payload ''ath'' = Some (JStr (b64url_encode (sha256 (utf8_encode token)))))"

lemma str_split_three:
  "str_split c s = [h, p, sig] \<longleftrightarrow> s = h @ c # p @ c # sig \<and> count_list s c = 2"
proof
  assume l: "str_split c s = [h, p, sig]"
  from concat_str_split [of c s] l have "s @ [c] = (h @ c # p @ c # sig) @ [c]" by simp
  then have "s = h @ c # p @ c # sig" by simp
  moreover have "count_list s c = 2" using l length_str_split [of c s] by simp
  ultimately show "s = h @ c # p @ c # sig \<and> count_list s c = 2" by blast
next
  assume r: "s = h @ c # p @ c # sig \<and> count_list s c = 2"
  then have "count_list h c = 0" "count_list p c = 0" "count_list sig c = 0" by auto
  then have "c \<notin> set h" "c \<notin> set p" "c \<notin> set sig" by (simp_all add: count_list_0_iff)
  with r show "str_split c s = [h, p, sig]" by (simp add: str_split_append str_split_single)
qed

lemma proof_accepted_iff: "proof_accepted ext now request jkt token proof \<longleftrightarrow> valid_proof ext now request jkt token proof"
  unfolding proof_accepted_def valid_proof_def str_split_three recent_iff jwk_thumbprint_Inr_iff
    proof_options_def base64url_sha256_def dget_def
  by (intro ex_cong1) (simp add: conj_ac)

lemma unbound_iff: "not_dpop_bound (dget claims ''cnf'' JNull) = Inr True \<longleftrightarrow> unbound claims"
proof (cases "map_of claims ''cnf''")
  case (Some v)
  show ?thesis
  proof (cases v)
    case (JFloat f)
    with Some show ?thesis by (cases f) (auto simp: not_dpop_bound_def unbound_def)
  qed (use Some in \<open>auto simp: not_dpop_bound_def unbound_def dict_keys_dom raises\<close>)
qed (simp add: not_dpop_bound_def unbound_def dget_def)

lemma validate_dpop_spec:
  "validate_dpop ext now request claims token = Inr () \<longleftrightarrow>
     unbound claims \<or>
     (\<exists>cd jkt proof. map_of claims ''cnf'' = Some (JObj cd) \<and> map_of cd ''jkt'' = Some (JStr jkt) \<and>
        req_header request ''DPoP'' = Some proof \<and> proof \<noteq> [] \<and>
        valid_proof ext now request jkt token proof)"
  unfolding validate_dpop_accepts unbound_iff proof_accepted_iff ..

section \<open>A well-formed proof\<close>

text \<open>The compact serialization of a signed token: header, payload, signature.\<close>

definition jws_compact :: "(rat \<Rightarrow> string) \<Rightarrow> json \<Rightarrow> json \<Rightarrow> string \<Rightarrow> string" where
  "jws_compact frepr h p sig = jws_segment frepr h @ CHR ''.'' # jws_segment frepr p @ CHR ''.'' # sig"

lemma jws_compact_split: "CHR ''.'' \<notin> set sig \<Longrightarrow>
    str_split (CHR ''.'') (jws_compact frepr h p sig) = [jws_segment frepr h, jws_segment frepr p, sig]"
  by (simp add: jws_compact_def jws_segment_def str_split_append str_split_single b64url_no_dot)

lemma jws_compact_not_Nil [simp]: "jws_compact frepr h p sig \<noteq> []"
  by (simp add: jws_compact_def)

lemma token_payload_compact:
  "CHR ''.'' \<notin> set sig \<Longrightarrow> plain_object v \<Longrightarrow> token_payload (jws_compact frepr h v sig) = Inr v"
  by (simp add: token_payload_def jws_compact_split jws_segment_reads)

lemma proof_acceptedI:
  assumes "str_split (CHR ''.'') dp = [h, p, sig]"
    and "ebind (b64url_decode h) json_loads_bytes = Inr (JObj header)"
    and "ebind (b64url_decode p) json_loads_bytes = Inr (JObj payload)"
    and "map_of header ''typ'' = Some (JStr ''dpop+jwt'')" "map_of header ''jwk'' = Some (JObj jwk)"
    and "map_of jwk ''x'' = Some (JStr x)" "b64url_decode x = Inr xb"
    and "map_of jwk ''y'' = Some (JStr y)" "b64url_decode y = Inr yb"
    and "ec_public_key ext (int_of_bytes xb) (int_of_bytes yb) = Inr key"
    and "jwt_decode ext now dp key proof_options = Inr decoded"
    and "jwk_thumbprint ext (JObj jwk) = Inr jkt"
    and "map_of payload ''htm'' = Some (JStr (req_method request))"
    and "map_of payload ''htu'' = Some (JStr (takeWhile (\<lambda>c. c \<noteq> CHR ''?'') (req_url request)))"
    and "iat_outside_window now (dget payload ''iat'' (JInt 0)) = Inr False"
    and "map_of payload ''ath'' = Some (JStr (base64url_sha256 token))"
  shows "proof_accepted ext now request jkt token dp"
  unfolding proof_accepted_def by (intro exI conjI) (rule assms)+

section \<open>A concrete run\<close>

text \<open>
  Inputs on which the properties below are applied. The library of these runs takes every
  signature for valid, reads the payload of a token and checks its \<open>iat\<close>.
\<close>

definition sample_externals :: "unit externals" where
  "sample_externals =
     \<lparr>signing_key = (\<lambda>url token. Inr ()),
      jwt_decode = (\<lambda>now token key opts. case token_payload token of
          Inr (JObj d) \<Rightarrow>
            if enabled opts ''verify_iat'' \<and> \<not> not_before now d ''iat''
            then Inl (PyJWTError ''The token is not yet valid (iat)'') else Inr d
        | _ \<Rightarrow> Inl (PyJWTError ''Invalid payload'')),
      ec_public_key = (\<lambda>x y. Inr ()),
      float_repr = (\<lambda>q. [])\<rparr>"

lemma sample_decode:
  "CHR ''.'' \<notin> set sig \<Longrightarrow> plain_object (JObj d) \<Longrightarrow> not_before now d ''iat'' \<Longrightarrow>
     jwt_decode sample_externals now (jws_compact frepr h (JObj d) sig) key opts = Inr d"
  by (simp add: sample_externals_def token_payload_compact)

definition sample_jwk :: dict where
  "sample_jwk = [(''kty'', JStr ''EC''), (''crv'', JStr ''P-256''), (''x'', JStr ''AQ''), (''y'', JStr ''Ag'')]"

definition sample_jkt :: string where
  "sample_jkt = b64url_encode (sha256 (utf8_encode (dumps_compact (\<lambda>q. [])
     (JObj [(''crv'', JStr ''P-256''), (''kty'', JStr ''EC''), (''x'', JStr ''AQ''), (''y'', JStr ''Ag'')]))))"

definition sample_proof :: "json \<Rightarrow> string \<Rightarrow> string" where
  "sample_proof iat token = jws_compact (\<lambda>q. [])
     (JObj [(''typ'', JStr ''dpop+jwt''), (''alg'', JStr ''ES256''), (''jwk'', JObj sample_jwk)])
     (JObj [(''htm'', JStr ''GET''), (''htu'', JStr ''http://e/employees/bob''), (''iat'', iat),
            (''ath'', JStr (base64url_sha256 token))]) ''c2ln''"

definition sample_request :: "string \<Rightarrow> string \<Rightarrow> request" where
  "sample_request authorization proof =
     \<lparr>req_method = ''GET'', req_url = ''http://e/employees/bob?full=1'', req_path = ''/employees/bob'',
      req_header = [''Authorization'' \<mapsto> authorization, ''DPoP'' \<mapsto> proof]\<rparr>"

definition sample_claims :: dict where
  "sample_claims =
     [(''sub'', JStr ''u1''), (''jti'', JStr ''t1''), (''preferred_username'', JStr ''bob''),
      (''cnf'', JObj [(''jkt'', JStr sample_jkt)])]"

lemma sample_no_http: "no_http_exception sample_externals"
  by (auto simp: no_http_exception_def sample_externals_def split: sum.splits json.splits if_splits)


lemma sample_cnf:
  "map_of sample_claims ''cnf'' = Some (JObj [(''jkt'', JStr sample_jkt)])"
  "map_of [(''jkt'', JStr sample_jkt)] ''jkt'' = Some (JStr sample_jkt)"
  by (simp_all add: sample_claims_def)

lemma sample_accepted:
  assumes "iat_outside_window now iat = Inr False" "float_free iat" "wf_json iat" "req_method r = ''GET''"
    and "case py_int iat of Inl e \<Rightarrow> False | Inr i \<Rightarrow> of_int i \<le> now"
    and "takeWhile (\<lambda>c. c \<noteq> CHR ''?'') (req_url r) = ''http://e/employees/bob''"
  shows "proof_accepted sample_externals now r sample_jkt token (sample_proof iat token)"
proof -
  have xy: "b64url_decode ''AQ'' = Inr [1]" "b64url_decode ''Ag'' = Inr [2]" by code_simp+
  have obj: "plain_object (JObj [(''typ'', JStr ''dpop+jwt''), (''alg'', JStr ''ES256''), (''jwk'', JObj sample_jwk)])"
    "plain_object (JObj [(''htm'', JStr ''GET''), (''htu'', JStr ''http://e/employees/bob''), (''iat'', iat),
      (''ath'', JStr (base64url_sha256 token))])"
    using assms by (simp_all add: plain_object_def plain_json_def sample_jwk_def)
  have dot: "CHR ''.'' \<notin> set ''c2ln''" by simp
  show ?thesis
    unfolding sample_proof_def
  proof (rule proof_acceptedI [OF jws_compact_split [OF dot] jws_segment_reads [OF obj(1)] jws_segment_reads [OF obj(2)],
        where jwk = sample_jwk and x = "''AQ''" and y = "''Ag''" and xb = "[1]" and yb = "[2]" and key = "()"])
    show "jwk_thumbprint sample_externals (JObj sample_jwk) = Inr sample_jkt"
      by (simp add: jwk_thumbprint_def dgetitem_def sample_jkt_def sample_jwk_def sample_externals_def Let_def)
  qed (simp_all add: xy assms sample_jwk_def sample_externals_def jws_compact_split jws_segment_reads [OF obj(2)]
      token_payload_def not_before_def)
qed

lemma sample_validated:
  assumes "iat_outside_window now iat = Inr False" "float_free iat" "wf_json iat" "req_method r = ''GET''"
    and "case py_int iat of Inl e \<Rightarrow> False | Inr i \<Rightarrow> of_int i \<le> now"
    and "takeWhile (\<lambda>c. c \<noteq> CHR ''?'') (req_url r) = ''http://e/employees/bob''"
    and "req_header r ''DPoP'' = Some (sample_proof iat token)"
  shows "validate_dpop sample_externals now r sample_claims token = Inr ()"
proof -
  have "sample_proof iat token \<noteq> []" by (simp add: sample_proof_def)
  with sample_accepted [OF assms(1-6)] assms(7) sample_cnf show ?thesis
    unfolding validate_dpop_accepts by blast
qed

lemma sample_request_simps [simp]:
  "req_method (sample_request auth dp) = ''GET''"
  "takeWhile (\<lambda>c. c \<noteq> CHR ''?'') (req_url (sample_request auth dp)) = ''http://e/employees/bob''"
  "req_header (sample_request auth dp) ''DPoP'' = Some dp"
  "req_header (sample_request auth dp) ''Authorization'' = Some auth"
  "req_path (sample_request auth dp) = ''/employees/bob''"
  by (simp_all add: sample_request_def)

section \<open>Properties\<close>

text \<open>
  C7: \<open>validate_dpop\<close> returns exactly when the claims have no \<open>cnf.jkt\<close> (\<open>unbound\<close>: no \<open>cnf\<close>, a false one,
  or one without \<open>jkt\<close>), or the request carries a proof whose header and payload decode, whose type is
  \<open>dpop+jwt\<close>, which PyJWT verifies with ES256 under the key of its header, whose key has the RFC 7638
  thumbprint \<open>cnf.jkt\<close>, whose method and URL without query are those of the request, whose \<open>iat\<close> is within
  60 seconds of the clock (an int below the double range), and whose \<open>ath\<close> is the hash of the token.
\<close>

theorem validate_dpop_returns_iff:
  "validate_dpop ext now request claims token = Inr () \<longleftrightarrow>
     unbound claims \<or>
     (\<exists>cd jkt proof. map_of claims ''cnf'' = Some (JObj cd) \<and> map_of cd ''jkt'' = Some (JStr jkt) \<and>
        req_header request ''DPoP'' = Some proof \<and> proof \<noteq> [] \<and>
        valid_proof ext now request jkt token proof)"
  by (rule validate_dpop_spec)

lemma bound_accepts:
  assumes "map_of claims ''cnf'' = Some (JObj cd)" "map_of cd ''jkt'' = Some v"
    and "validate_dpop ext now request claims token = Inr ()"
  obtains dp jkt where "req_header request ''DPoP'' = Some dp" "dp \<noteq> []" "v = JStr jkt"
    "proof_accepted ext now request jkt token dp"
  using assms by (auto simp: validate_dpop_bound_iff)

lemma in_window_number:
  "iat_outside_window now v = Inr False \<Longrightarrow> v \<noteq> JFloat NaN \<Longrightarrow> \<exists>q. num_val v = Some q \<and> \<bar>now - q\<bar> \<le> 60"
  by (auto simp: in_window_cases)

text \<open>
  C15: One proof passes for one method, one URL up to its query and one access token only (tokens
  are told apart by their SHA-256 digests): when two requests with the same DPoP header are both
  accepted for bound tokens, they agree on all three.
\<close>

theorem proof_binds_request:
  assumes "map_of claims ''cnf'' = Some (JObj cd)" "map_of cd ''jkt'' = Some v"
    and "map_of claims' ''cnf'' = Some (JObj cd')" "map_of cd' ''jkt'' = Some v'"
    and "req_header request ''DPoP'' = req_header request' ''DPoP''"
    and "validate_dpop ext now request claims token = Inr ()"
    and "validate_dpop ext now' request' claims' token' = Inr ()"
  shows "req_method request = req_method request' \<and>
    takeWhile (\<lambda>c. c \<noteq> CHR ''?'') (req_url request) = takeWhile (\<lambda>c. c \<noteq> CHR ''?'') (req_url request') \<and>
    sha256 (utf8_encode token) = sha256 (utf8_encode token') \<and> v = v'"
proof -
  obtain dp jkt jkt' where
    "proof_accepted ext now request jkt token dp" "proof_accepted ext now' request' jkt' token' dp"
    "v = JStr jkt" "v' = JStr jkt'"
    using bound_accepts [OF assms(1,2,6)] bound_accepts [OF assms(3,4,7)] assms(5) by (metis option.inject)
  then show ?thesis
    unfolding proof_accepted_def base64url_sha256_def
    by (elim exE conjE) (auto simp: b64url.enc_inject)
qed

theorem proof_binds_request_witness:
  "let r = sample_request ''DPoP a.b.c'' (sample_proof (JInt 1000) ''a.b.c'');
       r' = r\<lparr>req_url := ''http://e/employees/bob?x=2''\<rparr>
   in takeWhile (\<lambda>c. c \<noteq> CHR ''?'') (req_url r) = takeWhile (\<lambda>c. c \<noteq> CHR ''?'') (req_url r')"
proof -
  let ?r = "sample_request ''DPoP a.b.c'' (sample_proof (JInt 1000) ''a.b.c'')"
  let ?r' = "?r\<lparr>req_url := ''http://e/employees/bob?x=2''\<rparr>"
  have v: "validate_dpop sample_externals 1010 ?r sample_claims ''a.b.c'' = Inr ()"
    "validate_dpop sample_externals 1020 ?r' sample_claims ''a.b.c'' = Inr ()"
    by (rule sample_validated; simp add: IAT_TOLERANCE_SECONDS_def)+
  have "req_header ?r ''DPoP'' = req_header ?r' ''DPoP''" by simp
  from proof_binds_request [OF sample_cnf sample_cnf this v] show ?thesis by (simp add: Let_def)
qed

text \<open>
  C16: Without a replay cache a proof can be used again, but not for long: if the same request is
  accepted at two times and the proof's \<open>iat\<close> is not NaN, the times are at most 120 seconds apart
  and each is within 60 seconds of \<open>iat\<close>.
\<close>

theorem proof_replay_window:
  assumes "map_of claims ''cnf'' = Some (JObj cd)" "map_of cd ''jkt'' = Some v"
    and "req_header request ''DPoP'' = Some dp" "proof_iat dp \<noteq> JFloat NaN"
    and "validate_dpop ext now request claims token = Inr ()"
    and "validate_dpop ext now' request claims token = Inr ()"
  shows "\<exists>iat. num_val (proof_iat dp) = Some iat \<and> \<bar>now - iat\<bar> \<le> 60 \<and> \<bar>now' - iat\<bar> \<le> 60 \<and> \<bar>now - now'\<bar> \<le> 120"
proof -
  have "iat_outside_window t (proof_iat dp) = Inr False"
    if "validate_dpop ext t request claims token = Inr ()" for t
    using bound_accepts [OF assms(1,2) that] assms(3) by (auto dest: proof_accepted_time)
  then obtain iat iat' where "num_val (proof_iat dp) = Some iat" "\<bar>now - iat\<bar> \<le> 60"
    "num_val (proof_iat dp) = Some iat'" "\<bar>now' - iat'\<bar> \<le> 60"
    using assms(4-6) in_window_number by metis
  then have iat: "num_val (proof_iat dp) = Some iat" "\<bar>now - iat\<bar> \<le> 60" "\<bar>now' - iat\<bar> \<le> 60" by simp_all
  then have "\<bar>now - now'\<bar> \<le> 120" by linarith
  with iat show ?thesis by blast
qed

lemma proof_iat_sample: "float_free iat \<Longrightarrow> wf_json iat \<Longrightarrow> proof_iat (sample_proof iat token) = iat"
  by (simp add: proof_iat_def sample_proof_def jws_compact_split jws_segment_reads plain_object_def plain_json_def)

theorem proof_replay_window_witness:
  "\<exists>iat. num_val (proof_iat (sample_proof (JInt 1000) ''a.b.c'')) = Some iat \<and>
     \<bar>1010 - iat\<bar> \<le> 60 \<and> \<bar>1020 - iat\<bar> \<le> 60 \<and> \<bar>1010 - 1020 :: rat\<bar> \<le> 120"
proof -
  let ?r = "sample_request ''DPoP a.b.c'' (sample_proof (JInt 1000) ''a.b.c'')"
  have v: "validate_dpop sample_externals 1010 ?r sample_claims ''a.b.c'' = Inr ()"
    "validate_dpop sample_externals 1020 ?r sample_claims ''a.b.c'' = Inr ()"
    by (rule sample_validated; simp add: IAT_TOLERANCE_SECONDS_def)+
  show ?thesis
    by (rule proof_replay_window [OF sample_cnf _ _ v]) (simp_all add: proof_iat_sample)
qed



text \<open>
  C26: The validation answers with no HTTP status but 401: whenever it raises an \<open>HTTPException\<close>,
  given that the libraries it calls raise none, the status is 401.
\<close>

theorem validate_dpop_status_401:
  assumes "no_http_exception ext"
    and "validate_dpop ext now request claims token = Inl (HTTPException status detail)"
  shows "status = 401"
  by (rule validate_dpop_401 [OF assms])

theorem validate_dpop_status_401_witness:
  "\<exists>detail. validate_dpop sample_externals 0
     (sample_request ''DPoP a.b.c'' []) sample_claims ''a.b.c'' = Inl (HTTPException 401 detail)"
proof -
  obtain st d where "validate_dpop sample_externals 0
     (sample_request ''DPoP a.b.c'' []) sample_claims ''a.b.c'' = Inl (HTTPException st d)"
    by (simp add: validate_dpop_def sample_claims_def sample_request_def not_dpop_bound_def)
  then show ?thesis using validate_dpop_status_401 [OF sample_no_http] by blast
qed

text \<open>
  C27: A DPoP header that does not have exactly two dots is not answered with a 401: for a bound
  token the unpacking of \<open>proof.split(".")\<close> raises a \<open>ValueError\<close>, which nothing catches.
\<close>

theorem malformed_proof_raises_value_error:
  assumes "map_of claims ''cnf'' = Some (JObj cd)" "map_of cd ''jkt'' = Some v"
    and "req_header request ''DPoP'' = Some dp" "dp \<noteq> []" "count_list dp (CHR ''.'') \<noteq> 2"
  shows "validate_dpop ext now request claims token = Inl ValueError"
  by (rule malformed_proof_raises [OF assms])

theorem malformed_proof_raises_value_error_witness:
  "validate_dpop sample_externals 0 (sample_request ''DPoP a.b.c'' ''garbage'') sample_claims ''a.b.c'' = Inl ValueError"
  by (rule malformed_proof_raises_value_error [where dp = "''garbage''", OF sample_cnf]) simp_all

text \<open>
  C23: The thumbprint identifies the key: two JWKs (without float members) with the same thumbprint
  have the same \<open>crv\<close>, \<open>kty\<close>, \<open>x\<close> and \<open>y\<close>, unless their own two RFC 7638 texts are different and yet have
  the same SHA-256 digest.
\<close>

theorem thumbprint_identifies_key:
  assumes "jwk_thumbprint ext (JObj a) = Inr t" "jwk_thumbprint ext (JObj b) = Inr t"
    and "plain_json (JObj a)" "plain_json (JObj b)"
  shows "map_of a ''crv'' = map_of b ''crv'' \<and> map_of a ''kty'' = map_of b ''kty'' \<and>
      map_of a ''x'' = map_of b ''x'' \<and> map_of a ''y'' = map_of b ''y'' \<or>
    (key_text (float_repr ext) a \<noteq> key_text (float_repr ext) b \<and>
     sha256 (utf8_encode (key_text (float_repr ext) a)) = sha256 (utf8_encode (key_text (float_repr ext) b)))"
proof (cases "key_text (float_repr ext) a = key_text (float_repr ext) b")
  case True
  then show ?thesis
    using key_text_inject [OF assms(3,4)] assms(1,2) by (simp add: jwk_thumbprint_Inr_iff)
next
  case False
  with assms(1,2) show ?thesis by (simp add: jwk_thumbprint_Inr_iff b64url.enc_inject)
qed

theorem thumbprint_identifies_key_witness:
  "map_of sample_jwk ''x'' = map_of (rev sample_jwk) ''x'' \<or>
    (key_text (\<lambda>q. []) sample_jwk \<noteq> key_text (\<lambda>q. []) (rev sample_jwk) \<and>
     sha256 (utf8_encode (key_text (\<lambda>q. []) sample_jwk)) = sha256 (utf8_encode (key_text (\<lambda>q. []) (rev sample_jwk))))"
proof -
  have "jwk_thumbprint sample_externals (JObj sample_jwk) = Inr sample_jkt"
    "jwk_thumbprint sample_externals (JObj (rev sample_jwk)) = Inr sample_jkt"
    "plain_json (JObj sample_jwk)" "plain_json (JObj (rev sample_jwk))"
    by (simp_all add: jwk_thumbprint_def dgetitem_def sample_jkt_def sample_jwk_def sample_externals_def Let_def
        plain_json_def)
  from thumbprint_identifies_key [OF this] show ?thesis by (auto simp: sample_externals_def)
qed

text \<open>
  The hash of an access token that a proof's \<open>ath\<close> is compared with is 43 characters of the
  URL-safe alphabet, without padding, and decodes to the SHA-256 digest of the token's UTF-8 bytes.
\<close>

theorem access_token_hash_shape:
  "length (base64url_sha256 v) = 43 \<and> set (base64url_sha256 v) \<subseteq> set b64_alphabet \<and>
     b64url_decode (base64url_sha256 v) = Inr (sha256 (utf8_encode v)) \<and> length (sha256 (utf8_encode v)) = 32"
  using base64url_sha256_shape by (simp add: base64url_sha256_def b64url_roundtrip length_sha256)

end
