(* ===== verification/DpopClient.thy ===== *)
theory DpopClient imports Dpop begin

text \<open>
  The other end of \<^verbatim>\<open>employee-service/dpop.py\<close>: \<open>createDPoPProof\<close> of
  \<^verbatim>\<open>frontend/server/utils/dpop.ts\<close>, with which the BFF makes the proofs it sends downstream, and
  the theorem that the service accepts them. The signing library (\<open>jose\<close>) is a parameter.
\<close>

section \<open>The client\<close>

text \<open>
  \<open>sign header payload\<close> is \<open>new SignJWT(payload).setProtectedHeader(header).sign(privateKey)\<close>, \<open>jwk\<close> is
  \<open>exportJWK(publicKey)\<close>, \<open>jti\<close> is \<open>randomUUID()\<close> and \<open>now\<close> is \<open>Date.now() / 1000\<close>. The optional argument
  \<open>accessToken\<close> counts as absent when it is the empty string.
\<close>

definition create_dpop_proof ::
  "(dict \<Rightarrow> dict \<Rightarrow> string) \<Rightarrow> dict \<Rightarrow> string \<Rightarrow> rat \<Rightarrow> string \<Rightarrow> string \<Rightarrow> string option \<Rightarrow> string" where
  "create_dpop_proof sign jwk jti now httpMethod url accessToken =
     (let payload =
        [(''jti'', JStr jti), (''htm'', JStr httpMethod), (''htu'', JStr url), (''iat'', JInt \<lfloor>now\<rfloor>)]
        @ (case accessToken of
             Some token \<Rightarrow> if token = [] then [] else [(''ath'', JStr (base64url_sha256 token))]
           | None \<Rightarrow> [])
      in sign [(''typ'', JStr ''dpop+jwt''), (''alg'', JStr ''ES256''), (''jwk'', JObj jwk)] payload)"

text \<open>
  \<open>callDownstream\<close>: the method, URL and headers it passes to \<open>fetch\<close>; its own two headers replace
  those of \<open>init\<close>.
\<close>

record outgoing =
  out_method :: string
  out_url :: string
  out_headers :: "string \<Rightarrow> string option"

definition call_downstream ::
  "(dict \<Rightarrow> dict \<Rightarrow> string) \<Rightarrow> dict \<Rightarrow> string \<Rightarrow> rat \<Rightarrow> string \<Rightarrow> string \<Rightarrow> string
     \<Rightarrow> (string \<Rightarrow> string option) \<Rightarrow> outgoing" where
  "call_downstream sign jwk jti now httpMethod url accessToken init_headers =
     (let dpopProof = create_dpop_proof sign jwk jti now httpMethod url (Some accessToken)
      in \<lparr>out_method = httpMethod, out_url = url,
          out_headers = init_headers
            (''Authorization'' \<mapsto> ''DPoP '' @ accessToken, ''DPoP'' \<mapsto> dpopProof)\<rparr>)"

section \<open>What the client relies on\<close>

text \<open>
  RFC 7515, 3.1 and 7.1: a signed token is three segments separated by dots, the first two the
  base64url of the UTF-8 text of header and payload.
\<close>

definition compact_serialization :: "(dict \<Rightarrow> dict \<Rightarrow> string) \<Rightarrow> bool" where
  "compact_serialization sign \<longleftrightarrow>
     (\<forall>header payload. plain_json (JObj header) \<and> plain_json (JObj payload) \<longrightarrow>
        (\<exists>h p s. str_split (CHR ''.'') (sign header payload) = [h, p, s] \<and>
           ebind (b64url_decode h) json_loads_bytes = Inr (JObj header) \<and>
           ebind (b64url_decode p) json_loads_bytes = Inr (JObj payload)))"

text \<open>
  What is signed with the private key of \<open>jwk\<close> verifies under its coordinates: \<open>jwt.decode\<close> returns the
  payload of a token signed with ES256 and no critical header, at a time at which the registered claims
  pass the checks that the options of \<^verbatim>\<open>dpop.py\<close> leave on. With no audience and no issuer given these are:
  no \<open>aud\<close>, neither \<open>iat\<close> nor \<open>nbf\<close> later than the clock, \<open>sub\<close> and \<open>jti\<close> strings.
\<close>

definition claims_pass :: "rat \<Rightarrow> dict \<Rightarrow> bool" where
  "claims_pass now payload \<longleftrightarrow>
     map_of payload ''aud'' = None \<and> not_before now payload ''iat'' \<and> not_before now payload ''nbf'' \<and>
     (case map_of payload ''sub'' of None \<Rightarrow> True | Some v \<Rightarrow> is_str v) \<and>
     (case map_of payload ''jti'' of None \<Rightarrow> True | Some v \<Rightarrow> is_str v)"

definition key_pair :: "'k externals \<Rightarrow> (dict \<Rightarrow> dict \<Rightarrow> string) \<Rightarrow> dict \<Rightarrow> bool" where
  "key_pair ext sign jwk \<longleftrightarrow>
     (\<exists>x xb y yb key. map_of jwk ''x'' = Some (JStr x) \<and> b64url_decode x = Inr xb \<and>
        map_of jwk ''y'' = Some (JStr y) \<and> b64url_decode y = Inr yb \<and>
        ec_public_key ext (int_of_bytes xb) (int_of_bytes yb) = Inr key \<and>
        (\<forall>now header payload. plain_json (JObj header) \<and> plain_json (JObj payload) \<and>
           map_of header ''alg'' = Some (JStr ''ES256'') \<and> map_of header ''crit'' = None \<and>
           claims_pass now payload \<longrightarrow>
           jwt_decode ext now (sign header payload) key
             \<lparr>opt_algorithms = [''ES256''], opt_audience = None, opt_issuer = None,
              opt_checks = [(''verify_exp'', False)]\<rparr> = Inr payload))"

lemma jws_compact_serializes: "CHR ''.'' \<notin> set sig \<Longrightarrow>
    compact_serialization (\<lambda>h p. jws_compact frepr (JObj h) (JObj p) sig)"
  by (simp add: compact_serialization_def jws_compact_split jws_segment_reads plain_object_def)

lemma int_window: "\<bar>now - of_int i\<bar> \<le> 60 \<Longrightarrow> \<bar>i\<bar> < 2 ^ 1024 - 2 ^ 970 \<Longrightarrow> iat_outside_window now (JInt i) = Inr False"
  by (simp add: IAT_TOLERANCE_SECONDS_def)

lemma client_proof_ok:
  assumes "compact_serialization sign" "key_pair ext sign jwk" "plain_json (JObj jwk)"
    and "jwk_thumbprint ext (JObj jwk) = Inr jkt"
    and "map_of claims ''cnf'' = Some (JObj cd)" "map_of cd ''jkt'' = Some (JStr jkt)"
    and "CHR ''?'' \<notin> set url" "req_url request = url @ query" "query = [] \<or> hd query = CHR ''?''"
    and "token \<noteq> []"
    and "req_header request ''DPoP'' =
      Some (create_dpop_proof sign jwk jti sent (req_method request) url (Some token))"
    and "of_int \<lfloor>sent\<rfloor> \<le> now" "now \<le> of_int \<lfloor>sent\<rfloor> + 60" "\<bar>\<lfloor>sent\<rfloor>\<bar> < 2 ^ 1023"
  shows "validate_dpop ext now request claims token = Inr ()"
proof -
  let ?h = "[(''typ'', JStr ''dpop+jwt''), (''alg'', JStr ''ES256''), (''jwk'', JObj jwk)]"
  let ?p = "[(''jti'', JStr jti), (''htm'', JStr (req_method request)), (''htu'', JStr url),
    (''iat'', JInt \<lfloor>sent\<rfloor>), (''ath'', JStr (base64url_sha256 token))]"
  have made: "create_dpop_proof sign jwk jti sent (req_method request) url (Some token) = sign ?h ?p"
    using assms(10) by (simp add: create_dpop_proof_def)
  have plain: "plain_json (JObj ?h)" "plain_json (JObj ?p)"
    using assms(3) by (simp_all add: plain_json_def)
  then obtain h p s where parts: "str_split (CHR ''.'') (sign ?h ?p) = [h, p, s]"
    "ebind (b64url_decode h) json_loads_bytes = Inr (JObj ?h)"
    "ebind (b64url_decode p) json_loads_bytes = Inr (JObj ?p)"
    using assms(1) unfolding compact_serialization_def by blast
  have url: "takeWhile (\<lambda>c. c \<noteq> CHR ''?'') (req_url request) = url"
    using assms(7,8,9) by (auto intro!: takeWhile_prefix_id)
  have iat: "iat_outside_window now (dget ?p ''iat'' (JInt 0)) = Inr False"
    using assms(12-14) int_window [of now "\<lfloor>sent\<rfloor>"] by simp
  have "sign ?h ?p \<noteq> []" using parts(1) by (metis list.inject list.distinct(1) str_split.simps(1))
  moreover obtain x xb y yb key where key: "map_of jwk ''x'' = Some (JStr x)" "b64url_decode x = Inr xb"
    "map_of jwk ''y'' = Some (JStr y)" "b64url_decode y = Inr yb"
    "ec_public_key ext (int_of_bytes xb) (int_of_bytes yb) = Inr key"
    "jwt_decode ext now (sign ?h ?p) key proof_options = Inr ?p"
  proof -
    have "claims_pass now ?p" "map_of ?h ''alg'' = Some (JStr ''ES256'')" "map_of ?h ''crit'' = None"
      using assms(12) by (simp_all add: claims_pass_def not_before_def)
    then show ?thesis
      using that assms(2) plain unfolding key_pair_def proof_options_def by blast
  qed
  have "proof_accepted ext now request jkt token (sign ?h ?p)"
    by (rule proof_acceptedI [OF parts _ _ key assms(4) _ _ iat]) (simp_all add: url)
  ultimately show ?thesis
    using assms(5,6,11) made by (auto simp: validate_dpop_accepts)
qed

section \<open>Properties\<close>

text \<open>
  C14: A proof the frontend makes is accepted: for an access token bound to the frontend's key, a
  request with the proof's method, to the proof's URL with or without a query, at most 60 seconds
  after the proof's \<open>iat\<close> and not before it by the service's clock, passes \<open>validate_dpop\<close>.
\<close>

theorem client_proof_accepted:
  assumes "compact_serialization sign" "key_pair ext sign jwk" "plain_json (JObj jwk)"
    and "jwk_thumbprint ext (JObj jwk) = Inr jkt"
    and "map_of claims ''cnf'' = Some (JObj cd)" "map_of cd ''jkt'' = Some (JStr jkt)"
    and "CHR ''?'' \<notin> set url" "req_url request = url @ query" "query = [] \<or> hd query = CHR ''?''"
    and "token \<noteq> []"
    and "req_header request ''DPoP'' =
      Some (create_dpop_proof sign jwk jti sent (req_method request) url (Some token))"
    and "of_int \<lfloor>sent\<rfloor> \<le> now" "now \<le> of_int \<lfloor>sent\<rfloor> + 60" "\<bar>\<lfloor>sent\<rfloor>\<bar> < 2 ^ 1023"
  shows "validate_dpop ext now request claims token = Inr ()"
  by (rule client_proof_ok [OF assms])

text \<open>A client of the sample library.\<close>

definition sample_sign :: "dict \<Rightarrow> dict \<Rightarrow> string" where
  "sample_sign h p = jws_compact (\<lambda>q. []) (JObj h) (JObj p) ''c2ln''"

lemma sample_client:
  "compact_serialization sample_sign" "key_pair sample_externals sample_sign sample_jwk"
  "plain_json (JObj sample_jwk)" "jwk_thumbprint sample_externals (JObj sample_jwk) = Inr sample_jkt"
proof -
  have sig: "CHR ''.'' \<notin> set ''c2ln''" by simp
  then show "compact_serialization sample_sign"
    unfolding sample_sign_def by (rule jws_compact_serializes)
  have "b64url_decode ''AQ'' = Inr [1]" "b64url_decode ''Ag'' = Inr [2]" by code_simp+
  then show "key_pair sample_externals sample_sign sample_jwk"
    using sig by (simp add: key_pair_def sample_jwk_def sample_sign_def sample_decode claims_pass_def
        plain_object_def) (simp add: sample_externals_def)
  show "plain_json (JObj sample_jwk)" "jwk_thumbprint sample_externals (JObj sample_jwk) = Inr sample_jkt"
    by (simp_all add: jwk_thumbprint_def dgetitem_def sample_jkt_def sample_jwk_def sample_externals_def Let_def
        plain_json_def)
qed

theorem client_proof_accepted_witness:
  "validate_dpop sample_externals 1030
     (sample_request ''DPoP a.b.c'' (create_dpop_proof sample_sign sample_jwk ''j'' 1000 ''GET''
        ''http://e/employees/bob'' (Some ''a.b.c''))) sample_claims ''a.b.c'' = Inr ()"
  by (rule client_proof_accepted [OF sample_client sample_cnf, where url = "''http://e/employees/bob''"
        and sent = 1000 and query = "''?full=1''"]) (simp_all add: sample_request_def)

end
