(* ===== verification/Auth.thy ===== *)
theory Auth imports Dpop begin

text \<open>
  \<^verbatim>\<open>employee-service/auth.py\<close>: the dependency that authenticates a request (bearer token, then the
  DPoP proof when the token is bound to a key) and records the caller's identity on
  \<open>request.state\<close>, and the role test. The interface to the endpoints is a locale: an
  authenticator changes the request state only when it succeeds.
\<close>

section \<open>State and operations\<close>

definition AUDIENCE :: string where
  "AUDIENCE = ''employee-service''"

text \<open>\<open>AuthContext\<close>: the JWKS client is known by its URL.\<close>

record auth_context =
  jwk_client :: string
  issuer :: string

definition AuthContext :: "string \<Rightarrow> string \<Rightarrow> auth_context" where
  "AuthContext jwks_url iss = \<lparr>jwk_client = jwks_url, issuer = iss\<rparr>"

definition verify_options :: "auth_context \<Rightarrow> jwt_options" where
  "verify_options self =
     \<lparr>opt_algorithms = [''RS256''], opt_audience = Some AUDIENCE, opt_issuer = Some (issuer self),
      opt_checks = []\<rparr>"

definition verify :: "'k externals \<Rightarrow> rat \<Rightarrow> auth_context \<Rightarrow> string \<Rightarrow> exn + dict" where
  "verify ext now self token =
     ebind (signing_key ext (jwk_client self) token)
       (\<lambda>key. jwt_decode ext now token key (verify_options self))"

text \<open>\<open>request.state\<close>: the two attributes are absent until they are set.\<close>

record request_state =
  st_sub :: "json option"
  st_jti :: "json option"

definition fresh_state :: request_state where
  "fresh_state = \<lparr>st_sub = None, st_jti = None\<rparr>"

definition record_identity :: "dict \<Rightarrow> request_state \<Rightarrow> request_state" where
  "record_identity claims st =
     st\<lparr>st_sub := Some (dget claims ''sub'' (JStr ''-'')), st_jti := Some (dget claims ''jti'' (JStr ''-''))\<rparr>"

definition get_claims ::
  "'k externals \<Rightarrow> rat \<Rightarrow> auth_context \<Rightarrow> request \<Rightarrow> request_state \<Rightarrow> request_state \<times> (exn + dict)" where
  "get_claims ext now ctx request st =
     (let auth_header = (case req_header request ''Authorization'' of None \<Rightarrow> [] | Some h \<Rightarrow> h);
          (scheme, _, token) = str_partition (CHR '' '') auth_header
      in if scheme \<notin> {''Bearer'', ''DPoP''} \<or> token = []
         then (st, unauthorized ''missing bearer token'')
         else (case verify ext now ctx token of
             Inl (PyJWTError e) \<Rightarrow> (st, unauthorized (''invalid token: '' @ e))
           | Inl e \<Rightarrow> (st, Inl e)
           | Inr claims \<Rightarrow>
               (case validate_dpop ext now request claims token of
                  Inl e \<Rightarrow> (st, Inl e)
                | Inr _ \<Rightarrow> (record_identity claims st, Inr claims))))"

definition has_role :: "dict \<Rightarrow> string \<Rightarrow> exn + bool" where
  "has_role claims role =
     ebind (py_get (dget claims ''realm_access'' (JObj [])) ''roles'' (JArr [])) (py_in role)"

section \<open>The interface to the endpoints\<close>

text \<open>A handler with \<open>Depends(authenticate)\<close>: it runs on the claims the dependency returns.\<close>

definition depends ::
  "('r \<Rightarrow> request_state \<Rightarrow> request_state \<times> (exn + dict)) \<Rightarrow> (dict \<Rightarrow> exn + 'a) \<Rightarrow> 'r \<Rightarrow> request_state
     \<Rightarrow> request_state \<times> (exn + 'a)" where
  "depends authenticate handler r st = (let (st', c) = authenticate r st in (st', ebind c handler))"

text \<open>
  What an endpoint may rely on: a failed authentication leaves the request state as it was, a
  successful one records the identity of the claims it returns.
\<close>

locale authenticator =
  fixes authenticate :: "'r \<Rightarrow> request_state \<Rightarrow> request_state \<times> (exn + dict)"
  assumes failed_keeps: "authenticate r st = (st', Inl e) \<Longrightarrow> st' = st"
    and passed_records: "authenticate r st = (st', Inr claims) \<Longrightarrow> st' = record_identity claims st"
begin

lemma guarded_result:
  assumes "depends authenticate handler r st = (st', Inr x)"
  obtains claims where "authenticate r st = (st', Inr claims)" "handler claims = Inr x"
    "st' = record_identity claims st"
proof -
  from assms obtain claims where "authenticate r st = (st', Inr claims)" "handler claims = Inr x"
    by (auto simp: depends_def raises split: prod.splits)
  with that passed_records show ?thesis by blast
qed

lemma guarded_raises:
  assumes "depends authenticate handler r st = (st', Inl e)"
  obtains (auth) "authenticate r st = (st, Inl e)" "st' = st"
  | (handler) claims where "authenticate r st = (st', Inr claims)" "handler claims = Inl e"
      "st' = record_identity claims st"
proof (cases "authenticate r st")
  case (Pair s c)
  show ?thesis
  proof (cases c)
    case (Inl x)
    with Pair assms failed_keeps [of r st s x] show ?thesis by (intro auth) (simp_all add: depends_def)
  next
    case (Inr claims)
    with Pair assms passed_records [of r st s claims] show ?thesis
      by (intro handler) (simp_all add: depends_def)
  qed
qed

lemma guarded_state:
  "depends authenticate handler r st = (st', x) \<Longrightarrow> st' = st \<or> (\<exists>claims. authenticate r st = (st', Inr claims))"
  using failed_keeps [of r st] by (cases "authenticate r st"; cases "snd (authenticate r st)")
    (auto simp: depends_def)

end

lemma get_claims_passed_iff:
  "get_claims ext now ctx request st = (st', Inr claims) \<longleftrightarrow>
     (\<exists>scheme token. req_header request ''Authorization'' = Some (scheme @ CHR '' '' # token) \<and>
        scheme \<in> {''Bearer'', ''DPoP''} \<and> token \<noteq> [] \<and> verify ext now ctx token = Inr claims \<and>
        validate_dpop ext now request claims token = Inr () \<and> st' = record_identity claims st)"
  (is "?l \<longleftrightarrow> ?r")
proof
  assume l: ?l
  obtain h where h: "req_header request ''Authorization'' = Some h"
    using l by (cases "req_header request ''Authorization''") (auto simp: get_claims_def str_partition_def)
  show ?r
  proof (cases rule: str_partition_cases [of "CHR '' ''" h])
    case absent
    with l h show ?thesis by (auto simp: get_claims_def)
  next
    case (found a c)
    with l h show ?thesis
      by (auto simp: get_claims_def split: if_splits sum.splits exn.splits)
  qed
next
  assume ?r
  then obtain scheme token where r: "req_header request ''Authorization'' = Some (scheme @ CHR '' '' # token)"
    "scheme \<in> {''Bearer'', ''DPoP''}" "token \<noteq> []" "verify ext now ctx token = Inr claims"
    "validate_dpop ext now request claims token = Inr ()" "st' = record_identity claims st" by blast
  then have "str_partition (CHR '' '') (scheme @ CHR '' '' # token) = (scheme, '' '', token)"
    by (intro str_partition_append) auto
  with r show ?l by (simp add: get_claims_def)
qed

lemma get_claims_failed: "get_claims ext now ctx request st = (st', Inl e) \<Longrightarrow> st' = st"
  by (auto simp: get_claims_def Let_def split: prod.splits if_splits sum.splits exn.splits)

interpretation bearer: authenticator "get_claims ext now ctx" for ext now ctx
  by unfold_locales (auto simp: get_claims_passed_iff dest: get_claims_failed)

lemma get_claims_401:
  assumes "no_http_exception ext"
    and "get_claims ext now ctx request st = (st', Inl (HTTPException status detail))"
  shows "status = 401 \<and> st' = st"
proof -
  from assms(2) have "validate_dpop ext now request claims token \<noteq> Inl (HTTPException s d) \<or> s = 401"
    for claims token s d using validate_dpop_401 [OF assms(1)] by blast
  moreover have "verify ext now ctx token \<noteq> Inl (HTTPException s d)" for token s d
    using assms(1) by (auto simp: verify_def no_http_exception_def raises)
  ultimately have "status = 401"
    using assms(2) by (auto simp: get_claims_def Let_def split: prod.splits if_splits sum.splits exn.splits)
  with get_claims_failed [OF assms(2)] show ?thesis by simp
qed

section \<open>A concrete caller\<close>

text \<open>
  The claims PyJWT documents to have checked when it is given an audience and an issuer: the
  audience is the \<open>aud\<close> claim or one of its elements, the issuer is the \<open>iss\<close> claim.
\<close>

definition options_hold :: "jwt_options \<Rightarrow> dict \<Rightarrow> bool" where
  "options_hold opts claims \<longleftrightarrow>
     (case opt_audience opts of None \<Rightarrow> True
      | Some a \<Rightarrow> (case map_of claims ''aud'' of
            Some (JStr s) \<Rightarrow> s = a | Some (JArr vs) \<Rightarrow> JStr a \<in> set vs | _ \<Rightarrow> False)) \<and>
     (case opt_issuer opts of None \<Rightarrow> True | Some i \<Rightarrow> map_of claims ''iss'' = Some (JStr i))"

definition checks_options :: "'k externals \<Rightarrow> bool" where
  "checks_options ext \<longleftrightarrow>
     (\<forall>now token key opts claims. jwt_decode ext now token key opts = Inr claims \<longrightarrow> options_hold opts claims)"

definition strict_externals :: "unit externals" where
  "strict_externals = sample_externals\<lparr>jwt_decode := (\<lambda>now token key opts.
     ebind (jwt_decode sample_externals now token key opts)
       (\<lambda>d. if options_hold opts d then Inr d else Inl (PyJWTError ''Invalid claim'')))\<rparr>"

lemma strict_externals_ok: "checks_options strict_externals" "no_http_exception strict_externals"
  using sample_no_http
  by (auto simp: checks_options_def no_http_exception_def strict_externals_def raises)

definition sample_context :: auth_context where
  "sample_context = AuthContext ''http://k/certs'' ''http://k''"

definition bearer_claims :: dict where
  "bearer_claims =
     [(''sub'', JStr ''u1''), (''jti'', JStr ''t1''), (''preferred_username'', JStr ''bob''),
      (''iss'', JStr ''http://k''), (''aud'', JArr [JStr ''employee-service'']),
      (''realm_access'', JObj [(''roles'', JArr [JStr ''sales''])])]"

definition bearer_token :: string where
  "bearer_token = jws_compact (\<lambda>q. []) (JObj [(''alg'', JStr ''RS256'')]) (JObj bearer_claims) ''c2ln''"

lemma bearer_decoded: "verify strict_externals now sample_context bearer_token = Inr bearer_claims"
proof -
  have "plain_object (JObj bearer_claims)"
    by (simp add: bearer_claims_def plain_object_def plain_json_def)
  then have "jwt_decode sample_externals now bearer_token key opts = Inr bearer_claims" for key opts
    unfolding bearer_token_def by (rule sample_decode [rotated]) (simp_all add: not_before_def bearer_claims_def)
  then show ?thesis
    by (simp add: verify_def strict_externals_def sample_externals_def)
      (simp add: options_hold_def verify_options_def AUDIENCE_def bearer_claims_def sample_context_def AuthContext_def)
qed

lemma bearer_passes:
  "get_claims strict_externals now sample_context (sample_request (''Bearer '' @ bearer_token) dp) st =
     (record_identity bearer_claims st, Inr bearer_claims)"
proof -
  have "validate_dpop strict_externals now r bearer_claims token = Inr ()" for r token
    by (simp add: validate_dpop_def not_dpop_bound_def bearer_claims_def)
  moreover have "req_header (sample_request (''Bearer '' @ bearer_token) dp) ''Authorization'' =
      Some (''Bearer'' @ CHR '' '' # bearer_token)" by simp
  moreover have "bearer_token \<noteq> []" by (simp add: bearer_token_def)
  ultimately show ?thesis using bearer_decoded unfolding get_claims_passed_iff by blast
qed

section \<open>Properties\<close>

text \<open>
  C8: \<open>get_claims\<close> returns claims exactly when the \<open>Authorization\<close> header is \<open>Bearer\<close> or \<open>DPoP\<close>, one space
  and a token; PyJWT decodes the token under the key of the JWKS with RS256, this service as audience and
  the configured issuer, every check on; and the token is bound to no key or comes with a valid proof. Then
  \<open>request.state\<close> holds the claims' subject and token id, each \<open>-\<close> when absent.
\<close>

theorem get_claims_returns_iff:
  "get_claims ext now ctx request st = (st', Inr claims) \<longleftrightarrow>
     (\<exists>scheme token key. req_header request ''Authorization'' = Some (scheme @ CHR '' '' # token) \<and>
        scheme \<in> {''Bearer'', ''DPoP''} \<and> token \<noteq> [] \<and>
        signing_key ext (jwk_client ctx) token = Inr key \<and>
        jwt_decode ext now token key
          \<lparr>opt_algorithms = [''RS256''], opt_audience = Some ''employee-service'', opt_issuer = Some (issuer ctx),
           opt_checks = []\<rparr> = Inr claims \<and>
        (unbound claims \<or>
         (\<exists>cd jkt proof. map_of claims ''cnf'' = Some (JObj cd) \<and> map_of cd ''jkt'' = Some (JStr jkt) \<and>
            req_header request ''DPoP'' = Some proof \<and> proof \<noteq> [] \<and>
            valid_proof ext now request jkt token proof)) \<and>
        st_sub st' = Some (case map_of claims ''sub'' of None \<Rightarrow> JStr ''-'' | Some v \<Rightarrow> v) \<and>
        st_jti st' = Some (case map_of claims ''jti'' of None \<Rightarrow> JStr ''-'' | Some v \<Rightarrow> v))"
proof -
  have rec: "s = record_identity claims st \<longleftrightarrow>
      st_sub s = Some (case map_of claims ''sub'' of None \<Rightarrow> JStr ''-'' | Some v \<Rightarrow> v) \<and>
      st_jti s = Some (case map_of claims ''jti'' of None \<Rightarrow> JStr ''-'' | Some v \<Rightarrow> v)" for s
    by (cases s; cases st) (auto simp: record_identity_def dget_def)
  have ver: "verify ext now ctx token = Inr claims \<longleftrightarrow> (\<exists>key. signing_key ext (jwk_client ctx) token = Inr key \<and>
      jwt_decode ext now token key
        \<lparr>opt_algorithms = [''RS256''], opt_audience = Some ''employee-service'', opt_issuer = Some (issuer ctx),
         opt_checks = []\<rparr> = Inr claims)" for token
    by (simp add: verify_def verify_options_def AUDIENCE_def raises)
  show ?thesis
    unfolding get_claims_passed_iff rec ver validate_dpop_spec by blast
qed

text \<open>
  C25: A rejected request leaves no identity behind and is answered with 401: when \<open>get_claims\<close> raises an
  \<open>HTTPException\<close>, the request state is unchanged and the status is 401.
\<close>

theorem get_claims_rejects_with_401:
  assumes "no_http_exception ext"
    and "get_claims ext now ctx request st = (st', Inl (HTTPException status detail))"
  shows "status = 401 \<and> st' = st"
  by (rule get_claims_401 [OF assms])

theorem get_claims_rejects_with_401_witness:
  "\<exists>detail. get_claims strict_externals 0 sample_context (sample_request ''Basic eA'' []) fresh_state =
     (fresh_state, Inl (HTTPException 401 detail))"
proof -
  have "str_partition (CHR '' '') ''Basic eA'' = (''Basic'', '' '', ''eA'')" by code_simp
  then have "get_claims strict_externals 0 sample_context (sample_request ''Basic eA'' []) fresh_state =
     (fresh_state, Inl (HTTPException 401 ''missing bearer token''))"
    by (simp add: get_claims_def unauthorized_def)
  from this get_claims_rejects_with_401 [OF strict_externals_ok(2) this] show ?thesis by blast
qed

text \<open>
  C24: Accepted claims are meant for this service: with a PyJWT that checks the audience and issuer it
  is given, every returned claim set names \<open>employee-service\<close> as (one) audience and the configured
  issuer.
\<close>

theorem get_claims_audience_and_issuer:
  assumes "checks_options ext"
    and "get_claims ext now ctx request st = (st', Inr claims)"
  shows "map_of claims ''iss'' = Some (JStr (issuer ctx)) \<and>
    (map_of claims ''aud'' = Some (JStr ''employee-service'') \<or>
     (\<exists>vs. map_of claims ''aud'' = Some (JArr vs) \<and> JStr ''employee-service'' \<in> set vs))"
proof -
  from assms(2) obtain token key where "jwt_decode ext now token key (verify_options ctx) = Inr claims"
    by (auto simp: get_claims_passed_iff verify_def raises)
  with assms(1) have "options_hold (verify_options ctx) claims" by (auto simp: checks_options_def)
  then show ?thesis
    by (auto simp: options_hold_def verify_options_def AUDIENCE_def split: option.splits json.splits)
qed

theorem get_claims_audience_and_issuer_witness:
  "map_of bearer_claims ''iss'' = Some (JStr (issuer sample_context)) \<and>
    (map_of bearer_claims ''aud'' = Some (JStr ''employee-service'') \<or>
     (\<exists>vs. map_of bearer_claims ''aud'' = Some (JArr vs) \<and> JStr ''employee-service'' \<in> set vs))"
  by (rule get_claims_audience_and_issuer [OF strict_externals_ok(1) bearer_passes])

end
