(* ===== verification/Employee.thy ===== *)
theory Employee imports Auth begin

text \<open>
  \<^verbatim>\<open>employee-service/main.py\<close>: start-up, the two endpoints and the access-log middleware around
  them. FastAPI's routing and response building, MongoDB and the tracer are parameters.
\<close>

section \<open>Start-up\<close>

definition getenv :: "(string \<Rightarrow> string option) \<Rightarrow> string \<Rightarrow> string \<Rightarrow> string" where
  "getenv environ key fallback = (case environ key of None \<Rightarrow> fallback | Some v \<Rightarrow> v)"

text \<open>\<open>app.state\<close>; the Mongo database is known by the client's URI and its name.\<close>

record app_state =
  auth_ctx :: auth_context
  mongo :: "string \<times> string"

definition lifespan :: "(string \<Rightarrow> string option) \<Rightarrow> app_state" where
  "lifespan environ =
     (let keycloak_internal_url = getenv environ ''KEYCLOAK_INTERNAL_URL'' ''http://localhost:8080/realms/kikan-system'';
          keycloak_issuer = getenv environ ''KEYCLOAK_ISSUER'' ''http://localhost:8080/realms/kikan-system'';
          jwks_url = keycloak_internal_url @ ''/protocol/openid-connect/certs'';
          mongo_uri = getenv environ ''MONGO_URI'' ''mongodb://localhost:27017''
      in \<lparr>auth_ctx = AuthContext jwks_url keycloak_issuer, mongo = (mongo_uri, ''employee-mongo'')\<rparr>)"

section \<open>What the service calls\<close>

record response =
  status_code :: int
  content :: json

text \<open>
  What a request is routed to: one of the two handlers, or a response of FastAPI's own (404, 405,
  the generated documentation).
\<close>

datatype endpoint = Health | Get_employee string | Built_in response

text \<open>
  \<open>find_one db username\<close> is \<open>employees.find_one({"username": username}, {"_id": False})\<close> of a database;
  \<open>route method path\<close> is the routing table; \<open>json_response\<close> and \<open>error_response\<close> are the responses
  FastAPI makes of a returned value and of an \<open>HTTPException\<close>.
\<close>

record 'k services = "'k externals" +
  find_one :: "string \<times> string \<Rightarrow> string \<Rightarrow> exn + dict option"
  route :: "string \<Rightarrow> string \<Rightarrow> endpoint"
  json_response :: "json \<Rightarrow> response"
  error_response :: "int \<Rightarrow> string \<Rightarrow> response"

text \<open>What the code relies on of FastAPI's responses.\<close>

definition fastapi :: "'k services \<Rightarrow> bool" where
  "fastapi srv \<longleftrightarrow>
     (\<forall>v. json_response srv v = \<lparr>status_code = 200, content = v\<rparr>) \<and>
     (\<forall>status detail. error_response srv status detail =
        \<lparr>status_code = status, content = JObj [(''detail'', JStr detail)]\<rparr>)"

section \<open>Endpoints\<close>

definition health :: json where
  "health = JStr ''ok''"

definition get_employee :: "'k services \<Rightarrow> app_state \<Rightarrow> string \<Rightarrow> dict \<Rightarrow> exn + dict" where
  "get_employee srv app username claims =
     (let is_self = (dget claims ''preferred_username'' JNull = JStr username)
      in ebind (if is_self then Inr True else has_role claims ''hr-viewer'') (\<lambda>allowed.
         if \<not> allowed then Inl (HTTPException 403 ''insufficient role'')
         else ebind (find_one srv (mongo app) username) (\<lambda>employee.
         case employee of
           None \<Rightarrow> Inl (HTTPException 404 ''employee not found'')
         | Some d \<Rightarrow> Inr d)))"

text \<open>
  \<open>call_next(request)\<close>: the routed handler; a returned value and an \<open>HTTPException\<close> become a
  response, every other exception passes through the middleware.
\<close>

definition respond :: "'k services \<Rightarrow> exn + json \<Rightarrow> exn + response" where
  "respond srv r =
     (case r of
        Inr v \<Rightarrow> Inr (json_response srv v)
      | Inl (HTTPException status detail) \<Rightarrow> Inr (error_response srv status detail)
      | Inl e \<Rightarrow> Inl e)"

definition call_next ::
  "'k services \<Rightarrow> rat \<Rightarrow> app_state \<Rightarrow> request \<Rightarrow> request_state \<Rightarrow> request_state \<times> (exn + response)" where
  "call_next srv now app request st =
     (case route srv (req_method request) (req_path request) of
        Health \<Rightarrow> (st, respond srv (Inr health))
      | Get_employee username \<Rightarrow>
          (let (st', r) = depends (get_claims (externals.truncate srv) now (auth_ctx app))
                 (get_employee srv app username) request st
           in (st', respond srv (ebind r (\<lambda>d. Inr (JObj d)))))
      | Built_in resp \<Rightarrow> (st, Inr resp))"

section \<open>Access log\<close>

text \<open>
  The current span: whether its context is valid and its 128-bit trace id. \<open>format(i, "032x")\<close> of
  such a number is its 32 hexadecimal digits.
\<close>

record span_context =
  is_valid :: bool
  trace_id :: "128 word"

definition access_log_entry ::
  "request \<Rightarrow> response \<Rightarrow> rat \<Rightarrow> rat \<Rightarrow> request_state \<Rightarrow> span_context \<Rightarrow> dict" where
  "access_log_entry request response start end_time st span_ctx =
     (let tid = (if is_valid span_ctx then hex_fixed 32 (unat (trace_id span_ctx)) else ''-'');
          sub = (case st_sub st of None \<Rightarrow> JStr ''-'' | Some v \<Rightarrow> v);
          jti = (case st_jti st of None \<Rightarrow> JStr ''-'' | Some v \<Rightarrow> v)
      in [(''type'', JStr ''access_log''),
          (''method'', JStr (req_method request)),
          (''path'', JStr (req_path request)),
          (''status'', JInt (status_code response)),
          (''duration_ms'', JInt (py_trunc ((end_time - start) * 1000))),
          (''sub'', sub),
          (''jti'', jti),
          (''trace_id'', JStr tid)])"

text \<open>
  One request through the middleware, with the clock readings it takes (\<open>start\<close>, the wall clock of
  the DPoP check, \<open>end_time\<close>) and the span: the lines printed and the response or the exception.
\<close>

definition access_log_middleware ::
  "'k services \<Rightarrow> app_state \<Rightarrow> rat \<Rightarrow> rat \<Rightarrow> rat \<Rightarrow> span_context \<Rightarrow> request \<Rightarrow> (string, response) run" where
  "access_log_middleware srv app start now end_time span_ctx request =
     (if req_path request = ''/health'' then lift_exn (snd (call_next srv now app request fresh_state))
      else (let (st, r) = call_next srv now app request fresh_state
            in wbind (lift_exn r) (\<lambda>response.
               wthen (emit (dumps_default (float_repr srv)
                       (JObj (access_log_entry request response start end_time st span_ctx))))
                 (ret response))))"

section \<open>Who may see what\<close>

text \<open>
  The roles of a claim set as Keycloak writes them: \<open>realm_access\<close>, when there, is an object whose
  \<open>roles\<close>, when there, are a list.
\<close>

fun realm_roles :: "dict \<Rightarrow> json list option" where
  "realm_roles claims =
     (case map_of claims ''realm_access'' of
        None \<Rightarrow> Some []
      | Some (JObj ra) \<Rightarrow> (case map_of ra ''roles'' of None \<Rightarrow> Some [] | Some (JArr rs) \<Rightarrow> Some rs | _ \<Rightarrow> None)
      | _ \<Rightarrow> None)"

text \<open>The rule of the service: one's own record, and every record for \<open>hr-viewer\<close>.\<close>

definition may_view :: "dict \<Rightarrow> json list \<Rightarrow> string \<Rightarrow> bool" where
  "may_view claims roles username \<longleftrightarrow>
     map_of claims ''preferred_username'' = Some (JStr username) \<or> JStr ''hr-viewer'' \<in> set roles"

lemma has_role_list: "realm_roles claims = Some rs \<Longrightarrow> has_role claims role = Inr (JStr role \<in> set rs)"
  by (auto simp: has_role_def split: option.splits json.splits)

lemma get_employee_may_view:
  "realm_roles claims = Some rs \<Longrightarrow>
     get_employee srv app u claims =
       (if may_view claims rs u
        then ebind (find_one srv (mongo app) u)
          (\<lambda>r. case r of None \<Rightarrow> Inl (HTTPException 404 ''employee not found'') | Some d \<Rightarrow> Inr d)
        else Inl (HTTPException 403 ''insufficient role''))"
  by (simp add: get_employee_def may_view_def has_role_list dget_str del: realm_roles.simps)

lemma get_employee_Inr_iff:
  "get_employee srv app u claims = Inr d \<longleftrightarrow>
     (map_of claims ''preferred_username'' = Some (JStr u) \<or> has_role claims ''hr-viewer'' = Inr True) \<and>
     find_one srv (mongo app) u = Inr (Some d)"
proof -
  have "ebind m (\<lambda>r. case r of None \<Rightarrow> Inl e | Some d \<Rightarrow> Inr d) = Inr d \<longleftrightarrow> m = Inr (Some d)"
    for m :: "exn + dict option" and e
    by (auto simp: ebind_Inr_iff split: option.splits)
  then show ?thesis
    by (cases "has_role claims ''hr-viewer''")
      (simp_all add: get_employee_def dget_eq_JStr_iff Let_def)
qed

section \<open>What a run of the middleware is\<close>

lemma respond_Inr_iff:
  "respond srv r = Inr resp \<longleftrightarrow>
     (\<exists>v. r = Inr v \<and> resp = json_response srv v) \<or>
     (\<exists>status detail. r = Inl (HTTPException status detail) \<and> resp = error_response srv status detail)"
  by (auto simp: respond_def split: sum.splits exn.splits)

lemma middleware_logged:
  assumes "req_path request \<noteq> ''/health''"
    and "call_next srv now app request fresh_state = (st, Inr resp)"
  shows "access_log_middleware srv app start now end_time sctx request =
    ([dumps_default (float_repr srv) (JObj (access_log_entry request resp start end_time st sctx))], Inr resp)"
  using assms by (simp add: access_log_middleware_def wthen_def wbind_def emit_def ret_def lift_exn_def)

lemma middleware_silent:
  assumes "call_next srv now app request fresh_state = (st, Inl e)"
  shows "access_log_middleware srv app start now end_time sctx request = ([], Inl e)"
  using assms by (simp add: access_log_middleware_def wbind_def lift_exn_def)

lemma middleware_outcome:
  "outcome (access_log_middleware srv app start now end_time sctx request) =
     snd (call_next srv now app request fresh_state)"
  by (simp add: access_log_middleware_def run_simps Let_def split: prod.splits)

lemma call_next_employee:
  assumes "route srv (req_method request) (req_path request) = Get_employee u"
    and "call_next srv now app request st = (st', r)"
  obtains x where "depends (get_claims (externals.truncate srv) now (auth_ctx app)) (get_employee srv app u) request st = (st', x)"
    "r = respond srv (ebind x (\<lambda>d. Inr (JObj d)))"
  using assms by (auto simp: call_next_def split: prod.splits)

text \<open>The values that a log line of authenticated claims carries read back.\<close>

lemma wf_access_log_entry:
  assumes "st_sub st = None \<or> (\<exists>v. st_sub st = Some v \<and> plain_json v)"
    and "st_jti st = None \<or> (\<exists>v. st_jti st = Some v \<and> plain_json v)"
  shows "plain_json (JObj (access_log_entry request resp start end_time st sctx))"
  using assms by (auto simp: access_log_entry_def Let_def plain_json_def)

lemma plain_dget: "plain_json (JObj d) \<Longrightarrow> plain_json w \<Longrightarrow> plain_json (dget d k w)"
  by (auto simp: dget_def plain_json_member split: option.splits)

lemma plain_record_identity:
  "plain_json (JObj claims) \<Longrightarrow>
     plain_json (JObj (access_log_entry request resp start end_time (record_identity claims fresh_state) sctx))"
  by (rule wf_access_log_entry) (auto simp: record_identity_def intro!: plain_dget, auto simp: plain_json_def)

section \<open>A concrete service\<close>

definition sample_services :: "unit services" where
  "sample_services =
     \<lparr>signing_key = signing_key strict_externals, jwt_decode = jwt_decode strict_externals,
      ec_public_key = ec_public_key strict_externals, float_repr = float_repr strict_externals,
      find_one = (\<lambda>db u. Inr (map_of [(''bob'', [(''username'', JStr ''bob'')])] u)),
      route = (\<lambda>m p. if p = ''/health'' then Health
                     else if prefix ''/employees/'' p then Get_employee (drop 11 p)
                     else Built_in \<lparr>status_code = 404, content = JNull\<rparr>),
      json_response = (\<lambda>v. \<lparr>status_code = 200, content = v\<rparr>),
      error_response = (\<lambda>s d. \<lparr>status_code = s, content = JObj [(''detail'', JStr d)]\<rparr>)\<rparr>"

definition sample_app :: app_state where
  "sample_app = \<lparr>auth_ctx = sample_context, mongo = (''uri'', ''employee-mongo'')\<rparr>"

lemma sample_services_ok: "fastapi sample_services" "externals.truncate sample_services = strict_externals"
  by (simp_all add: fastapi_def sample_services_def externals.truncate_def strict_externals_def sample_externals_def)

definition bearer_request :: "string \<Rightarrow> request" where
  "bearer_request dp = sample_request (''Bearer '' @ bearer_token) dp"

lemma sample_route: "route sample_services (req_method (bearer_request dp)) (req_path (bearer_request dp)) = Get_employee ''bob''"
  by (simp add: sample_services_def bearer_request_def)

lemma sample_call:
  "call_next sample_services now sample_app (bearer_request dp) fresh_state =
     (record_identity bearer_claims fresh_state, Inr \<lparr>status_code = 200, content = JObj [(''username'', JStr ''bob'')]\<rparr>)"
proof -
  have "get_employee sample_services sample_app ''bob'' bearer_claims = Inr [(''username'', JStr ''bob'')]"
    by (simp add: get_employee_Inr_iff) (simp add: bearer_claims_def sample_services_def)
  with bearer_passes [of now dp fresh_state] sample_services_ok show ?thesis
    unfolding call_next_def sample_route
    by (simp add: depends_def sample_app_def respond_def fastapi_def bearer_request_def)
qed

text \<open>The same service with the library that checks no options, and a token bound to a key.\<close>

definition loose_services :: "unit services" where
  "loose_services = sample_services\<lparr>jwt_decode := jwt_decode sample_externals\<rparr>"

definition bound_token :: string where
  "bound_token = jws_compact (\<lambda>q. []) (JObj [(''alg'', JStr ''RS256'')]) (JObj sample_claims) ''c2ln''"

lemma bound_token_verifies:
  "verify (externals.truncate loose_services) now ctx bound_token = Inr sample_claims"
proof -
  have "plain_object (JObj sample_claims)"
    by (simp add: sample_claims_def plain_object_def plain_json_def)
  then have "jwt_decode sample_externals now bound_token key opts = Inr sample_claims" for key opts
    unfolding bound_token_def by (rule sample_decode [rotated]) (simp_all add: not_before_def sample_claims_def)
  then show ?thesis
    by (simp add: verify_def loose_services_def externals.truncate_def sample_services_def strict_externals_def)
      (simp add: sample_externals_def)
qed

section \<open>Properties\<close>

text \<open>
  C10: The authorisation rule, on every branch: for Keycloak's claims the employee endpoint returns a
  record exactly when the caller may view it and the database has it, raises 403 exactly when the
  caller may not view it, whether or not it exists, and raises 404 exactly when the caller may view
  it and it does not exist.
\<close>

theorem get_employee_decision:
  assumes "realm_roles claims = Some roles"
    and "\<And>s d. find_one srv (mongo app) u \<noteq> Inl (HTTPException s d)"
  shows "(get_employee srv app u claims = Inr d \<longleftrightarrow>
        may_view claims roles u \<and> find_one srv (mongo app) u = Inr (Some d)) \<and>
    ((\<exists>m. get_employee srv app u claims = Inl (HTTPException 403 m)) \<longleftrightarrow> \<not> may_view claims roles u) \<and>
    ((\<exists>m. get_employee srv app u claims = Inl (HTTPException 404 m)) \<longleftrightarrow>
        may_view claims roles u \<and> find_one srv (mongo app) u = Inr None)"
  unfolding get_employee_may_view [OF assms(1)]
  using assms(2) by (cases "find_one srv (mongo app) u") (auto split: option.splits)

theorem get_employee_decision_witness:
  "(get_employee sample_services sample_app ''eve'' bearer_claims = Inr [] \<longleftrightarrow>
        may_view bearer_claims [JStr ''sales''] ''eve'' \<and>
        find_one sample_services (mongo sample_app) ''eve'' = Inr (Some [])) \<and>
    ((\<exists>m. get_employee sample_services sample_app ''eve'' bearer_claims = Inl (HTTPException 403 m)) \<longleftrightarrow>
        \<not> may_view bearer_claims [JStr ''sales''] ''eve'') \<and>
    ((\<exists>m. get_employee sample_services sample_app ''eve'' bearer_claims = Inl (HTTPException 404 m)) \<longleftrightarrow>
        may_view bearer_claims [JStr ''sales''] ''eve'' \<and>
        find_one sample_services (mongo sample_app) ''eve'' = Inr None)"
  by (rule get_employee_decision) (simp_all add: bearer_claims_def sample_services_def)

text \<open>
  C9: No record without a verified and entitled caller: when a request for an employee is answered
  with 200, its token verified, its DPoP validation passed, the caller is the employee or has the
  role \<open>hr-viewer\<close>, and the body is the database's record of that employee.
\<close>

theorem employee_data_needs_authorisation:
  assumes "fastapi srv" "no_http_exception (externals.truncate srv)"
    and "\<And>db name d. find_one srv db name \<noteq> Inl (HTTPException 200 d)"
    and "route srv (req_method request) (req_path request) = Get_employee u"
    and "outcome (access_log_middleware srv app start now end_time sctx request) = Inr resp"
    and "status_code resp = 200"
  shows "\<exists>scheme token claims d.
    req_header request ''Authorization'' = Some (scheme @ CHR '' '' # token) \<and>
    verify (externals.truncate srv) now (auth_ctx app) token = Inr claims \<and>
    validate_dpop (externals.truncate srv) now request claims token = Inr () \<and>
    (map_of claims ''preferred_username'' = Some (JStr u) \<or> has_role claims ''hr-viewer'' = Inr True) \<and>
    find_one srv (mongo app) u = Inr (Some d) \<and> content resp = JObj d"
proof -
  let ?auth = "get_claims (externals.truncate srv) now (auth_ctx app)"
  obtain st' x where run: "depends ?auth (get_employee srv app u) request fresh_state = (st', x)"
    "respond srv (ebind x (\<lambda>d. Inr (JObj d))) = Inr resp"
    using assms(5) call_next_employee [OF assms(4)] unfolding middleware_outcome
    by (metis prod.collapse)
  show ?thesis
  proof (cases x)
    case (Inr d)
    with run(1) obtain claims where c: "?auth request fresh_state = (st', Inr claims)"
      "get_employee srv app u claims = Inr d"
      by (auto elim: bearer.guarded_result)
    moreover have "content resp = JObj d"
      using run(2) Inr assms(1) by (auto simp: respond_Inr_iff fastapi_def)
    ultimately show ?thesis
      unfolding get_claims_passed_iff get_employee_Inr_iff by blast
  next
    case (Inl e)
    with run(2) assms(1,6) obtain detail where e: "e = HTTPException 200 detail"
      by (auto simp: respond_Inr_iff fastapi_def)
    from run(1) Inl have "depends ?auth (get_employee srv app u) request fresh_state = (st', Inl e)" by simp
    then have False
    proof (cases rule: bearer.guarded_raises)
      case auth
      then show False using e get_claims_401 [OF assms(2)] by fastforce
    next
      case (handler claims)
      with e assms(3) show False by (auto simp: get_employee_def has_role_def raises split: if_splits option.splits
            dest: py_get_raises py_in_raises)
    qed
    then show ?thesis ..
  qed
qed

theorem employee_data_needs_authorisation_witness:
  "\<exists>scheme token claims d.
    req_header (bearer_request []) ''Authorization'' = Some (scheme @ CHR '' '' # token) \<and>
    verify (externals.truncate sample_services) 5 (auth_ctx sample_app) token = Inr claims \<and>
    validate_dpop (externals.truncate sample_services) 5 (bearer_request []) claims token = Inr () \<and>
    (map_of claims ''preferred_username'' = Some (JStr ''bob'') \<or> has_role claims ''hr-viewer'' = Inr True) \<and>
    find_one sample_services (mongo sample_app) ''bob'' = Inr (Some d) \<and>
    content \<lparr>status_code = 200, content = JObj [(''username'', JStr ''bob'')]\<rparr> = JObj d"
proof (rule employee_data_needs_authorisation [OF sample_services_ok(1)])
  show "no_http_exception (externals.truncate sample_services)" by (simp add: sample_services_ok strict_externals_ok)
  show "find_one sample_services db name \<noteq> Inl (HTTPException 200 d)" for db name d
    by (simp add: sample_services_def)
  show "outcome (access_log_middleware sample_services sample_app 0 5 1 \<lparr>is_valid = False, trace_id = 0\<rparr> (bearer_request [])) =
      Inr \<lparr>status_code = 200, content = JObj [(''username'', JStr ''bob'')]\<rparr>"
    by (simp add: middleware_outcome sample_call)
qed (simp_all add: sample_route)

text \<open>
  C28: Every answered request outside \<open>/health\<close> is logged exactly once: the middleware prints one line,
  which \<open>json.loads\<close> reads back as an object with the request's method and path, the status of the
  response, and as \<open>sub\<close> and \<open>jti\<close> what the dependency recorded (\<open>-\<close> when it recorded nothing).
\<close>

theorem one_log_line_per_response:
  assumes "req_path request \<noteq> ''/health''"
    and "call_next srv now app request fresh_state = (st, Inr resp)"
    and "\<And>v. st_sub st = Some v \<or> st_jti st = Some v \<Longrightarrow> plain_json v"
  shows "\<exists>line entry. printed (access_log_middleware srv app start now end_time sctx request) = [line] \<and>
    json_loads line = Inr (JObj entry) \<and>
    map_of entry ''type'' = Some (JStr ''access_log'') \<and>
    map_of entry ''method'' = Some (JStr (req_method request)) \<and>
    map_of entry ''path'' = Some (JStr (req_path request)) \<and>
    map_of entry ''status'' = Some (JInt (status_code resp)) \<and>
    map_of entry ''sub'' = Some (case st_sub st of None \<Rightarrow> JStr ''-'' | Some v \<Rightarrow> v) \<and>
    map_of entry ''jti'' = Some (case st_jti st of None \<Rightarrow> JStr ''-'' | Some v \<Rightarrow> v)"
proof -
  let ?e = "access_log_entry request resp start end_time st sctx"
  have "plain_json (JObj ?e)"
    using assms(3) by (intro wf_access_log_entry) (metis not_Some_eq)+
  then have "json_loads (dumps_default (float_repr srv) (JObj ?e)) = Inr (JObj ?e)"
    by (rule json_text.dec_enc)
  then show ?thesis
    unfolding middleware_logged [OF assms(1,2)]
    by (intro exI conjI) (rule refl | simp add: access_log_entry_def)+
qed

theorem one_log_line_per_response_witness:
  "\<exists>line entry. printed (access_log_middleware sample_services sample_app 0 5 1 \<lparr>is_valid = True, trace_id = 255\<rparr>
       (bearer_request [])) = [line] \<and>
    json_loads line = Inr (JObj entry) \<and>
    map_of entry ''type'' = Some (JStr ''access_log'') \<and>
    map_of entry ''method'' = Some (JStr (req_method (bearer_request []))) \<and>
    map_of entry ''path'' = Some (JStr (req_path (bearer_request []))) \<and>
    map_of entry ''status'' =
      Some (JInt (status_code \<lparr>status_code = 200, content = JObj [(''username'', JStr ''bob'')]\<rparr>)) \<and>
    map_of entry ''sub'' =
      Some (case st_sub (record_identity bearer_claims fresh_state) of None \<Rightarrow> JStr ''-'' | Some v \<Rightarrow> v) \<and>
    map_of entry ''jti'' =
      Some (case st_jti (record_identity bearer_claims fresh_state) of None \<Rightarrow> JStr ''-'' | Some v \<Rightarrow> v)"
proof -
  have "plain_json v"
    if "st_sub (record_identity bearer_claims fresh_state) = Some v \<or>
      st_jti (record_identity bearer_claims fresh_state) = Some v" for v
    using that by (auto simp: record_identity_def bearer_claims_def plain_json_def)
  then show ?thesis
    by (intro one_log_line_per_response [OF _ sample_call]) (simp_all add: bearer_request_def)
qed

text \<open>
  C29: The identity in the log is that of a verified token or no identity: after a request for an
  employee, the recorded \<open>sub\<close> and \<open>jti\<close> are absent, or they are those of claims for which the
  whole authentication passed.
\<close>

theorem logged_identity_is_verified:
  assumes "route srv (req_method request) (req_path request) = Get_employee u"
    and "call_next srv now app request fresh_state = (st, r)"
  shows "st = fresh_state \<or>
    (\<exists>scheme token claims. req_header request ''Authorization'' = Some (scheme @ CHR '' '' # token) \<and>
       verify (externals.truncate srv) now (auth_ctx app) token = Inr claims \<and>
       validate_dpop (externals.truncate srv) now request claims token = Inr () \<and>
       st_sub st = Some (dget claims ''sub'' (JStr ''-'')) \<and> st_jti st = Some (dget claims ''jti'' (JStr ''-'')))"
proof -
  let ?auth = "get_claims (externals.truncate srv) now (auth_ctx app)"
  obtain x where "depends ?auth (get_employee srv app u) request fresh_state = (st, x)"
    using call_next_employee [OF assms] by blast
  then consider "st = fresh_state" | claims where "?auth request fresh_state = (st, Inr claims)"
    using bearer.guarded_state by blast
  then show ?thesis
  proof cases
    case 2
    then obtain scheme token where "req_header request ''Authorization'' = Some (scheme @ CHR '' '' # token)"
      "verify (externals.truncate srv) now (auth_ctx app) token = Inr claims"
      "validate_dpop (externals.truncate srv) now request claims token = Inr ()"
      "st = record_identity claims fresh_state"
      unfolding get_claims_passed_iff by blast
    then show ?thesis by (intro disjI2 exI conjI) (assumption | simp add: record_identity_def)+
  qed simp
qed

theorem logged_identity_is_verified_witness:
  "\<exists>scheme token claims. req_header (bearer_request []) ''Authorization'' = Some (scheme @ CHR '' '' # token) \<and>
     verify strict_externals 5 sample_context token = Inr claims \<and>
     st_sub (record_identity bearer_claims fresh_state) = Some (dget claims ''sub'' (JStr ''-''))"
proof -
  have "record_identity bearer_claims fresh_state \<noteq> fresh_state"
    by (simp add: record_identity_def fresh_state_def)
  moreover have "auth_ctx sample_app = sample_context" by (simp add: sample_app_def)
  ultimately show ?thesis
    using logged_identity_is_verified [OF sample_route sample_call [of 5 "[]"]] sample_services_ok(2) by metis
qed

text \<open>
  C30: A request whose token is bound to a key and whose DPoP header does not have two dots is neither
  answered nor logged: the \<open>ValueError\<close> of the unpacking passes through the endpoint and the
  middleware, and no access-log line is printed.
\<close>

theorem malformed_proof_leaves_no_log_line:
  assumes "route srv (req_method request) (req_path request) = Get_employee u"
    and "req_header request ''Authorization'' = Some (scheme @ CHR '' '' # token)"
    and "scheme \<in> {''Bearer'', ''DPoP''}" "token \<noteq> []"
    and "verify (externals.truncate srv) now (auth_ctx app) token = Inr claims"
    and "map_of claims ''cnf'' = Some (JObj cd)" "map_of cd ''jkt'' = Some v"
    and "req_header request ''DPoP'' = Some dp" "dp \<noteq> []" "count_list dp (CHR ''.'') \<noteq> 2"
  shows "access_log_middleware srv app start now end_time sctx request = ([], Inl ValueError)"
proof -
  have "validate_dpop (externals.truncate srv) now request claims token = Inl ValueError"
    by (rule malformed_proof_raises [OF assms(6-10)])
  moreover have "str_partition (CHR '' '') (scheme @ CHR '' '' # token) = (scheme, '' '', token)"
    using assms(3) by (intro str_partition_append) auto
  ultimately have "get_claims (externals.truncate srv) now (auth_ctx app) request fresh_state =
      (fresh_state, Inl ValueError)"
    using assms(2-5) by (simp add: get_claims_def)
  then have "call_next srv now app request fresh_state = (fresh_state, Inl ValueError)"
    using assms(1) by (simp add: call_next_def depends_def respond_def)
  then show ?thesis by (rule middleware_silent)
qed

theorem malformed_proof_leaves_no_log_line_witness:
  "access_log_middleware loose_services sample_app 0 0 0 \<lparr>is_valid = False, trace_id = 0\<rparr>
     (sample_request (''DPoP '' @ bound_token) ''garbage'') = ([], Inl ValueError)"
proof (rule malformed_proof_leaves_no_log_line [OF _ _ _ _ _ sample_cnf])
  show "verify (externals.truncate loose_services) 0 (auth_ctx sample_app) bound_token = Inr sample_claims"
    by (rule bound_token_verifies)
  show "req_header (sample_request (''DPoP '' @ bound_token) ''garbage'') ''Authorization'' =
      Some (''DPoP'' @ CHR '' '' # bound_token)" by simp
  show "req_header (sample_request (''DPoP '' @ bound_token) ''garbage'') ''DPoP'' = Some ''garbage''" by simp
  show "bound_token \<noteq> []" by (simp add: bound_token_def)
qed (simp_all add: loose_services_def sample_services_def)

text \<open>
  C31: The health check needs no token and leaves no log line: it is answered with 200 and \<open>ok\<close> whatever
  the headers are.
\<close>

theorem health_is_open_and_silent:
  assumes "fastapi srv" "req_path request = ''/health''" "route srv (req_method request) ''/health'' = Health"
  shows "access_log_middleware srv app start now end_time sctx request =
    ([], Inr \<lparr>status_code = 200, content = JStr ''ok''\<rparr>)"
  using assms by (simp add: access_log_middleware_def call_next_def lift_exn_def respond_def fastapi_def health_def)

theorem health_is_open_and_silent_witness:
  "access_log_middleware sample_services sample_app 0 0 0 \<lparr>is_valid = False, trace_id = 0\<rparr>
     \<lparr>req_method = ''GET'', req_url = ''http://e/health'', req_path = ''/health'', req_header = (\<lambda>h. None)\<rparr> =
    ([], Inr \<lparr>status_code = 200, content = JStr ''ok''\<rparr>)"
  by (rule health_is_open_and_silent [OF sample_services_ok(1)]) (simp_all add: sample_services_def)

end
