(* ===== verification/PyRe.thy ===== *)
theory PyRe imports PyStr begin

text \<open>
  \<open>re.search\<close> for the patterns the sources use: literals, an optional character, greedy repetitions
  of a negated character class, and one capturing group. The matcher backtracks in the order of
  Python's: a greedy repetition first tries to take one more character.
\<close>

section \<open>Matching\<close>

datatype re_item =
    Lit char
  | Opt char
  | Star_not string
  | Plus_not string
  | Open
  | Close

text \<open>
  \<open>match_here p inside g s\<close>: a match of \<open>p\<close> at the front of \<open>s\<close>; \<open>g\<close> is the text of the group so far
  and \<open>inside\<close> says whether it is still open. The answer is the text of the group.
\<close>

definition capture :: "bool \<Rightarrow> string \<Rightarrow> char \<Rightarrow> string" where
  "capture inside g c = (if inside then g @ [c] else g)"

function match_here :: "re_item list \<Rightarrow> bool \<Rightarrow> string \<Rightarrow> string \<Rightarrow> string option" where
  "match_here [] inside g s = Some g"
| "match_here (Open # p) inside g s = match_here p True [] s"
| "match_here (Close # p) inside g s = match_here p False g s"
| "match_here (Lit c # p) inside g s =
     (case s of x # xs \<Rightarrow> if x = c then match_here p inside (capture inside g x) xs else None | [] \<Rightarrow> None)"
| "match_here (Opt c # p) inside g s =
     (case s of
        x # xs \<Rightarrow>
          if x = c then
            (case match_here p inside (capture inside g x) xs of
               Some r \<Rightarrow> Some r | None \<Rightarrow> match_here p inside g s)
          else match_here p inside g s
      | [] \<Rightarrow> match_here p inside g s)"
| "match_here (Star_not cs # p) inside g s =
     (case s of
        x # xs \<Rightarrow>
          if x \<notin> set cs then
            (case match_here (Star_not cs # p) inside (capture inside g x) xs of
               Some r \<Rightarrow> Some r | None \<Rightarrow> match_here p inside g s)
          else match_here p inside g s
      | [] \<Rightarrow> match_here p inside g s)"
| "match_here (Plus_not cs # p) inside g s =
     (case s of
        x # xs \<Rightarrow>
          if x \<notin> set cs then match_here (Star_not cs # p) inside (capture inside g x) xs else None
      | [] \<Rightarrow> None)"
  by pat_completeness auto
termination
  by (relation "measure (\<lambda>(p, inside, g, s). length p + length s)") auto

text \<open>\<open>m = re.search(p, s)\<close>, then \<open>m.group(1)\<close>: the leftmost position that matches.\<close>

fun re_search :: "re_item list \<Rightarrow> string \<Rightarrow> string option" where
  "re_search p [] = match_here p False [] []"
| "re_search p (c # cs) =
     (case match_here p False [] (c # cs) of Some g \<Rightarrow> Some g | None \<Rightarrow> re_search p cs)"

section \<open>Laws\<close>

lemma match_literal:
  "match_here (map Lit l @ p) False g s =
     (if prefix l s then match_here p False g (drop (length l) s) else None)"
proof (induction l arbitrary: s)
  case (Cons c l)
  then show ?case by (cases s) (auto simp: capture_def)
qed simp

text \<open>A repetition that nothing follows but items that cannot fail takes all it can.\<close>

definition never_fails :: "re_item list \<Rightarrow> bool" where
  "never_fails p \<longleftrightarrow> (\<forall>inside g s. match_here p inside g s \<noteq> None)"

lemma match_star_greedy:
  "never_fails p \<Longrightarrow> match_here (Star_not cs # p) True g s =
     match_here p True (g @ takeWhile (\<lambda>x. x \<notin> set cs) s) (dropWhile (\<lambda>x. x \<notin> set cs) s)"
proof (induction s arbitrary: g)
  case (Cons x s)
  show ?case
  proof (cases "x \<in> set cs")
    case False
    have "match_here (Star_not cs # p) True (g @ [x]) s =
        match_here p True (g @ takeWhile (\<lambda>x. x \<notin> set cs) (x # s)) (dropWhile (\<lambda>x. x \<notin> set cs) (x # s))"
      using Cons.IH [OF Cons.prems, of "g @ [x]"] False by (simp del: match_here.simps)
    moreover obtain y where "match_here p True (g @ takeWhile (\<lambda>x. x \<notin> set cs) (x # s))
        (dropWhile (\<lambda>x. x \<notin> set cs) (x # s)) = Some y"
      using Cons.prems unfolding never_fails_def by blast
    ultimately show ?thesis
      using False by (subst match_here.simps(6)) (simp add: capture_def del: match_here.simps)
  qed simp
qed simp

lemma re_search_absent: "(\<And>xs ys. s = xs @ ys \<Longrightarrow> match_here p False [] ys = None) \<Longrightarrow> re_search p s = None"
proof (induction s)
  case (Cons c s)
  have "match_here p False [] (c # s) = None" by (rule Cons.prems [of "[]"]) simp
  moreover have "match_here p False [] ys = None" if "s = xs @ ys" for xs ys
    using that by (intro Cons.prems [of "c # xs"]) simp
  ultimately show ?case using Cons.IH by auto
qed auto

lemma re_search_leftmost:
  "match_here p False [] s = Some g \<Longrightarrow>
     (\<And>zs ys. pre = zs @ ys \<Longrightarrow> ys \<noteq> [] \<Longrightarrow> match_here p False [] (ys @ s) = None) \<Longrightarrow>
     re_search p (pre @ s) = Some g"
proof (induction pre)
  case Nil
  then show ?case by (cases s) auto
next
  case (Cons c pre)
  have "match_here p False [] (c # pre @ s) = None" using Cons.prems(2) [of "[]" "c # pre"] by simp
  moreover have "re_search p (pre @ s) = Some g"
    using Cons.prems by (intro Cons.IH) (metis append_Cons)+
  ultimately show ?case by simp
qed

text \<open>A repetition outside the group: it ends at the last position from which the rest matches.\<close>

lemma match_star_none:
  "(\<And>x y. s = x @ y \<Longrightarrow> set x \<inter> set cs = {} \<Longrightarrow> match_here p False g y = None) \<Longrightarrow>
     match_here (Star_not cs # p) False g s = None"
proof (induction s)
  case Nil
  then show ?case by simp
next
  case (Cons c s)
  have here: "match_here p False g (c # s) = None" by (rule Cons.prems [of "[]"]) simp_all
  have "match_here (Star_not cs # p) False g s = None" if "c \<notin> set cs"
    using that by (intro Cons.IH Cons.prems [of "c # x" for x]) simp_all
  with here show ?case by (simp add: capture_def)
qed

lemma match_star_last:
  assumes "match_here p False g s = Some r" "set a \<inter> set cs = {}"
    and "\<And>x y. s = x @ y \<Longrightarrow> x \<noteq> [] \<Longrightarrow> set x \<inter> set cs = {} \<Longrightarrow> match_here p False g y = None"
  shows "match_here (Star_not cs # p) False g (a @ s) = Some r"
  using assms(2)
proof (induction a)
  case Nil
  show ?case
  proof (cases s)
    case (Cons c t)
    have "match_here (Star_not cs # p) False g t = None" if "c \<notin> set cs"
      using that Cons by (intro match_star_none assms(3) [of "c # x" for x]) simp_all
    with Cons assms(1) show ?thesis by (simp add: capture_def)
  qed (use assms(1) in simp)
qed (simp add: capture_def)

text \<open>A group that runs up to a delimiter.\<close>

lemma match_star_delimited:
  "q \<notin> set u \<Longrightarrow> match_here [Star_not [q], Close, Lit q] True g (u @ q # rest) = Some (g @ u)"
proof (induction u arbitrary: g)
  case (Cons c u)
  then have "match_here [Star_not [q], Close, Lit q] True (capture True g c) (u @ q # rest) = Some (g @ c # u)"
    by (simp add: capture_def del: match_here.simps)
  moreover have "c \<noteq> q" using Cons.prems by auto
  ultimately show ?case by (subst match_here.simps(6)) (simp del: match_here.simps)
qed (simp add: capture_def)

lemma match_plus_delimited:
  assumes "q \<notin> set u" "u \<noteq> []"
  shows "match_here [Open, Plus_not [q], Close, Lit q] False g (u @ q # rest) = Some u"
proof (cases u)
  case (Cons c v)
  have "match_here [Star_not [q], Close, Lit q] True (capture True [] c) (v @ q # rest) = Some u"
    using assms(1) Cons by (subst match_star_delimited) (simp_all add: capture_def)
  moreover have "c \<noteq> q" using assms(1) Cons by auto
  ultimately show ?thesis
    by (simp add: Cons match_here.simps(2,7) del: match_here.simps(6))
qed (use assms in simp)

text \<open>Where a literal can begin.\<close>

lemma prefix_before:
  assumes "prefix l (y @ c # z)" "c \<notin> set l"
  shows "prefix l y"
proof -
  have "prefix y (y @ c # z)" by simp
  with assms(1) consider "prefix l y" | "prefix y l" using prefix_same_cases by blast
  then show ?thesis
  proof cases
    case 2
    then obtain w where w: "l = y @ w" by (rule prefixE)
    with assms show ?thesis by (cases w) auto
  qed
qed

lemma re_search_first_literal:
  assumes "\<not> sublist l (pre @ butlast l)" "l \<noteq> []" "match_here (map Lit l @ p) False [] (l @ s) = Some g"
  shows "re_search (map Lit l @ p) (pre @ l @ s) = Some g"
proof (rule re_search_leftmost [OF assms(3)])
  fix zs ys
  assume ys: "pre = zs @ ys" "ys \<noteq> []"
  have "\<not> prefix l (ys @ l @ s)"
  proof
    assume "prefix l (ys @ l @ s)"
    moreover have "ys @ l @ s = (ys @ butlast l) @ last l # s" using assms(2) by simp
    moreover have "length l \<le> length (ys @ butlast l)" using ys(2) assms(2) by (cases ys) auto
    ultimately have "prefix l (ys @ butlast l)" by (metis prefix_length_prefix prefixI)
    then have "sublist l (zs @ ys @ butlast l)" by (auto elim!: prefixE simp: sublist_def)
    with ys assms(1) show False by simp
  qed
  then show "match_here (map Lit l @ p) False [] (ys @ l @ s) = None" by (simp add: match_literal)
qed

end
