(* ===== verification/AuditLog.thy ===== *)
theory AuditLog imports PyJson PyRe begin

text \<open>
  The first part of \<^verbatim>\<open>audit/audit.py\<close>: its configuration, the Loki query that every check starts
  from, the extraction of a field from a Keycloak event line, and the time of day of a log entry.
  Each \<open>print\<close> of the program is one constructor of \<open>report\<close> with the values it prints.
\<close>

section \<open>What the program prints\<close>

datatype check = CHECK1 | CHECK2 | CHECK3

text \<open>The two messages that go to \<open>sys.stderr\<close>, and the lines; everything but \<open>Stderr\<close> is standard output.\<close>

datatype diagnostic = Query_failed string | Limit_reached int

datatype report =
    Query string
  | Stderr diagnostic
  | Fetched nat
  | Check_header check
  | User_jtis nat
  | Downstream_jtis nat
  | Bypass_found nat
  | Bypass_jti key
  | Bypass_user_facing json json string
  | Bypass_downstream json json string
  | No_overlap
  | Pairs_seen nat
  | Pairs_confirmed int
  | No_record_found nat
  | No_record "json \<times> json" json json json json string
  | Sub_mismatch_found nat
  | Sub_mismatch "json \<times> json" json string string
  | No_downstream_access
  | All_exchanged
  | Subs_seen nat
  | Logins_confirmed int
  | No_login_found nat
  | No_login key string json
  | Early_access_found nat
  | Early_access key string string json
  | No_access
  | All_logged_in
  | Rule
  | Report_title
  | Report_loki string
  | Report_period int int int
  | Overall bool bool bool
  | Conclusion bool

section \<open>Configuration\<close>

record audit_config =
  LOKI_URL :: string
  WINDOW_SECONDS :: int
  EXCHANGE_LOOKBACK_SECONDS :: int

text \<open>
  The module-level assignments: a setting that is not a number stops the program at import.
  \<open>int\<close> refuses strings with more than 4300 digits.
\<close>

definition int_setting :: "string \<Rightarrow> exn + int" where
  "int_setting s = (if 4300 < length (filter is_digit s) then Inl ValueError else int_of_str s)"

definition environ_get :: "(string \<Rightarrow> string option) \<Rightarrow> string \<Rightarrow> string \<Rightarrow> string" where
  "environ_get environ k dflt = (case environ k of None \<Rightarrow> dflt | Some v \<Rightarrow> v)"

definition audit_settings :: "(string \<Rightarrow> string option) \<Rightarrow> exn + audit_config" where
  "audit_settings environ =
     ebind (int_setting (environ_get environ ''AUDIT_WINDOW_SECONDS'' ''3600'')) (\<lambda>window.
     ebind (int_setting (environ_get environ ''AUDIT_EXCHANGE_LOOKBACK_SECONDS'' ''300'')) (\<lambda>lookback.
     Inr \<lparr>LOKI_URL = environ_get environ ''LOKI_URL'' ''http://otel-lgtm:3100'',
          WINDOW_SECONDS = window, EXCHANGE_LOOKBACK_SECONDS = lookback\<rparr>))"

definition USER_FACING_SERVICES :: string where
  "USER_FACING_SERVICES = ''frontend|order-service''"

definition DOWNSTREAM_SERVICES :: string where
  "DOWNSTREAM_SERVICES = ''inventory-service|warehouse-service|employee-service''"

definition EXCHANGED_TOKEN_SERVICES :: string where
  "EXCHANGED_TOKEN_SERVICES = ''order-service|inventory-service|warehouse-service|employee-service''"

section \<open>Loki\<close>

text \<open>
  The request of \<open>requests.get\<close>, and what comes of it with \<open>raise_for_status\<close> and \<open>json\<close>: a
  \<open>RequestException\<close>, a body that is not JSON, or the decoded body.
\<close>

record loki_request =
  lr_url :: string
  lr_query :: string
  lr_start :: int
  lr_end :: int
  lr_limit :: int

datatype loki_reply = Request_failed string | Body_not_json | Body json

type_synonym loki = "loki_request \<Rightarrow> loki_reply"

text \<open>One line of a stream: JSON when it parses, else wrapped; the two defaults are added.\<close>

definition parse_line :: "json \<Rightarrow> exn + json" where
  "parse_line line =
     (case line of
        JStr s \<Rightarrow> (case json_loads s of
            Inl JSONDecodeError \<Rightarrow> Inr (JObj [(''_raw'', line)])
          | r \<Rightarrow> r)
      | _ \<Rightarrow> Inl TypeError)"

definition as_dict :: "json \<Rightarrow> exn + dict" where
  "as_dict v = (case v of JObj d \<Rightarrow> Inr d | _ \<Rightarrow> Inl AttributeError)"

definition setdefault :: "dict \<Rightarrow> string \<Rightarrow> json \<Rightarrow> dict" where
  "setdefault d k v = (case map_of d k of None \<Rightarrow> d @ [(k, v)] | Some _ \<Rightarrow> d)"

definition read_entry :: "json \<Rightarrow> json \<Rightarrow> exn + dict" where
  "read_entry labels value =
     ebind (py_unpack2 value) (\<lambda>(ts_ns, line).
     ebind (parse_line line) (\<lambda>v.
     ebind (as_dict v) (\<lambda>parsed.
     ebind (py_int ts_ns) (\<lambda>ts.
     let parsed = setdefault parsed ''_ts_ns'' (JInt ts) in
     ebind (py_get labels ''service'' (JStr [])) (\<lambda>service.
     Inr (setdefault parsed ''_service'' service))))))"

definition read_stream :: "json \<Rightarrow> dict list \<Rightarrow> exn + dict list" where
  "read_stream stream entries =
     ebind (py_get stream ''stream'' (JObj [])) (\<lambda>labels.
     ebind (py_get stream ''values'' (JArr [])) (\<lambda>values.
     ebind (py_iter values) (\<lambda>vs.
     efold (\<lambda>v entries. ebind (read_entry labels v) (\<lambda>e. Inr (entries @ [e]))) vs entries)))"

definition read_body :: "json \<Rightarrow> exn + dict list" where
  "read_body body =
     ebind (py_get body ''data'' (JObj [])) (\<lambda>data.
     ebind (py_get data ''result'' (JArr [])) (\<lambda>result.
     ebind (py_iter result) (\<lambda>streams.
     efold read_stream streams [])))"

definition loki_query :: "audit_config \<Rightarrow> string \<Rightarrow> int \<Rightarrow> int \<Rightarrow> int \<Rightarrow> loki_request" where
  "loki_query cfg logql start_ns end_ns limit =
     \<lparr>lr_url = LOKI_URL cfg @ ''/loki/api/v1/query_range'', lr_query = logql, lr_start = start_ns,
      lr_end = end_ns, lr_limit = limit\<rparr>"

definition query_loki ::
  "audit_config \<Rightarrow> loki \<Rightarrow> string \<Rightarrow> int \<Rightarrow> int \<Rightarrow> int \<Rightarrow> (report, dict list) run" where
  "query_loki cfg loki logql start_ns end_ns limit =
     wthen (emit (Query logql))
     (case loki (loki_query cfg logql start_ns end_ns limit) of
        Request_failed e \<Rightarrow> wthen (emit (Stderr (Query_failed e))) (ret [])
      | Body_not_json \<Rightarrow> lift_exn (Inl JSONDecodeError)
      | Body body \<Rightarrow>
          wbind (lift_exn (read_body body)) (\<lambda>entries.
          wthen (emit (Fetched (length entries)))
          (wthen (when_run (limit \<le> int (length entries)) (emit (Stderr (Limit_reached limit))))
          (ret entries))))"

text \<open>The default of \<open>limit\<close>, which every call of the program uses.\<close>

definition default_limit :: int where
  "default_limit = 5000"

section \<open>A field of an event line\<close>

text \<open>
  \<open>re.search(rf'{re.escape(key)}="?([^",]*)"?', line)\<close>; an absent field and an empty value are
  both \<open>None\<close>.
\<close>

definition field_pattern :: "string \<Rightarrow> re_item list" where
  "field_pattern key =
     map Lit key @ [Lit (CHR ''=''), Opt (CHR 0x22), Open, Star_not [CHR 0x22, CHR '',''], Close, Opt (CHR 0x22)]"

definition kv_extract :: "string \<Rightarrow> string \<Rightarrow> string option" where
  "kv_extract line key =
     (case re_search (field_pattern key) line of
        None \<Rightarrow> None
      | Some v \<Rightarrow> if v = [] then None else Some v)"

text \<open>The same on a value of unknown type: \<open>re.search\<close> takes a string.\<close>

definition kv_extract_from :: "json \<Rightarrow> string \<Rightarrow> exn + string option" where
  "kv_extract_from raw key = (case raw of JStr line \<Rightarrow> Inr (kv_extract line key) | _ \<Rightarrow> Inl TypeError)"

section \<open>Time of day\<close>

text \<open>
  \<open>datetime.fromtimestamp(ns / 1e9, tz=utc).strftime("%H:%M:%S")\<close>: rounded to the microsecond, half to
  even; the years 1 to 9999 (beyond 2^55 seconds the C library decides which exception it is).
\<close>

definition round_half_even :: "rat \<Rightarrow> int" where
  "round_half_even q =
     (let f = \<lfloor>q\<rfloor>; d = q - of_int f
      in if d < 1/2 then f else if 1/2 < d then f + 1 else if even f then f else f + 1)"

definition two_digits :: "int \<Rightarrow> string" where
  "two_digits i = [digit_char (nat (i div 10)), digit_char (nat (i mod 10))]"

definition clock_time :: "rat \<Rightarrow> exn + string" where
  "clock_time t =
     (let s = round_half_even (t * 1000000) div 1000000
      in if - 62135596800 \<le> s \<and> s \<le> 253402300799
         then Inr (two_digits (s div 3600 mod 24) @ '':'' @ two_digits (s div 60 mod 60) @ '':'' @ two_digits (s mod 60))
         else if \<bar>s\<bar> < 2 ^ 55 then Inl ValueError else Inl OutOfModel)"

fun ts_str :: "json \<Rightarrow> exn + string" where
  "ts_str (JFloat NaN) = Inl ValueError"
| "ts_str (JFloat PosInf) = Inl OverflowError"
| "ts_str (JFloat NegInf) = Inl OverflowError"
| "ts_str v = (case num_val v of None \<Rightarrow> Inl TypeError | Some ns \<Rightarrow> clock_time (ns / 1000000000))"

section \<open>Event lines\<close>

text \<open>
  A Keycloak event as it is logged: fields \<open>name="value"\<close>, separated by a comma and a space.
\<close>

definition name_char :: "char \<Rightarrow> bool" where
  "name_char c \<longleftrightarrow> c \<notin> {CHR ''='', CHR 0x22, CHR '','', CHR '' ''}"

definition value_char :: "char \<Rightarrow> bool" where
  "value_char c \<longleftrightarrow> c \<notin> {CHR ''='', CHR 0x22, CHR '',''}"

definition event_field :: "string \<times> string \<Rightarrow> string" where
  "event_field kv = fst kv @ CHR ''='' # CHR 0x22 # snd kv @ [CHR 0x22, CHR '','', CHR '' '']"

definition event_line :: "(string \<times> string) list \<Rightarrow> string" where
  "event_line kvs = concat (map event_field kvs)"

definition event_fields_ok :: "(string \<times> string) list \<Rightarrow> bool" where
  "event_fields_ok kvs \<longleftrightarrow> list_all (\<lambda>(k, v). list_all name_char k \<and> list_all value_char v) kvs"

lemma field_pattern_tail: "never_fails [Close, Opt c]"
  by (auto simp: never_fails_def split: list.splits)

lemma match_field:
  "match_here (field_pattern key) False [] s =
     (if prefix (key @ [CHR ''='']) s
      then Some (takeWhile (\<lambda>x. x \<noteq> CHR 0x22 \<and> x \<noteq> CHR '','')
             (let r = drop (Suc (length key)) s in if r \<noteq> [] \<and> hd r = CHR 0x22 then tl r else r))
      else None)"
proof -
  let ?tail = "[Open, Star_not [CHR 0x22, CHR '',''], Close, Opt (CHR 0x22)]"
  have opt: "match_here [Close, Opt (CHR 0x22)] b g s = Some g" for b g s
    by (auto simp: capture_def split: list.splits)
  have tail: "match_here ?tail b g s = Some (takeWhile (\<lambda>x. x \<noteq> CHR 0x22 \<and> x \<noteq> CHR '','') s)" for b g s
    unfolding match_here.simps(2) match_star_greedy [OF field_pattern_tail] opt by simp
  have quote: "match_here (Opt (CHR 0x22) # ?tail) b g r =
      Some (takeWhile (\<lambda>x. x \<noteq> CHR 0x22 \<and> x \<noteq> CHR '','') (if r \<noteq> [] \<and> hd r = CHR 0x22 then tl r else r))" for b g r
    by (cases r) (simp_all only: match_here.simps(5) tail list.case, simp_all)
  have pat: "field_pattern key = map Lit (key @ [CHR ''='']) @ Opt (CHR 0x22) # ?tail"
    by (simp add: field_pattern_def)
  show ?thesis
    unfolding pat match_literal quote by (simp add: Let_def)
qed


text \<open>The first character after a name is decisive: the name ends at the equals sign.\<close>

lemma name_prefix_iff:
  assumes "list_all name_char key"
  shows "prefix (key @ [CHR ''='']) s \<longleftrightarrow>
    takeWhile (\<lambda>c. c \<noteq> CHR ''='') s = key \<and> CHR ''='' \<in> set s"
proof
  assume "prefix (key @ [CHR ''='']) s"
  then obtain r where "s = key @ CHR ''='' # r" by (auto simp: prefix_def)
  moreover have "c \<noteq> CHR ''=''" if "c \<in> set key" for c
    using assms that by (auto simp: list_all_iff name_char_def)
  ultimately show "takeWhile (\<lambda>c. c \<noteq> CHR ''='') s = key \<and> CHR ''='' \<in> set s"
    by (simp add: takeWhile_append2)
next
  assume s: "takeWhile (\<lambda>c. c \<noteq> CHR ''='') s = key \<and> CHR ''='' \<in> set s"
  then have "dropWhile (\<lambda>c. c \<noteq> CHR ''='') s \<noteq> []" by (simp add: dropWhile_eq_Nil_conv)
  then obtain x xs where d: "dropWhile (\<lambda>c. c \<noteq> CHR ''='') s = x # xs" by (meson list.exhaust)
  then have "s = key @ CHR ''='' # xs" using s by (simp add: dropWhile_eq_Cons_conv)
  then show "prefix (key @ [CHR ''='']) s" by simp
qed

lemma re_search_skip:
  "(\<And>zs ys. pre = zs @ ys \<Longrightarrow> ys \<noteq> [] \<Longrightarrow> match_here p False [] (ys @ s) = None) \<Longrightarrow>
     re_search p (pre @ s) = re_search p s"
proof (induction pre)
  case (Cons c pre)
  have "match_here p False [] (c # pre @ s) = None" using Cons.prems [of "[]" "c # pre"] by simp
  moreover have "re_search p (pre @ s) = re_search p s"
    using Cons.prems by (intro Cons.IH) (metis append_Cons)
  ultimately show ?case by simp
qed simp

lemma re_search_here: "match_here p False [] s = Some g \<Longrightarrow> re_search p s = Some g"
  by (cases s) auto

text \<open>No match starts inside a field whose name does not end in the key.\<close>

lemma no_match_in_field:
  assumes "list_all name_char key" "key \<noteq> []" "list_all name_char k" "list_all value_char v"
    and "event_field (k, v) = zs @ ys" "ys \<noteq> []" "\<not> suffix key k"
  shows "match_here (field_pattern key) False [] (ys @ r) = None"
proof (rule ccontr)
  assume "match_here (field_pattern key) False [] (ys @ r) \<noteq> None"
  then have key: "takeWhile (\<lambda>c. c \<noteq> CHR ''='') (ys @ r) = key"
    using name_prefix_iff [OF assms(1), of "ys @ r"] by (auto simp: match_field split: if_splits)
  have no: "CHR 0x22 \<notin> set key" "CHR '','' \<notin> set key" "CHR '' '' \<notin> set key"
    using assms(1) by (auto simp: list_all_iff name_char_def)
  let ?rest = "CHR 0x22 # v @ [CHR 0x22, CHR '','', CHR '' '']"
  have "k @ CHR ''='' # ?rest = zs @ ys" using assms(5) by (simp add: event_field_def)
  then consider k2 where "ys = k2 @ CHR ''='' # ?rest" "k = zs @ k2"
    | z where "CHR ''='' # ?rest = z @ ys" "zs = k @ z"
    by (auto simp: append_eq_append_conv2)
  then show False
  proof cases
    case 1
    then have "CHR ''='' \<notin> set k2" using assms(3) by (auto simp: list_all_iff name_char_def)
    then have "takeWhile (\<lambda>c. c \<noteq> CHR ''='') (ys @ r) = k2" using 1(1) by (auto intro!: takeWhile_prefix_id)
    with key 1(2) assms(7) show False by (simp add: suffix_def)
  next
    case 2
    show False
    proof (cases z)
      case Nil
      with 2 key assms(2) show False by auto
    next
      case (Cons x z')
      with 2 have rest: "?rest = z' @ ys" by simp
      have "CHR ''='' \<notin> set (z' @ ys)"
        unfolding rest [symmetric] using assms(4) by (auto simp: list_all_iff value_char_def)
      then have "takeWhile (\<lambda>c. c \<noteq> CHR ''='') (ys @ r) = ys @ takeWhile (\<lambda>c. c \<noteq> CHR ''='') r"
        by (intro takeWhile_append2) auto
      then have "set ys \<subseteq> set key" using key by auto
      moreover have "last (z' @ ys) = CHR '' ''" unfolding rest [symmetric] by simp
      then have "CHR '' '' \<in> set ys" using assms(6) by (metis last_appendR last_in_set)
      ultimately have "CHR '' '' \<in> set key" by blast
      with no show False by simp
    qed
  qed
qed


lemma search_event_line:
  assumes "list_all name_char key" "key \<noteq> []" "event_fields_ok kvs"
  shows "re_search (field_pattern key) (event_line kvs) = map_option snd (find (\<lambda>kv. suffix key (fst kv)) kvs)"
  using assms(3)
proof (induction kvs)
  case Nil
  then show ?case using assms(2) by (simp add: event_line_def match_field)
next
  case (Cons kv kvs)
  obtain k v where kv: "kv = (k, v)" by (cases kv)
  with Cons.prems have ok: "list_all name_char k" "list_all value_char v" "event_fields_ok kvs"
    by (simp_all add: event_fields_ok_def)
  let ?r = "event_line kvs"
  have line: "event_line (kv # kvs) = event_field (k, v) @ ?r" by (simp add: event_line_def kv)
  show ?case
  proof (cases "suffix key k")
    case False
    have "re_search (field_pattern key) (event_field (k, v) @ ?r) = re_search (field_pattern key) ?r"
      using no_match_in_field [OF assms(1,2) ok(1,2)] False by (intro re_search_skip) blast
    with False show ?thesis unfolding line by (simp add: kv Cons.IH [OF ok(3)])
  next
    case True
    then obtain z where z: "k = z @ key" by (auto simp: suffix_def)
    let ?s = "key @ CHR ''='' # CHR 0x22 # v @ CHR 0x22 # CHR '','' # CHR '' '' # ?r"
    have "takeWhile (\<lambda>x. x \<noteq> CHR 0x22 \<and> x \<noteq> CHR '','') (v @ CHR 0x22 # CHR '','' # CHR '' '' # ?r) = v"
      using ok(2) by (intro takeWhile_prefix_id) (auto simp: list_all_iff value_char_def)
    then have here: "match_here (field_pattern key) False [] ?s = Some v"
      unfolding match_field by simp
    have noeq: "CHR ''='' \<notin> set k" using ok(1) by (auto simp: list_all_iff name_char_def)
    have "match_here (field_pattern key) False [] (ys @ ?s) = None" if "z = zs @ ys" "ys \<noteq> []" for zs ys
    proof -
      have "takeWhile (\<lambda>c. c \<noteq> CHR ''='') ((ys @ key) @ CHR ''='' # CHR 0x22 # v @ CHR 0x22 # CHR '','' # CHR '' '' # ?r) = ys @ key"
        using noeq z that(1) by (intro takeWhile_prefix_id) auto
      with that(2) show ?thesis by (simp add: match_field name_prefix_iff [OF assms(1)])
    qed
    then have "re_search (field_pattern key) (z @ ?s) = re_search (field_pattern key) ?s"
      by (intro re_search_skip) blast
    with re_search_here [OF here] True show ?thesis unfolding line by (simp add: event_field_def z kv)
  qed
qed

lemma kv_extract_event_line:
  "list_all name_char key \<Longrightarrow> key \<noteq> [] \<Longrightarrow> event_fields_ok kvs \<Longrightarrow>
     kv_extract (event_line kvs) key =
       (case find (\<lambda>kv. suffix key (fst kv)) kvs of
          Some (k, v) \<Rightarrow> if v = [] then None else Some v
        | None \<Rightarrow> None)"
  by (simp add: kv_extract_def search_event_line split: option.splits)

section \<open>A reply of Loki\<close>

text \<open>
  The body of a successful range query: per stream the label \<open>service\<close> and the pairs of time stamp
  (a string of digits) and line. A line can be read when it is a JSON object or no JSON at all.
\<close>

definition stream_json :: "string \<times> (int \<times> string) list \<Rightarrow> json" where
  "stream_json sv = JObj
     [(''stream'', JObj [(''service'', JStr (fst sv))]),
      (''values'', JArr (map (\<lambda>tln. JArr [JStr (string_of_int (fst tln)), JStr (snd tln)]) (snd sv)))]"

definition loki_body :: "(string \<times> (int \<times> string) list) list \<Rightarrow> json" where
  "loki_body streams = JObj
     [(''status'', JStr ''success''),
      (''data'', JObj [(''resultType'', JStr ''streams''), (''result'', JArr (map stream_json streams))])]"

definition readable_line :: "string \<Rightarrow> bool" where
  "readable_line line \<longleftrightarrow>
     (case json_loads line of Inr (JObj d) \<Rightarrow> True | Inl JSONDecodeError \<Rightarrow> True | _ \<Rightarrow> False)"

definition line_fields :: "string \<Rightarrow> dict" where
  "line_fields line = (case json_loads line of Inr (JObj d) \<Rightarrow> d | _ \<Rightarrow> [(''_raw'', JStr line)])"

definition entry_of :: "string \<Rightarrow> int \<times> string \<Rightarrow> dict" where
  "entry_of service tln =
     setdefault (setdefault (line_fields (snd tln)) ''_ts_ns'' (JInt (fst tln))) ''_service'' (JStr service)"

lemma map_of_setdefault:
  "map_of (setdefault d k v) = (if map_of d k = None then (map_of d)(k \<mapsto> v) else map_of d)"
  by (auto simp: setdefault_def map_add_def split: option.splits)

lemma read_entry_ok:
  assumes "readable_line (snd tln)"
  shows "read_entry (JObj [(''service'', JStr s)]) (JArr [JStr (string_of_int (fst tln)), JStr (snd tln)]) =
    Inr (entry_of s tln)"
proof -
  have "ebind (parse_line (JStr (snd tln))) as_dict = Inr (line_fields (snd tln))"
    using assms by (auto simp: parse_line_def as_dict_def readable_line_def line_fields_def
        split: sum.splits exn.splits json.splits)
  then obtain v where "parse_line (JStr (snd tln)) = Inr v" "as_dict v = Inr (line_fields (snd tln))"
    by (auto simp: raises)
  then show ?thesis
    by (simp add: read_entry_def py_unpack2_def int_of_str_string_of_int entry_of_def Let_def)
qed

lemma read_values_ok:
  "(\<And>tln. tln \<in> set tlns \<Longrightarrow> readable_line (snd tln)) \<Longrightarrow>
     efold (\<lambda>v es. ebind (read_entry (JObj [(''service'', JStr s)]) v) (\<lambda>e. Inr (es @ [e])))
       (map (\<lambda>tln. JArr [JStr (string_of_int (fst tln)), JStr (snd tln)]) tlns) es = Inr (es @ map (entry_of s) tlns)"
  by (induction tlns arbitrary: es) (simp_all add: read_entry_ok)

lemma read_stream_ok:
  "(\<And>tln. tln \<in> set (snd sv) \<Longrightarrow> readable_line (snd tln)) \<Longrightarrow>
     read_stream (stream_json sv) es = Inr (es @ map (entry_of (fst sv)) (snd sv))"
  by (simp add: read_stream_def stream_json_def read_values_ok)

lemma read_body_ok:
  assumes "\<And>sv tln. sv \<in> set streams \<Longrightarrow> tln \<in> set (snd sv) \<Longrightarrow> readable_line (snd tln)"
  shows "read_body (loki_body streams) = Inr (concat (map (\<lambda>sv. map (entry_of (fst sv)) (snd sv)) streams))"
proof -
  have "efold read_stream (map stream_json streams) es =
      Inr (es @ concat (map (\<lambda>sv. map (entry_of (fst sv)) (snd sv)) streams))" for es
    using assms
  proof (induction streams arbitrary: es)
    case (Cons sv streams)
    have "read_stream (stream_json sv) es = Inr (es @ map (entry_of (fst sv)) (snd sv))"
      by (rule read_stream_ok) (rule Cons.prems [of sv], simp_all)
    moreover have "efold read_stream (map stream_json streams) es' =
        Inr (es' @ concat (map (\<lambda>sv. map (entry_of (fst sv)) (snd sv)) streams))" for es'
      by (rule Cons.IH) (rule Cons.prems, simp_all)
    ultimately show ?case by simp
  qed simp
  then show ?thesis by (simp add: read_body_def loki_body_def)
qed

text \<open>Every entry has the two added members.\<close>

definition entry_complete :: "dict \<Rightarrow> bool" where
  "entry_complete e \<longleftrightarrow> map_of e ''_ts_ns'' \<noteq> None \<and> map_of e ''_service'' \<noteq> None"

lemma read_entry_complete: "read_entry labels v = Inr e \<Longrightarrow> entry_complete e"
  by (auto simp: read_entry_def raises entry_complete_def map_of_setdefault Let_def split: prod.splits)

lemma read_body_complete:
  assumes "read_body b = Inr es" "e \<in> set es"
  shows "entry_complete e"
proof -
  have stream: "\<forall>e \<in> set es'. entry_complete e"
    if "read_stream s es = Inr es'" "\<forall>e \<in> set es. entry_complete e" for s es es'
  proof -
    from that(1) obtain labels vs where
      "efold (\<lambda>v es. ebind (read_entry labels v) (\<lambda>e. Inr (es @ [e]))) vs es = Inr es'"
      by (auto simp: read_stream_def ebind_Inr_iff)
    then show ?thesis
      by (rule efold_invariant) (use that(2) in \<open>auto simp: ebind_Inr_iff dest: read_entry_complete\<close>)
  qed
  from assms(1) obtain streams where "efold read_stream streams [] = Inr es"
    by (auto simp: read_body_def raises)
  then have "\<forall>e \<in> set es. entry_complete e"
    by (rule efold_invariant) (use stream in auto)
  with assms(2) show ?thesis by blast
qed

section \<open>The outcome of a query\<close>

lemma query_loki_outcome:
  "outcome (query_loki cfg loki q s e l) =
     (case loki (loki_query cfg q s e l) of
        Request_failed m \<Rightarrow> Inr [] | Body_not_json \<Rightarrow> Inl JSONDecodeError | Body b \<Rightarrow> read_body b)"
  by (simp add: query_loki_def run_simps cong: if_cong split: loki_reply.splits)

lemma query_loki_complete:
  "outcome (query_loki cfg loki q s e l) = Inr es \<Longrightarrow> d \<in> set es \<Longrightarrow> entry_complete d"
  by (auto simp: query_loki_outcome split: loki_reply.splits dest: read_body_complete)

section \<open>The time of day is always printable\<close>

definition plausible_time :: "int \<Rightarrow> bool" where
  "plausible_time ns \<longleftrightarrow> 0 \<le> ns \<and> ns < 2 ^ 63"

lemma round_half_even_bounds: "\<lfloor>q\<rfloor> \<le> round_half_even q \<and> round_half_even q \<le> \<lfloor>q\<rfloor> + 1"
  by (simp add: round_half_even_def Let_def)

lemma clock_time_ok:
  assumes "0 \<le> t" "t < 253402300799"
  shows "\<exists>s. clock_time t = Inr s"
proof -
  let ?r = "round_half_even (t * 1000000)"
  have f: "0 \<le> \<lfloor>t * 1000000\<rfloor>" "\<lfloor>t * 1000000\<rfloor> \<le> 253402300799 * 1000000"
    using assms by (simp_all add: floor_le_iff)
  then have r: "0 \<le> ?r" "?r \<le> 253402300799 * 1000000 + 1"
    using round_half_even_bounds [of "t * 1000000"] by linarith+
  then have "0 \<le> ?r div 1000000" "?r div 1000000 \<le> (253402300799 * 1000000 + 1) div 1000000"
    by (simp_all add: pos_imp_zdiv_nonneg_iff zdiv_mono1)
  then show ?thesis by (simp add: clock_time_def Let_def)
qed

lemma ts_str_ok: "plausible_time ns \<Longrightarrow> \<exists>s. ts_str (JInt ns) = Inr s"
proof -
  assume p: "plausible_time ns"
  have "(of_int ns :: rat) < of_int (2 ^ 63)" using p unfolding plausible_time_def of_int_less_iff by simp
  then have "of_int ns / 1000000000 < (253402300799 :: rat)" by simp
  then show ?thesis using p clock_time_ok [of "of_int ns / 1000000000"] by (simp add: plausible_time_def)
qed

section \<open>Properties\<close>

text \<open>
  C39: \<open>kv_extract\<close> on an event line: the value of the first field whose name ends in the key (the
  pattern has no left boundary), and \<open>None\<close> when there is no such field or its value is empty.
\<close>

theorem kv_extract_first_matching_field:
  assumes "list_all name_char key" "key \<noteq> []" "event_fields_ok kvs"
  shows "kv_extract (event_line kvs) key =
    (case find (\<lambda>kv. suffix key (fst kv)) kvs of
       Some (k, v) \<Rightarrow> if v = [] then None else Some v
     | None \<Rightarrow> None)"
  by (rule kv_extract_event_line [OF assms])

theorem kv_extract_first_matching_field_witness:
  "kv_extract (event_line [(''type'', ''TOKEN_EXCHANGE''), (''audience'', ''inventory-service''),
       (''token_id'', ''ntrtte:6ff3''), (''userId'', ''u1'')]) ''token_id'' = Some ''ntrtte:6ff3''"
  by (subst kv_extract_first_matching_field)
    (simp_all add: name_char_def event_fields_ok_def value_char_def suffix_def)

text \<open>
  C32: A successful query loses no line and keeps their order: every line of every stream becomes one
  entry, the line's JSON object or a wrapped raw line, completed with its time stamp and service.
\<close>

theorem query_loki_reads_every_line:
  assumes "loki (loki_query cfg q s e l) = Body (loki_body streams)"
    and "list_all (\<lambda>sv. list_all (\<lambda>tln. readable_line (snd tln)) (snd sv)) streams"
  shows "outcome (query_loki cfg loki q s e l) =
    Inr (concat (map (\<lambda>sv. map (entry_of (fst sv)) (snd sv)) streams))"
  using read_body_ok [of streams] assms(2) by (auto simp: query_loki_outcome assms(1) list_all_iff)

definition sample_config :: audit_config where
  "sample_config = \<lparr>LOKI_URL = ''http://l'', WINDOW_SECONDS = 3600, EXCHANGE_LOOKBACK_SECONDS = 300\<rparr>"

theorem query_loki_reads_every_line_witness:
  "outcome (query_loki sample_config (\<lambda>r. Body (loki_body [(''frontend'', [(7, ''hello''), (9, ''x'')])])) ''q'' 0 1 2) =
    Inr [entry_of ''frontend'' (7, ''hello''), entry_of ''frontend'' (9, ''x'')]"
proof -
  have "json_loads ''hello'' = Inl JSONDecodeError" "json_loads ''x'' = Inl JSONDecodeError" by code_simp+
  then show ?thesis
    by (subst query_loki_reads_every_line [of _ _ _ _ _ _ "[(''frontend'', [(7, ''hello''), (9, ''x'')])]"])
      (simp_all add: readable_line_def)
qed

text \<open>
  C33: Every entry that a query returns has a time stamp and a service, whatever Loki answered.
\<close>

theorem query_loki_entries_complete:
  assumes "outcome (query_loki cfg loki q s e l) = Inr es" "d \<in> set es"
  shows "map_of d ''_ts_ns'' \<noteq> None \<and> map_of d ''_service'' \<noteq> None"
  using query_loki_complete [OF assms] by (simp add: entry_complete_def)

theorem query_loki_entries_complete_witness:
  "map_of (entry_of ''frontend'' (7, ''hello'')) ''_ts_ns'' \<noteq> None \<and>
   map_of (entry_of ''frontend'' (7, ''hello'')) ''_service'' \<noteq> None"
proof (rule query_loki_entries_complete)
  have "json_loads ''hello'' = Inl JSONDecodeError" by code_simp
  then have "readable_line ''hello''" by (simp add: readable_line_def)
  then show "outcome (query_loki sample_config (\<lambda>r. Body (loki_body [(''frontend'', [(7, ''hello'')])])) ''q'' 0 1 2) =
      Inr [entry_of ''frontend'' (7, ''hello'')]"
    using read_body_ok [of "[(''frontend'', [(7, ''hello'')])]"] by (simp add: query_loki_outcome)
qed simp

text \<open>What a query writes to \<open>stderr\<close>.\<close>

definition stderr_of :: "report list \<Rightarrow> diagnostic list" where
  "stderr_of out = concat (map (\<lambda>r. case r of Stderr d \<Rightarrow> [d] | _ \<Rightarrow> []) out)"

lemma stderr_simps [simp]:
  "stderr_of [] = []" "stderr_of (Stderr d # out) = d # stderr_of out" "stderr_of (xs @ ys) = stderr_of xs @ stderr_of ys"
  by (simp_all add: stderr_of_def)

text \<open>Every branch of a query.\<close>

lemma query_loki_run:
  "query_loki cfg loki q s e l =
     (case loki (loki_query cfg q s e l) of
        Request_failed m \<Rightarrow> ([Query q, Stderr (Query_failed m)], Inr [])
      | Body_not_json \<Rightarrow> ([Query q], Inl JSONDecodeError)
      | Body b \<Rightarrow> (case read_body b of
            Inl x \<Rightarrow> ([Query q], Inl x)
          | Inr es \<Rightarrow>
              ([Query q, Fetched (length es)] @ (if l \<le> int (length es) then [Stderr (Limit_reached l)] else []), Inr es)))"
  by (rule prod_eqI) (auto simp: query_loki_def run_simps split: loki_reply.splits sum.splits)

lemma query_loki_warns:
  assumes "outcome (query_loki cfg loki q s e l) = Inr es" "0 < l"
  shows "count_list (stderr_of (printed (query_loki cfg loki q s e l))) (Limit_reached l) =
    (if l \<le> int (length es) then 1 else 0)"
  using assms by (auto simp: query_loki_run stderr_of_def split: loki_reply.splits sum.splits)

section \<open>Settings\<close>

definition numeral_char :: "char \<Rightarrow> bool" where
  "numeral_char c \<longleftrightarrow> is_digit c \<or> is_space c \<or> c \<in> {CHR ''+'', CHR ''-'', CHR ''_''}"

lemma set_str_split: "set s \<subseteq> insert c (\<Union> (set ` set (str_split c s)))"
proof -
  have "set (s @ [c]) \<subseteq> insert c (\<Union> (set ` set (str_split c s)))"
    using arg_cong [OF concat_str_split [of c s], of set, symmetric] by auto
  then show ?thesis by auto
qed

lemma digit_groups_numeral:
  assumes "list_all (\<lambda>g. g \<noteq> [] \<and> list_all is_digit g) (str_split (CHR ''_'') b)"
  shows "set b \<subseteq> {c. numeral_char c}"
proof
  fix c
  assume "c \<in> set b"
  then consider "c = CHR ''_''" | g where "g \<in> set (str_split (CHR ''_'') b)" "c \<in> set g"
    using set_str_split [of b "CHR ''_''"] by blast
  then show "c \<in> {c. numeral_char c}"
    using assms by cases (auto simp: numeral_char_def list_all_iff)
qed

lemma set_str_strip: "set s \<subseteq> set (str_strip s) \<union> {c. is_space c}"
proof -
  have "set xs \<subseteq> set (dropWhile P xs) \<union> {c. P c}" for P :: "char \<Rightarrow> bool" and xs
    by (induction xs) auto
  from this [of s is_space] this [of "rev (dropWhile is_space s)" is_space]
  show ?thesis unfolding str_strip_def set_rev by blast
qed

lemma int_of_str_chars:
  assumes "int_of_str s = Inr i"
  shows "s \<noteq> [] \<and> list_all numeral_char s"
proof -
  let ?t = "str_strip s"
  let ?body = "if ?t \<noteq> [] \<and> hd ?t \<in> set ''+-'' then tl ?t else ?t"
  have groups: "list_all (\<lambda>g. g \<noteq> [] \<and> list_all is_digit g) (str_split (CHR ''_'') ?body)"
  proof (rule ccontr)
    assume "\<not> ?thesis"
    then have "int_of_str s = Inl ValueError" unfolding int_of_str_def Let_def by (rule if_not_P)
    with assms show False by simp
  qed
  then have body: "set ?body \<subseteq> {c. numeral_char c}"
    by (rule digit_groups_numeral)
  have "set ?t \<subseteq> {c. numeral_char c}"
  proof (cases "?t \<noteq> [] \<and> hd ?t \<in> set ''+-''")
    case True
    then have "set ?t = insert (hd ?t) (set (tl ?t))" by (cases ?t) auto
    with True body show ?thesis by (auto simp: numeral_char_def)
  qed (use body in auto)
  then have "list_all numeral_char s"
    using set_str_strip [of s] by (auto simp: list_all_iff numeral_char_def)
  moreover have "s \<noteq> []" using groups by (auto simp: str_strip_def)
  ultimately show ?thesis by blast
qed

lemma int_of_str_raises: "int_of_str s = Inl e \<Longrightarrow> e = ValueError"
proof -
  have "(if b then Inr x else Inl v) = Inl e \<Longrightarrow> e = v" for b and x :: int and v
    by (simp split: if_splits)
  then show "int_of_str s = Inl e \<Longrightarrow> e = ValueError"
    unfolding int_of_str_def Let_def by blast
qed

lemma int_setting_string_of_int:
  "length (string_of_nat (nat \<bar>i\<bar>)) \<le> 4300 \<Longrightarrow> int_setting (string_of_int i) = Inr i"
proof -
  assume l: "length (string_of_nat (nat \<bar>i\<bar>)) \<le> 4300"
  have "filter is_digit (string_of_int i) = string_of_nat (nat \<bar>i\<bar>)"
    using string_of_nat_digits by (auto simp: string_of_int_def filter_id_conv is_digit_def)
  with l show ?thesis by (simp add: int_setting_def int_of_str_string_of_int)
qed

lemma int_setting_bad:
  assumes "v = [] \<or> \<not> list_all numeral_char v \<or> 4300 < length (filter is_digit v)"
  shows "int_setting v = Inl ValueError"
proof (cases "int_of_str v")
  case (Inl e)
  then show ?thesis using int_of_str_raises [OF Inl] by (simp add: int_setting_def)
next
  case (Inr i)
  with assms int_of_str_chars [OF Inr] show ?thesis by (auto simp: int_setting_def)
qed

lemma int_setting_raises: "int_setting v = Inl e \<Longrightarrow> e = ValueError"
  by (auto simp: int_setting_def dest: int_of_str_raises split: if_splits)

end
