(* ===== verification/KeyedLoop.thy ===== *)
theory KeyedLoop imports Prelude begin

text \<open>
  The loops of the audit that build a dict from a list of log entries: each entry is skipped or
  changes the value of one key. One interface covers them; its extensions say which entry wins.
\<close>

locale keyed_loop =
  fixes step :: "'e \<Rightarrow> ('k \<times> 'v) list \<Rightarrow> exn + ('k \<times> 'v) list"
    and key_of :: "'e \<Rightarrow> 'k option"
    and merge :: "'e \<Rightarrow> 'v option \<Rightarrow> 'v"
  assumes skipped: "step e d = Inr d' \<Longrightarrow> key_of e = None \<Longrightarrow> d' = d"
    and changed: "step e d = Inr d' \<Longrightarrow> key_of e = Some k \<Longrightarrow>
      map_of d' = (map_of d)(k \<mapsto> merge e (map_of d k))"
    and stays_dict: "step e d = Inr d' \<Longrightarrow> wf_dict d \<Longrightarrow> wf_dict d'"
begin

lemma lookup_step:
  "step e d = Inr d' \<Longrightarrow>
     map_of d' k = (if key_of e = Some k then Some (merge e (map_of d k)) else map_of d k)"
  by (cases "key_of e") (auto dest: skipped changed)

lemma loop_lookup:
  "efold step es d = Inr d' \<Longrightarrow>
     map_of d' k = foldl (\<lambda>v e. Some (merge e v)) (map_of d k) (filter (\<lambda>e. key_of e = Some k) es)"
proof (induction es arbitrary: d)
  case (Cons e es)
  then obtain d1 where "step e d = Inr d1" "efold step es d1 = Inr d'" by (auto simp: raises)
  with Cons.IH [of d1] lookup_step [of e d d1 k] show ?case by simp
qed simp

lemma loop_wf: "efold step es [] = Inr d \<Longrightarrow> wf_dict d"
  by (erule efold_invariant [where P = wf_dict]) (auto intro: stays_dict)

lemma foldl_merge_None_iff: "foldl (\<lambda>v e. Some (merge e v)) v es = None \<longleftrightarrow> es = [] \<and> v = None"
  by (induction es arbitrary: v) auto

lemma loop_dom: "efold step es [] = Inr d \<Longrightarrow> dom (map_of d) = {k. \<exists>e \<in> set es. key_of e = Some k}"
  using loop_lookup [of es "[]" d]
  by (auto simp: dom_def foldl_merge_None_iff filter_empty_conv simp flip: not_None_eq)

lemma loop_keys: "efold step es [] = Inr d \<Longrightarrow> fst ` set d = {k. \<exists>e \<in> set es. key_of e = Some k}"
  using loop_dom by (simp add: dict_keys_dom)

lemma loop_member:
  assumes "efold step es [] = Inr d"
  shows "(k, v) \<in> set d \<longleftrightarrow> foldl (\<lambda>v e. Some (merge e v)) None (filter (\<lambda>e. key_of e = Some k) es) = Some v"
  using wf_dict_mem_iff [OF loop_wf [OF assms], of k v] loop_lookup [OF assms, of k] by simp

end

text \<open>The last entry of a key wins (plain assignment).\<close>

locale last_wins = keyed_loop +
  fixes value_of
  assumes merge_last: "merge e v = value_of e"
begin

lemma lookup_last:
  assumes "efold step es [] = Inr d"
  shows "map_of d k = (case rev (filter (\<lambda>e. key_of e = Some k) es) of [] \<Rightarrow> None | e # _ \<Rightarrow> Some (value_of e))"
proof -
  have "foldl (\<lambda>v e. Some (merge e v)) v xs = (case rev xs of [] \<Rightarrow> v | e # _ \<Rightarrow> Some (value_of e))" for v xs
    by (induction xs rule: rev_induct) (simp_all add: merge_last)
  with loop_lookup [OF assms, of k] show ?thesis by simp
qed

lemma lookup_last_Some:
  "efold step es [] = Inr d \<Longrightarrow> map_of d k = Some v \<Longrightarrow> \<exists>e \<in> set es. key_of e = Some k \<and> v = value_of e"
proof -
  assume "efold step es [] = Inr d" "map_of d k = Some v"
  then obtain e r where e: "rev (filter (\<lambda>e. key_of e = Some k) es) = e # r" "v = value_of e"
    by (auto simp: lookup_last split: list.splits)
  then have "e \<in> set (rev (filter (\<lambda>e. key_of e = Some k) es))" by (simp only: list.set_intros)
  with e(2) show ?thesis by auto
qed

end

text \<open>The first entry of a key wins (assignment guarded by \<open>not in\<close>).\<close>

locale first_wins = keyed_loop +
  fixes value_of
  assumes merge_first: "merge e None = value_of e" and merge_again: "merge e (Some v) = v"
begin

lemma lookup_first:
  assumes "efold step es [] = Inr d"
  shows "map_of d k = map_option value_of (find (\<lambda>e. key_of e = Some k) es)"
proof -
  have "foldl (\<lambda>v e. Some (merge e v)) (Some v) xs = Some v" for v xs
    by (induction xs arbitrary: v) (simp_all add: merge_again)
  then have "foldl (\<lambda>v e. Some (merge e v)) None (filter P xs) = map_option value_of (find P xs)" for P xs
    by (induction xs) (simp_all add: merge_first)
  with loop_lookup [OF assms, of k] show ?thesis by simp
qed

end

text \<open>
  The entry with the least measure wins, the earlier of two with the same; the measure is defined for
  the values that are \<open>rankable\<close>.
\<close>

locale least_wins = keyed_loop +
  fixes value_of and rankable :: "'v \<Rightarrow> bool" and rank :: "'v \<Rightarrow> rat"
  assumes merge_start: "merge e None = value_of e"
    and merge_less: "rankable (value_of e) \<Longrightarrow> rankable v \<Longrightarrow>
      merge e (Some v) = (if rank (value_of e) < rank v then value_of e else v)"
begin

lemma foldl_least:
  "rankable v \<Longrightarrow> (\<forall>e \<in> set xs. rankable (value_of e)) \<Longrightarrow>
   \<exists>w. foldl (\<lambda>v e. Some (merge e v)) (Some v) xs = Some w \<and> rank w \<le> rank v \<and>
     (w = v \<or> w \<in> value_of ` set xs) \<and> (\<forall>e \<in> set xs. rank w \<le> rank (value_of e))"
proof (induction xs arbitrary: v)
  case (Cons e xs)
  let ?v = "if rank (value_of e) < rank v then value_of e else v"
  from Cons.prems have "rankable ?v" "\<forall>e \<in> set xs. rankable (value_of e)" by auto
  from Cons.IH [OF this] obtain w where "foldl (\<lambda>v e. Some (merge e v)) (Some ?v) xs = Some w"
    "rank w \<le> rank ?v" "w = ?v \<or> w \<in> value_of ` set xs" "\<forall>e \<in> set xs. rank w \<le> rank (value_of e)"
    by blast
  with Cons.prems show ?case by (intro exI [of _ w]) (auto simp: merge_less split: if_splits)
qed simp

lemma lookup_least:
  assumes "efold step es [] = Inr d" "map_of d k = Some w"
    and "\<And>e. e \<in> set es \<Longrightarrow> key_of e = Some k \<Longrightarrow> rankable (value_of e)"
  shows "(\<exists>e \<in> set es. key_of e = Some k \<and> w = value_of e) \<and>
    (\<forall>e \<in> set es. key_of e = Some k \<longrightarrow> rank w \<le> rank (value_of e))"
proof (cases "filter (\<lambda>e. key_of e = Some k) es")
  case Nil
  with loop_lookup [OF assms(1), of k] assms(2) show ?thesis by simp
next
  case (Cons e xs)
  then have mem: "set (e # xs) = {e \<in> set es. key_of e = Some k}" by (metis set_filter)
  then have r: "rankable (value_of e)" "\<forall>e \<in> set xs. rankable (value_of e)" using assms(3) by auto
  from Cons loop_lookup [OF assms(1), of k] assms(2)
  have "foldl (\<lambda>v e. Some (merge e v)) (Some (value_of e)) xs = Some w" by (simp add: merge_start)
  with foldl_least [OF r] have w: "rank w \<le> rank (value_of e)"
    "w = value_of e \<or> w \<in> value_of ` set xs" "\<forall>e \<in> set xs. rank w \<le> rank (value_of e)" by auto
  from w(2) have "\<exists>x \<in> set (e # xs). w = value_of x" by auto
  moreover from w(1,3) have "\<forall>x \<in> set (e # xs). rank w \<le> rank (value_of x)" by auto
  ultimately show ?thesis unfolding mem by blast
qed

end

end
