(* ===== verification/AuditChecks.thy ===== *)
theory AuditChecks imports AuditLog KeyedLoop begin

text \<open>
  The three checks of \<^verbatim>\<open>audit/audit.py\<close>, each as the code has it: the queries, the loops that build
  its dicts, the comparison, the lines printed and the verdict. The interpretations at the end
  place its loops under the interface of \<^verbatim>\<open>KeyedLoop\<close>.
\<close>

section \<open>Shared\<close>

definition access_log_query :: "string \<Rightarrow> string" where
  \<open>access_log_query services = ''{service=~"'' @ services @ ''"} | json | type = "access_log"''\<close>

text \<open>\<open>sorted(xs, key=f)\<close> where the key may raise; the keys are computed first.\<close>

definition sorted_by :: "('a \<Rightarrow> exn + json) \<Rightarrow> 'a list \<Rightarrow> exn + 'a list" where
  "sorted_by f xs =
     ebind (emap (\<lambda>x. ebind (f x) (\<lambda>k. Inr (k, x))) xs) (\<lambda>ps.
     ebind (py_sorted fst ps) (\<lambda>qs. Inr (map snd qs)))"

definition entry_time :: "dict \<Rightarrow> exn + string" where
  "entry_time e = ebind (dgetitem e ''_ts_ns'') ts_str"

section \<open>Check 1: one token at two hops\<close>

text \<open>One element of \<open>{e["jti"]: e for e in logs if e.get("jti") not in (None, "-", "")}\<close>.\<close>

definition jti_step :: "dict \<Rightarrow> (key \<times> dict) list \<Rightarrow> exn + (key \<times> dict) list" where
  "jti_step e d =
     (if dget e ''jti'' JNull \<in> {JNull, JStr ''-'', JStr []} then Inr d
      else ebind (dgetitem e ''jti'') (\<lambda>jti. ebind (hash_key jti) (\<lambda>k. Inr (AList.update k e d))))"

definition lookup_key :: "('k \<times> 'v) list \<Rightarrow> 'k \<Rightarrow> exn + 'v" where
  "lookup_key d k = (case map_of d k of None \<Rightarrow> Inl KeyError | Some v \<Rightarrow> Inr v)"

definition bypass_lines :: "(key \<times> dict) list \<Rightarrow> (key \<times> dict) list \<Rightarrow> key \<Rightarrow> (report, unit) run" where
  "bypass_lines user_jtis ds_jtis jti =
     wbind (lift_exn (lookup_key user_jtis jti)) (\<lambda>ue.
     wbind (lift_exn (lookup_key ds_jtis jti)) (\<lambda>de.
     wthen (emit (Bypass_jti jti))
     (wbind (lift_exn (dgetitem ue ''_service'')) (\<lambda>us.
      wbind (lift_exn (entry_time ue)) (\<lambda>ut.
      wthen (emit (Bypass_user_facing us (dget ue ''sub'' (JStr ''-'')) ut))
      (wbind (lift_exn (dgetitem de ''_service'')) (\<lambda>ds.
       wbind (lift_exn (entry_time de)) (\<lambda>dt.
       emit (Bypass_downstream ds (dget de ''sub'' (JStr ''-'')) dt)))))))))"

definition check1 :: "audit_config \<Rightarrow> loki \<Rightarrow> int \<Rightarrow> int \<Rightarrow> (report, bool) run" where
  "check1 cfg loki start_ns end_ns =
     wthen (emit (Check_header CHECK1))
     (wbind (query_loki cfg loki (access_log_query USER_FACING_SERVICES) start_ns end_ns default_limit) (\<lambda>user_logs.
      wbind (query_loki cfg loki (access_log_query DOWNSTREAM_SERVICES) start_ns end_ns default_limit) (\<lambda>ds_logs.
      wbind (lift_exn (efold jti_step user_logs [])) (\<lambda>user_jtis.
      wbind (lift_exn (efold jti_step ds_logs [])) (\<lambda>ds_jtis.
      wbind (lift_exn (py_sorted key_json (filter (\<lambda>k. k \<in> fst ` set ds_jtis) (map fst user_jtis)))) (\<lambda>bypassed.
      wthen (emit (User_jtis (length user_jtis)))
      (wthen (emit (Downstream_jtis (length ds_jtis)))
      (if bypassed \<noteq> [] then
         wthen (emit (Bypass_found (length bypassed)))
         (wthen (wfor bypassed (bypass_lines user_jtis ds_jtis)) (ret False))
       else wthen (emit No_overlap) (ret True)))))))))"

section \<open>Check 2: every token used was issued by an exchange\<close>

type_synonym issue_record = "string option \<times> json"

definition event_step ::
  "dict \<Rightarrow> ((key \<times> key) \<times> issue_record) list \<Rightarrow> exn + ((key \<times> key) \<times> issue_record) list" where
  "event_step e records =
     (let raw = dget e ''_raw'' JNull in
      if raw = JNull then Inr records
      else ebind (kv_extract_from raw ''token_id'') (\<lambda>token_id.
           ebind (kv_extract_from raw ''audience'') (\<lambda>audience.
           case (token_id, audience) of
             (Some t, Some a) \<Rightarrow>
               ebind (kv_extract_from raw ''userId'') (\<lambda>user_id.
               ebind (dgetitem e ''_ts_ns'') (\<lambda>ts.
               Inr (AList.update (KStr t, KStr a) (user_id, ts) records)))
           | _ \<Rightarrow> Inr records)))"

definition parse_token_exchange_events :: "dict list \<Rightarrow> exn + ((key \<times> key) \<times> issue_record) list" where
  "parse_token_exchange_events kc_logs = efold event_step kc_logs []"

text \<open>The loop that keeps the first use of each \<open>(jti, audience)\<close>.\<close>

definition seen_step :: "dict \<Rightarrow> ((key \<times> key) \<times> dict) list \<Rightarrow> exn + ((key \<times> key) \<times> dict) list" where
  "seen_step e seen =
     (let jti = dget e ''jti'' JNull in
      if \<not> truthy jti \<or> jti \<in> {JStr ''-'', JStr []} then Inr seen
      else ebind (hash_key jti) (\<lambda>j.
           ebind (hash_key (dget e ''_service'' JNull)) (\<lambda>a.
           if (j, a) \<in> fst ` set seen then Inr seen else Inr (AList.update (j, a) e seen))))"

text \<open>The comparison of uses with records: \<open>no_record\<close> and \<open>sub_mismatch\<close>.\<close>

fun compare_uses ::
  "((key \<times> key) \<times> issue_record) list \<Rightarrow> ((key \<times> key) \<times> dict) list \<Rightarrow> dict list \<times> (dict \<times> string) list" where
  "compare_uses exchanged [] = ([], [])"
| "compare_uses exchanged ((k, e) # seen) =
     (let (no_record, sub_mismatch) = compare_uses exchanged seen
      in case map_of exchanged k of
           None \<Rightarrow> (e # no_record, sub_mismatch)
         | Some (Some u, _) \<Rightarrow>
             if JStr u \<noteq> dget e ''sub'' JNull then (no_record, (e, u) # sub_mismatch)
             else (no_record, sub_mismatch)
         | Some (None, _) \<Rightarrow> (no_record, sub_mismatch))"

definition use_of :: "dict \<Rightarrow> json \<times> json" where
  "use_of e = (dget e ''jti'' JNull, dget e ''_service'' JNull)"

definition no_record_line :: "dict \<Rightarrow> (report, unit) run" where
  "no_record_line e =
     wbind (lift_exn (entry_time e)) (\<lambda>t.
     emit (No_record (use_of e) (dget e ''method'' (JStr [])) (dget e ''path'' (JStr []))
       (dget e ''sub'' (JStr ''-'')) (dget e ''status'' (JStr ''-'')) t))"

definition sub_mismatch_line :: "dict \<times> string \<Rightarrow> (report, unit) run" where
  "sub_mismatch_line eu =
     wbind (lift_exn (entry_time (fst eu))) (\<lambda>t.
     emit (Sub_mismatch (use_of (fst eu)) (dget (fst eu) ''sub'' (JStr ''-'')) (snd eu) t))"

definition exchange_query :: string where
  \<open>exchange_query = ''{service="keycloak"} |= "TOKEN_EXCHANGE"''\<close>

definition check2 :: "audit_config \<Rightarrow> loki \<Rightarrow> int \<Rightarrow> int \<Rightarrow> (report, bool) run" where
  "check2 cfg loki start_ns end_ns =
     wthen (emit (Check_header CHECK2))
     (wbind (query_loki cfg loki (access_log_query EXCHANGED_TOKEN_SERVICES @ '' | status != 401'')
               start_ns end_ns default_limit) (\<lambda>ds_logs.
      wbind (query_loki cfg loki exchange_query
               (start_ns - EXCHANGE_LOOKBACK_SECONDS cfg * 1000000000) end_ns default_limit) (\<lambda>kc_logs.
      wbind (lift_exn (parse_token_exchange_events kc_logs)) (\<lambda>exchanged.
      wbind (lift_exn (efold seen_step ds_logs [])) (\<lambda>seen.
      let (no_record, sub_mismatch) = compare_uses exchanged seen in
      wthen (emit (Pairs_seen (length seen)))
      (wthen (emit (Pairs_confirmed (int (length seen) - int (length no_record) - int (length sub_mismatch))))
      (wthen (when_run (no_record \<noteq> [])
                (wthen (emit (No_record_found (length no_record)))
                (wbind (lift_exn (sorted_by (\<lambda>e. dgetitem e ''_ts_ns'') no_record)) (\<lambda>xs. wfor xs no_record_line))))
      (wthen (when_run (sub_mismatch \<noteq> [])
                (wthen (emit (Sub_mismatch_found (length sub_mismatch)))
                (wbind (lift_exn (sorted_by (\<lambda>eu. dgetitem (fst eu) ''_ts_ns'') sub_mismatch)) (\<lambda>xs. wfor xs sub_mismatch_line))))
      (wthen (when_run (no_record = [] \<and> sub_mismatch = [])
                (if seen = [] then emit No_downstream_access else emit All_exchanged))
      (ret (no_record = [] \<and> sub_mismatch = [])))))))))))"

section \<open>Check 3: no access before the login\<close>

text \<open>\<open>first_access\<close>: per subject the earliest access and its service.\<close>

definition access_step :: "dict \<Rightarrow> (key \<times> json \<times> json) list \<Rightarrow> exn + (key \<times> json \<times> json) list" where
  "access_step e first_access =
     (let sub = dget e ''sub'' JNull in
      if \<not> truthy sub \<or> sub = JStr ''-'' then Inr first_access
      else ebind (dgetitem e ''_ts_ns'') (\<lambda>ts.
           ebind (hash_key sub) (\<lambda>k.
           ebind (case map_of first_access k of None \<Rightarrow> Inr True | Some old \<Rightarrow> py_less ts (fst old)) (\<lambda>earlier.
           if earlier then ebind (dgetitem e ''_service'') (\<lambda>svc. Inr (AList.update k (ts, svc) first_access))
           else Inr first_access))))"

text \<open>\<open>uid\<close> of a login event: a member of a JSON line, else the field of a raw line.\<close>

definition login_uid :: "dict \<Rightarrow> exn + json" where
  "login_uid e =
     (let u = dget e ''userId'' JNull; uid = (if truthy u then u else dget e ''user_id'' JNull)
      in if \<not> truthy uid \<and> ''_raw'' \<in> fst ` set e
         then ebind (dgetitem e ''_raw'') (\<lambda>raw. ebind (kv_extract_from raw ''userId'') (\<lambda>v.
              Inr (case v of None \<Rightarrow> JNull | Some s \<Rightarrow> JStr s)))
         else Inr uid)"

definition login_step :: "dict \<Rightarrow> (key \<times> json) list \<Rightarrow> exn + (key \<times> json) list" where
  "login_step e login_ts =
     ebind (login_uid e) (\<lambda>uid.
     if \<not> truthy uid then Inr login_ts
     else ebind (dgetitem e ''_ts_ns'') (\<lambda>ts.
          ebind (hash_key uid) (\<lambda>k.
          ebind (case map_of login_ts k of None \<Rightarrow> Inr True | Some old \<Rightarrow> py_less ts old) (\<lambda>earlier.
          Inr (if earlier then AList.update k ts login_ts else login_ts)))))"

text \<open>The comparison: accesses without a login, and accesses before the login.\<close>

type_synonym access = "key \<times> json \<times> json"

fun compare_logins :: "(key \<times> json) list \<Rightarrow> access list \<Rightarrow> exn + access list \<times> (access \<times> json) list" where
  "compare_logins login_ts [] = Inr ([], [])"
| "compare_logins login_ts ((sub, ts, svc) # rest) =
     (case map_of login_ts sub of
        None \<Rightarrow> ebind (compare_logins login_ts rest) (\<lambda>(info, hard). Inr ((sub, ts, svc) # info, hard))
      | Some login \<Rightarrow>
          if login = JNull
          then ebind (compare_logins login_ts rest) (\<lambda>(info, hard). Inr ((sub, ts, svc) # info, hard))
          else ebind (py_less ts login) (\<lambda>late.
               ebind (compare_logins login_ts rest) (\<lambda>(info, hard).
               Inr (info, if late then ((sub, ts, svc), login) # hard else hard))))"

definition no_login_line :: "access \<Rightarrow> (report, unit) run" where
  "no_login_line a = (case a of (sub, ts, svc) \<Rightarrow>
     wbind (lift_exn (ts_str ts)) (\<lambda>t. emit (No_login sub t svc)))"

definition early_access_line :: "access \<times> json \<Rightarrow> (report, unit) run" where
  "early_access_line al = (case al of ((sub, ts, svc), login) \<Rightarrow>
     wbind (lift_exn (ts_str login)) (\<lambda>l.
     wbind (lift_exn (ts_str ts)) (\<lambda>t.
     emit (Early_access sub l t svc))))"

definition login_query :: string where
  \<open>login_query = ''{service="keycloak"} |= "type='' @ [CHR 0x5C] @ ''"LOGIN'' @ [CHR 0x5C] @ ''""''\<close>

definition check3 :: "audit_config \<Rightarrow> loki \<Rightarrow> int \<Rightarrow> int \<Rightarrow> (report, bool) run" where
  "check3 cfg loki start_ns end_ns =
     wthen (emit (Check_header CHECK3))
     (wbind (query_loki cfg loki (access_log_query (USER_FACING_SERVICES @ ''|'' @ DOWNSTREAM_SERVICES))
               start_ns end_ns default_limit) (\<lambda>svc_logs.
      wbind (query_loki cfg loki login_query start_ns end_ns default_limit) (\<lambda>kc_logs.
      wbind (lift_exn (efold access_step svc_logs [])) (\<lambda>first_access.
      wbind (lift_exn (efold login_step kc_logs [])) (\<lambda>login_ts.
      wbind (lift_exn (compare_logins login_ts first_access)) (\<lambda>(info_only, hard_violations).
      wthen (emit (Subs_seen (length first_access)))
      (wthen (emit (Logins_confirmed (int (length first_access) - int (length hard_violations) - int (length info_only))))
      (wthen (when_run (info_only \<noteq> [])
                (wthen (emit (No_login_found (length info_only)))
                (wbind (lift_exn (py_sorted (\<lambda>a. fst (snd a)) info_only)) (\<lambda>xs. wfor xs no_login_line))))
      (if hard_violations \<noteq> [] then
         wthen (emit (Early_access_found (length hard_violations)))
         (wbind (lift_exn (py_sorted (\<lambda>al. fst (snd (fst al))) hard_violations)) (\<lambda>xs.
          wthen (wfor xs early_access_line) (ret False)))
       else
         wthen (if first_access = [] then emit No_access
                else when_run (info_only = []) (emit All_logged_in))
         (ret True))))))))))"

section \<open>The loops under one interface\<close>

definition jti_of :: "dict \<Rightarrow> key option" where
  "jti_of e =
     (let jti = dget e ''jti'' JNull in
      if jti \<in> {JNull, JStr ''-'', JStr []} then None
      else (case hash_key jti of Inr k \<Rightarrow> Some k | Inl _ \<Rightarrow> None))"

definition pair_of :: "dict \<Rightarrow> (key \<times> key) option" where
  "pair_of e =
     (let jti = dget e ''jti'' JNull in
      if \<not> truthy jti \<or> jti \<in> {JStr ''-'', JStr []} then None
      else (case (hash_key jti, hash_key (dget e ''_service'' JNull)) of
              (Inr j, Inr a) \<Rightarrow> Some (j, a) | _ \<Rightarrow> None))"

definition event_of :: "dict \<Rightarrow> ((key \<times> key) \<times> issue_record) option" where
  "event_of e =
     (case dget e ''_raw'' JNull of
        JStr line \<Rightarrow> (case (kv_extract line ''token_id'', kv_extract line ''audience'') of
            (Some t, Some a) \<Rightarrow> Some ((KStr t, KStr a), kv_extract line ''userId'', dget e ''_ts_ns'' JNull)
          | _ \<Rightarrow> None)
      | _ \<Rightarrow> None)"

definition subject_of :: "dict \<Rightarrow> key option" where
  "subject_of e =
     (let sub = dget e ''sub'' JNull in
      if \<not> truthy sub \<or> sub = JStr ''-'' then None
      else (case hash_key sub of Inr k \<Rightarrow> Some k | Inl _ \<Rightarrow> None))"

definition login_of :: "dict \<Rightarrow> key option" where
  "login_of e =
     (case login_uid e of
        Inl _ \<Rightarrow> None
      | Inr uid \<Rightarrow> if \<not> truthy uid then None
                   else (case hash_key uid of Inr k \<Rightarrow> Some k | Inl _ \<Rightarrow> None))"

definition access_of :: "dict \<Rightarrow> json \<times> json" where
  "access_of e = (dget e ''_ts_ns'' JNull, dget e ''_service'' JNull)"

definition time_of :: "dict \<Rightarrow> json" where
  "time_of e = dget e ''_ts_ns'' JNull"

definition earlier_access :: "dict \<Rightarrow> (json \<times> json) option \<Rightarrow> json \<times> json" where
  "earlier_access e v =
     (case v of None \<Rightarrow> access_of e
      | Some old \<Rightarrow> if py_less (time_of e) (fst old) = Inr True then access_of e else old)"

definition earlier_login :: "dict \<Rightarrow> json option \<Rightarrow> json" where
  "earlier_login e v =
     (case v of None \<Rightarrow> time_of e | Some old \<Rightarrow> if py_less (time_of e) old = Inr True then time_of e else old)"

definition is_number :: "json \<Rightarrow> bool" where
  "is_number v \<longleftrightarrow> num_val v \<noteq> None"

lemma py_less_numbers: "is_number v \<Longrightarrow> is_number w \<Longrightarrow> py_less v w = Inr (num_of_json v < num_of_json w)"
  by (auto simp: is_number_def py_less_def num_of_json_def)

interpretation jtis: last_wins jti_step jti_of "\<lambda>e v. e" "\<lambda>e. e"
  by unfold_locales
    (auto simp: jti_step_def jti_of_def Let_def raises split: if_splits sum.splits)

interpretation events: last_wins event_step "\<lambda>e. map_option fst (event_of e)"
    "\<lambda>e v. snd (the (event_of e))" "\<lambda>e. snd (the (event_of e))"
  by unfold_locales
    (auto simp: event_step_def event_of_def kv_extract_from_def Let_def raises dgetitem_Inr_iff
      split: if_splits json.splits option.splits)

lemma seen_step_Inr:
  assumes "seen_step e d = Inr d'"
  shows "case pair_of e of None \<Rightarrow> d' = d
    | Some k \<Rightarrow> d' = (if map_of d k \<noteq> None then d else AList.update k e d)"
  using assms
  by (auto simp: seen_step_def pair_of_def Let_def ebind_Inr_iff dict_keys_dom
      split: if_splits sum.splits option.splits)

interpretation uses: first_wins seen_step pair_of "\<lambda>e v. case v of None \<Rightarrow> e | Some old \<Rightarrow> old" "\<lambda>e. e"
  by unfold_locales (auto dest!: seen_step_Inr simp: map_upd_triv split: option.splits if_splits)

lemma access_step_Inr:
  assumes "access_step e d = Inr d'"
  shows "case subject_of e of None \<Rightarrow> d' = d
    | Some k \<Rightarrow> d' = (if (\<exists>old. map_of d k = Some old \<and> py_less (time_of e) (fst old) \<noteq> Inr True) then d
                      else AList.update k (access_of e) d)"
  using assms
  by (auto simp: access_step_def subject_of_def access_of_def time_of_def Let_def ebind_Inr_iff dgetitem_Inr_iff
      split: if_splits sum.splits option.splits)

lemma login_step_Inr:
  assumes "login_step e d = Inr d'"
  shows "case login_of e of None \<Rightarrow> d' = d
    | Some k \<Rightarrow> d' = (if (\<exists>old. map_of d k = Some old \<and> py_less (time_of e) old \<noteq> Inr True) then d
                      else AList.update k (time_of e) d)"
  using assms
  by (auto simp: login_step_def login_of_def time_of_def Let_def ebind_Inr_iff dgetitem_Inr_iff
      split: if_splits sum.splits option.splits)

interpretation accesses: least_wins access_step subject_of earlier_access access_of
    "\<lambda>v. is_number (fst v)" "\<lambda>v. num_of_json (fst v)"
proof unfold_locales
  fix e d d' k
  assume s: "access_step e d = Inr d'" "subject_of e = Some k"
  show "map_of d' = (map_of d)(k \<mapsto> earlier_access e (map_of d k))"
    using access_step_Inr [OF s(1)] s(2)
    by (cases "map_of d k") (auto simp: earlier_access_def map_upd_triv split: if_splits)
qed (auto dest!: access_step_Inr simp: earlier_access_def access_of_def time_of_def py_less_numbers
    split: option.splits if_splits)

interpretation logins: least_wins login_step login_of earlier_login time_of is_number num_of_json
proof unfold_locales
  fix e d d' k
  assume s: "login_step e d = Inr d'" "login_of e = Some k"
  show "map_of d' = (map_of d)(k \<mapsto> earlier_login e (map_of d k))"
    using login_step_Inr [OF s(1)] s(2)
    by (cases "map_of d k") (auto simp: earlier_login_def map_upd_triv split: if_splits)
qed (auto dest!: login_step_Inr simp: earlier_login_def time_of_def py_less_numbers
    split: option.splits if_splits)

end
