(* ===== verification/AuditVerdicts.thy ===== *)
theory AuditVerdicts imports AuditChecks Codec begin

text \<open>
  What the checks of \<^verbatim>\<open>AuditChecks\<close> answer, in terms of the logs they read: on well-formed logs each
  of them returns, and its verdict is a statement about sets of tokens, events and times.
\<close>

section \<open>Well-formed logs\<close>

definition timed :: "dict \<Rightarrow> bool" where
  "timed e \<longleftrightarrow> (\<exists>ns. map_of e ''_ts_ns'' = Some (JInt ns) \<and> plausible_time ns)"

definition text_member :: "dict \<Rightarrow> string \<Rightarrow> bool" where
  "text_member e k \<longleftrightarrow> map_of e k = None \<or> (\<exists>s. map_of e k = Some (JStr s))"

text \<open>An access-log line of the services, and a Keycloak event line, as queries return them.\<close>

definition access_entry :: "dict \<Rightarrow> bool" where
  "access_entry e \<longleftrightarrow> timed e \<and> (\<exists>s. map_of e ''_service'' = Some (JStr s)) \<and>
     text_member e ''jti'' \<and> text_member e ''sub''"

definition event_entry :: "dict \<Rightarrow> bool" where
  "event_entry e \<longleftrightarrow> timed e \<and> (\<exists>line. map_of e ''_raw'' = Some (JStr line)) \<and>
     map_of e ''userId'' = None \<and> map_of e ''user_id'' = None"

lemma efold_returns:
  assumes "P d" "\<And>e d. e \<in> set es \<Longrightarrow> P d \<Longrightarrow> \<exists>d'. step e d = Inr d' \<and> P d'"
  shows "\<exists>d'. efold step es d = Inr d' \<and> P d'"
  using assms
proof (induction es arbitrary: d)
  case (Cons e es)
  obtain d1 where d1: "step e d = Inr d1" "P d1" using Cons.prems(1) Cons.prems(2) [of e d] by auto
  have "\<exists>d'. efold step es d1 = Inr d' \<and> P d'"
    using d1(2) by (rule Cons.IH) (rule Cons.prems(2), simp_all)
  with d1(1) show ?case by simp
qed simp

lemma py_sorted_strings: "(\<And>x. x \<in> set xs \<Longrightarrow> is_str (f x)) \<Longrightarrow> \<exists>ys. py_sorted f xs = Inr ys"
  by (auto simp: py_sorted_def list_all_iff)

lemma text_dget: "text_member e k \<Longrightarrow> dget e k JNull = JNull \<or> (\<exists>s. dget e k JNull = JStr s)"
  by (auto simp: text_member_def dget_def)

lemma timed_entry: "timed e \<Longrightarrow> \<exists>ns s. dgetitem e ''_ts_ns'' = Inr (JInt ns) \<and> ts_str (JInt ns) = Inr s"
  using ts_str_ok by (fastforce simp: timed_def dgetitem_def simp del: ts_str.simps)

lemma entry_time_ok: "timed e \<Longrightarrow> \<exists>s. entry_time e = Inr s"
  using timed_entry [of e] by (auto simp: entry_time_def simp del: ts_str.simps)

section \<open>Check 1\<close>

definition token_ids :: "dict list \<Rightarrow> string set" where
  "token_ids logs = {j. \<exists>e \<in> set logs. map_of e ''jti'' = Some (JStr j) \<and> j \<noteq> [] \<and> j \<noteq> ''-''}"

lemma jti_of_iff: "access_entry e \<Longrightarrow> jti_of e = Some k \<longleftrightarrow>
    (\<exists>j. k = KStr j \<and> map_of e ''jti'' = Some (JStr j) \<and> j \<noteq> [] \<and> j \<noteq> ''-'')"
  by (auto simp: access_entry_def text_member_def jti_of_def dget_def Let_def)

lemma jti_step_ok: "access_entry e \<Longrightarrow> \<exists>d'. jti_step e d = Inr d'"
  by (auto simp: access_entry_def text_member_def jti_step_def dget_def dgetitem_def Let_def)

lemma jti_loop:
  assumes "list_all access_entry logs"
  obtains d where "efold jti_step logs [] = Inr d" "fst ` set d = KStr ` token_ids logs"
    "\<And>k. k \<in> fst ` set d \<Longrightarrow> \<exists>e. map_of d k = Some e \<and> access_entry e"
proof -
  from assms obtain d where d: "efold jti_step logs [] = Inr d"
    using efold_returns [of "\<lambda>_. True" "[]" logs jti_step] jti_step_ok by (auto simp: list_all_iff)
  moreover have "fst ` set d = KStr ` token_ids logs"
    using assms jti_of_iff unfolding jtis.loop_keys [OF d] token_ids_def by (auto simp: list_all_iff)
  moreover have "\<exists>e. map_of d k = Some e \<and> access_entry e" if "k \<in> fst ` set d" for k
  proof -
    from that obtain e where e: "map_of d k = Some e" by (auto simp: dict_keys_dom)
    with jtis.lookup_last_Some [OF d e] assms show ?thesis by (auto simp: list_all_iff)
  qed
  ultimately show ?thesis using that by blast
qed

lemma bypass_lines_ok:
  "map_of u k = Some e \<Longrightarrow> access_entry e \<Longrightarrow> map_of d k = Some e' \<Longrightarrow> access_entry e' \<Longrightarrow>
     outcome (bypass_lines u d k) = Inr ()"
  using entry_time_ok [of e] entry_time_ok [of e']
  by (auto simp: bypass_lines_def run_simps lookup_key_def access_entry_def dgetitem_def)

lemma check1_outcome:
  assumes "outcome (query_loki cfg loki (access_log_query USER_FACING_SERVICES) s e default_limit) = Inr us"
    and "outcome (query_loki cfg loki (access_log_query DOWNSTREAM_SERVICES) s e default_limit) = Inr ds"
    and "list_all access_entry us" "list_all access_entry ds"
  shows "outcome (check1 cfg loki s e) = Inr (token_ids us \<inter> token_ids ds = {})"
proof -
  obtain u where u: "efold jti_step us [] = Inr u" "fst ` set u = KStr ` token_ids us"
    "\<And>k. k \<in> fst ` set u \<Longrightarrow> \<exists>e. map_of u k = Some e \<and> access_entry e"
    using jti_loop [OF assms(3)] by blast
  obtain d where d: "efold jti_step ds [] = Inr d" "fst ` set d = KStr ` token_ids ds"
    "\<And>k. k \<in> fst ` set d \<Longrightarrow> \<exists>e. map_of d k = Some e \<and> access_entry e"
    using jti_loop [OF assms(4)] by blast
  let ?c = "filter (\<lambda>k. k \<in> fst ` set d) (map fst u)"
  have c: "set ?c = KStr ` (token_ids us \<inter> token_ids ds)"
    using u(2) d(2) by auto
  obtain b where b: "py_sorted key_json ?c = Inr b"
    using py_sorted_strings [of ?c key_json] c by fastforce
  then have sb: "set b = set ?c" by (rule py_sorted_set)
  have "outcome (bypass_lines u d k) = Inr ()" if "k \<in> set b" for k
  proof -
    from that have "k \<in> fst ` set u" "k \<in> fst ` set d" using sb by auto
    then show ?thesis using u(3) d(3) bypass_lines_ok by meson
  qed
  then have "outcome (wfor b (bypass_lines u d)) = Inr ()" by (rule wfor_outcome_ok)
  moreover have "b = [] \<longleftrightarrow> token_ids us \<inter> token_ids ds = {}"
    using c sb by (metis image_is_empty set_empty)
  ultimately show ?thesis
    using u(1) d(1) b assms(1,2) by (simp add: check1_def run_simps)
qed

section \<open>Check 2\<close>

definition token_uses :: "dict list \<Rightarrow> (string \<times> string) set" where
  "token_uses logs = {(j, a). \<exists>e \<in> set logs. map_of e ''jti'' = Some (JStr j) \<and> j \<noteq> [] \<and> j \<noteq> ''-'' \<and>
     map_of e ''_service'' = Some (JStr a)}"

definition is_use :: "string \<Rightarrow> string \<Rightarrow> dict \<Rightarrow> bool" where
  "is_use j a e \<longleftrightarrow> map_of e ''jti'' = Some (JStr j) \<and> map_of e ''_service'' = Some (JStr a)"

definition event_value :: "dict \<Rightarrow> string \<Rightarrow> string option" where
  "event_value e k = (case map_of e ''_raw'' of Some (JStr line) \<Rightarrow> kv_extract line k | _ \<Rightarrow> None)"

definition issues :: "string \<Rightarrow> string \<Rightarrow> dict \<Rightarrow> bool" where
  "issues j a e \<longleftrightarrow> event_value e ''token_id'' = Some j \<and> event_value e ''audience'' = Some a"

text \<open>
  A use is backed by the exchange events: there is one for its token and service, and the user of the
  latest one, when the event names a user, is the subject of the use.
\<close>

definition use_backed :: "dict list \<Rightarrow> string \<Rightarrow> string \<Rightarrow> dict \<Rightarrow> bool" where
  "use_backed kc j a e =
     (case rev (filter (issues j a) kc) of
        [] \<Rightarrow> False
      | ev # _ \<Rightarrow> (case event_value ev ''userId'' of None \<Rightarrow> True | Some u \<Rightarrow> map_of e ''sub'' = Some (JStr u)))"

lemma pair_of_iff: "access_entry e \<Longrightarrow> pair_of e = Some k \<longleftrightarrow>
    (\<exists>j a. k = (KStr j, KStr a) \<and> is_use j a e \<and> j \<noteq> [] \<and> j \<noteq> ''-'')"
  by (auto simp: access_entry_def text_member_def pair_of_def dget_def Let_def is_use_def)

lemma seen_step_ok: "access_entry e \<Longrightarrow> \<exists>d'. seen_step e d = Inr d'"
  by (auto simp: access_entry_def text_member_def seen_step_def dget_def Let_def)

lemma find_agree: "(\<And>x. x \<in> set xs \<Longrightarrow> P x = Q x) \<Longrightarrow> find P xs = find Q xs"
  by (induction xs) auto

lemma seen_loop:
  assumes "list_all access_entry logs"
  obtains d where "efold seen_step logs [] = Inr d" "fst ` set d = (\<lambda>(j, a). (KStr j, KStr a)) ` token_uses logs"
    "\<And>j a. j \<noteq> [] \<Longrightarrow> j \<noteq> ''-'' \<Longrightarrow> map_of d (KStr j, KStr a) = find (is_use j a) logs"
    "wf_dict d" "list_all access_entry (map snd d)"
proof -
  from assms obtain d where d: "efold seen_step logs [] = Inr d"
    using efold_returns [of "\<lambda>_. True" "[]" logs seen_step] seen_step_ok by (auto simp: list_all_iff)
  have ok: "access_entry e" if "e \<in> set logs" for e using assms that by (simp add: list_all_iff)
  have "fst ` set d = (\<lambda>(j, a). (KStr j, KStr a)) ` token_uses logs"
    using pair_of_iff [OF ok] unfolding uses.loop_keys [OF d] token_uses_def
    by (fastforce simp: is_use_def image_iff)
  moreover have look: "map_of d k = find (\<lambda>e. pair_of e = Some k) logs" for k
    using uses.lookup_first [OF d, of k] by (simp add: option.map_ident)
  have "map_of d (KStr j, KStr a) = find (is_use j a) logs" if "j \<noteq> []" "j \<noteq> ''-''" for j a
    unfolding look using that by (intro find_agree) (auto simp: pair_of_iff [OF ok])
  moreover have wf: "wf_dict d" by (rule uses.loop_wf [OF d])
  moreover have "list_all access_entry (map snd d)"
  proof -
    have "access_entry e" if "(k, e) \<in> set d" for k e
    proof -
      from that have "find (\<lambda>e. pair_of e = Some k) logs = Some e" using look wf_dict_mem_iff [OF wf] by metis
      then have "e \<in> set logs" by (auto simp: find_Some_iff)
      then show ?thesis by (rule ok)
    qed
    then show ?thesis by (auto simp: list_all_iff)
  qed
  ultimately show ?thesis using that d by blast
qed

lemma event_of_iff: "event_entry e \<Longrightarrow> map_option fst (event_of e) = Some k \<longleftrightarrow>
    (\<exists>j a. k = (KStr j, KStr a) \<and> issues j a e)"
  by (auto simp: event_entry_def event_of_def issues_def event_value_def dget_def split: option.splits)

lemma event_step_ok: "event_entry e \<Longrightarrow> \<exists>d'. event_step e d = Inr d'"
  by (auto simp: event_entry_def timed_def event_step_def dget_def kv_extract_from_def dgetitem_def Let_def
      split: option.splits)

lemma event_loop:
  assumes "list_all event_entry kc"
  obtains x where "parse_token_exchange_events kc = Inr x"
    "\<And>j a. map_option fst (map_of x (KStr j, KStr a)) =
       (case rev (filter (issues j a) kc) of [] \<Rightarrow> None | ev # _ \<Rightarrow> Some (event_value ev ''userId''))"
proof -
  from assms obtain x where x: "efold event_step kc [] = Inr x"
    using efold_returns [of "\<lambda>_. True" "[]" kc event_step] event_step_ok by (auto simp: list_all_iff)
  have ok: "event_entry e" if "e \<in> set kc" for e using assms that by (simp add: list_all_iff)
  have "map_option fst (map_of x (KStr j, KStr a)) =
      (case rev (filter (issues j a) kc) of [] \<Rightarrow> None | ev # _ \<Rightarrow> Some (event_value ev ''userId''))" for j a
  proof -
    have "(map_option fst (event_of e) = Some (KStr j, KStr a)) = issues j a e" if "e \<in> set kc" for e
      unfolding event_of_iff [OF ok [OF that]] by simp
    then have f: "filter (\<lambda>e. map_option fst (event_of e) = Some (KStr j, KStr a)) kc = filter (issues j a) kc"
      by (intro filter_cong refl) blast
    show ?thesis
    proof (cases "rev (filter (issues j a) kc)")
      case Nil
      with events.lookup_last [OF x, of "(KStr j, KStr a)"] f show ?thesis by simp
    next
      case (Cons ev r)
      then have "ev \<in> set (rev (filter (issues j a) kc))" by simp
      then have "ev \<in> set kc" "issues j a ev" by auto
      then have "fst (snd (the (event_of ev))) = event_value ev ''userId''"
        using ok [of ev]
        by (auto simp: event_entry_def event_of_def issues_def event_value_def dget_def)
      with Cons events.lookup_last [OF x, of "(KStr j, KStr a)"] f show ?thesis by simp
    qed
  qed
  with x that show ?thesis by (simp add: parse_token_exchange_events_def)
qed

text \<open>The comparison finds nothing exactly when every use has a record that does not contradict it.\<close>

definition pair_backed :: "((key \<times> key) \<times> issue_record) list \<Rightarrow> key \<times> key \<Rightarrow> dict \<Rightarrow> bool" where
  "pair_backed x k e =
     (case map_of x k of None \<Rightarrow> False | Some (None, _) \<Rightarrow> True | Some (Some u, _) \<Rightarrow> JStr u = dget e ''sub'' JNull)"

lemma compare_uses_clean:
  "compare_uses x seen = (n, m) \<Longrightarrow> (n = [] \<and> m = []) \<longleftrightarrow> (\<forall>(k, e) \<in> set seen. pair_backed x k e)"
proof (induction x seen arbitrary: n m rule: compare_uses.induct)
  case (2 x k e seen)
  obtain n' m' where r: "compare_uses x seen = (n', m')" by (cases "compare_uses x seen")
  with "2.IH" [OF r] "2.prems" show ?case
    by (auto simp: pair_backed_def split: option.splits if_splits)
qed simp

lemma compare_uses_all:
  "compare_uses x seen = (n, m) \<Longrightarrow> list_all P (map snd seen) \<Longrightarrow>
     list_all P n \<and> list_all (\<lambda>eu. P (fst eu)) m"
proof (induction x seen arbitrary: n m rule: compare_uses.induct)
  case (2 x k e seen)
  obtain n' m' where r: "compare_uses x seen = (n', m')" by (cases "compare_uses x seen")
  with "2.IH" [OF r] "2.prems" show ?case
    by (auto split: option.splits if_splits)
qed simp

lemma sorted_by_ok:
  assumes "\<And>x. x \<in> set xs \<Longrightarrow> \<exists>ns. f x = Inr (JInt ns)"
  shows "\<exists>ys. sorted_by f xs = Inr ys \<and> set ys = set xs"
proof -
  from assms obtain g where g: "\<And>x. x \<in> set xs \<Longrightarrow> f x = Inr (JInt (g x))" by metis
  then have "emap (\<lambda>x. ebind (f x) (\<lambda>k. Inr (k, x))) xs = Inr (map (\<lambda>x. (JInt (g x), x)) xs)"
    by (induction xs) auto
  moreover have "py_sorted fst (map (\<lambda>x. (JInt (g x), x)) xs) =
      Inr (sort_key (\<lambda>p. num_of_json (fst p)) (map (\<lambda>x. (JInt (g x), x)) xs))"
    by (rule py_sorted_numbers) (auto simp: num_of_json_def)
  ultimately show ?thesis by (simp add: sorted_by_def image_image)
qed

lemma no_record_line_ok: "access_entry e \<Longrightarrow> outcome (no_record_line e) = Inr ()"
  using entry_time_ok [of e] by (auto simp: no_record_line_def run_simps access_entry_def)

lemma sub_mismatch_line_ok: "access_entry (fst eu) \<Longrightarrow> outcome (sub_mismatch_line eu) = Inr ()"
  using entry_time_ok [of "fst eu"] by (auto simp: sub_mismatch_line_def run_simps access_entry_def)

lemma access_entry_time: "access_entry e \<Longrightarrow> \<exists>ns. dgetitem e ''_ts_ns'' = Inr (JInt ns)"
  by (auto simp: access_entry_def timed_def dgetitem_def)

lemma report_block_ok:
  assumes "\<And>x. x \<in> set xs \<Longrightarrow> \<exists>ns. f x = Inr (JInt ns)" "\<And>x. x \<in> set xs \<Longrightarrow> outcome (line x) = Inr ()"
  shows "outcome (when_run c (wthen (emit h) (wbind (lift_exn (sorted_by f xs)) (\<lambda>ys. wfor ys line)))) = Inr ()"
proof -
  obtain ys where ys: "sorted_by f xs = Inr ys" "set ys = set xs"
    using sorted_by_ok [of xs f] assms(1) by blast
  then have "outcome (wfor ys line) = Inr ()" using assms(2) by (intro wfor_outcome_ok) simp
  with ys show ?thesis by (simp add: run_simps)
qed

lemma check2_outcome:
  assumes "outcome (query_loki cfg loki (access_log_query EXCHANGED_TOKEN_SERVICES @ '' | status != 401'')
      s e default_limit) = Inr ds"
    and "outcome (query_loki cfg loki exchange_query (s - EXCHANGE_LOOKBACK_SECONDS cfg * 1000000000) e default_limit) = Inr kc"
    and "list_all access_entry ds" "list_all event_entry kc"
  shows "outcome (check2 cfg loki s e) =
    Inr (\<forall>(j, a) \<in> token_uses ds. use_backed kc j a (the (find (is_use j a) ds)))"
proof -
  obtain d where d: "efold seen_step ds [] = Inr d"
    "fst ` set d = (\<lambda>(j, a). (KStr j, KStr a)) ` token_uses ds"
    "\<And>j a. j \<noteq> [] \<Longrightarrow> j \<noteq> ''-'' \<Longrightarrow> map_of d (KStr j, KStr a) = find (is_use j a) ds"
    "wf_dict d" "list_all access_entry (map snd d)"
    using seen_loop [OF assms(3)] by blast
  obtain x where x: "parse_token_exchange_events kc = Inr x"
    "\<And>j a. map_option fst (map_of x (KStr j, KStr a)) =
       (case rev (filter (issues j a) kc) of [] \<Rightarrow> None | ev # _ \<Rightarrow> Some (event_value ev ''userId''))"
    using event_loop [OF assms(4)] by blast
  obtain n m where nm: "compare_uses x d = (n, m)" by (cases "compare_uses x d")
  have nm_ok: "list_all access_entry n" "list_all (\<lambda>eu. access_entry (fst eu)) m"
    using compare_uses_all [OF nm d(5)] by auto
  have pb: "pair_backed x (KStr j, KStr a) e \<longleftrightarrow> use_backed kc j a e" for j a e
    using x(2) [of j a]
    by (auto simp: pair_backed_def use_backed_def JStr_eq_dget_iff split: option.splits list.splits)
  have "(\<forall>(k, e) \<in> set d. pair_backed x k e) \<longleftrightarrow>
      (\<forall>(j, a) \<in> token_uses ds. use_backed kc j a (the (find (is_use j a) ds)))" (is "?l \<longleftrightarrow> ?r")
  proof -
    have mem: "(k, e) \<in> set d \<longleftrightarrow> (\<exists>j a. (j, a) \<in> token_uses ds \<and> k = (KStr j, KStr a) \<and> find (is_use j a) ds = Some e)"
      for k e
    proof -
      have valid: "j \<noteq> [] \<and> j \<noteq> ''-''" if "(j, a) \<in> token_uses ds" for j a
        using that by (auto simp: token_uses_def)
      have "(k, e) \<in> set d \<longleftrightarrow> k \<in> fst ` set d \<and> map_of d k = Some e"
        using wf_dict_mem_iff [OF d(4)] by (auto simp: dict_keys_dom)
      also have "\<dots> \<longleftrightarrow> (\<exists>j a. (j, a) \<in> token_uses ds \<and> k = (KStr j, KStr a) \<and> find (is_use j a) ds = Some e)"
        unfolding d(2) using valid d(3) by auto
      finally show ?thesis .
    qed
    have found: "\<exists>e. find (is_use j a) ds = Some e" if "(j, a) \<in> token_uses ds" for j a
      using that by (cases "find (is_use j a) ds") (auto simp: token_uses_def is_use_def find_None_iff)
    show ?thesis
    proof
      assume l: ?l
      show ?r
      proof (clarify)
        fix j a assume ja: "(j, a) \<in> token_uses ds"
        then obtain e where e: "find (is_use j a) ds = Some e" using found by blast
        with ja mem have "((KStr j, KStr a), e) \<in> set d" by blast
        with l have "pair_backed x (KStr j, KStr a) e" by blast
        with e pb show "use_backed kc j a (the (find (is_use j a) ds))" by simp
      qed
    next
      assume r: ?r
      show ?l
      proof (clarify)
        fix k1 k2 e assume "((k1, k2), e) \<in> set d"
        then obtain j a where ja: "(j, a) \<in> token_uses ds" "(k1, k2) = (KStr j, KStr a)" "find (is_use j a) ds = Some e"
          using mem by blast
        from r ja(1) have "use_backed kc j a (the (find (is_use j a) ds))" by blast
        with pb ja(2,3) show "pair_backed x (k1, k2) e" by simp
      qed
    qed
  qed
  with compare_uses_clean [OF nm] have verdict: "(n = [] \<and> m = []) \<longleftrightarrow>
      (\<forall>(j, a) \<in> token_uses ds. use_backed kc j a (the (find (is_use j a) ds)))" by simp
  have "outcome (when_run c (wthen (emit h) (wbind (lift_exn (sorted_by (\<lambda>e. dgetitem e ''_ts_ns'') n)) (\<lambda>ys. wfor ys no_record_line)))) = Inr ()"
    for c h by (rule report_block_ok) (use nm_ok access_entry_time no_record_line_ok in \<open>auto simp: list_all_iff\<close>)
  moreover have "outcome (when_run c (wthen (emit h) (wbind (lift_exn (sorted_by (\<lambda>eu. dgetitem (fst eu) ''_ts_ns'') m)) (\<lambda>ys. wfor ys sub_mismatch_line)))) = Inr ()"
    for c h by (rule report_block_ok) (use nm_ok access_entry_time sub_mismatch_line_ok in \<open>auto simp: list_all_iff\<close>)
  moreover have "outcome (when_run c (if b then emit h else emit h')) = Inr ()" for c b and h h' :: report
    by simp
  ultimately show ?thesis
    unfolding check2_def
    by (simp only: outcome_wthen outcome_wbind outcome_basic(1,2,3) assms(1,2) d(1) x(1) ebind_simps nm Let_def prod.case verdict)
qed

section \<open>Check 3\<close>

definition access_times :: "dict list \<Rightarrow> string \<Rightarrow> int set" where
  "access_times svc s =
     {ns. \<exists>e \<in> set svc. map_of e ''sub'' = Some (JStr s) \<and> map_of e ''_ts_ns'' = Some (JInt ns)}"

definition login_times :: "dict list \<Rightarrow> string \<Rightarrow> int set" where
  "login_times kc s =
     {ns. \<exists>e \<in> set kc. event_value e ''userId'' = Some s \<and> map_of e ''_ts_ns'' = Some (JInt ns)}"

definition subjects :: "dict list \<Rightarrow> string set" where
  "subjects svc = {s. s \<noteq> [] \<and> s \<noteq> ''-'' \<and> access_times svc s \<noteq> {}}"

lemma finite_times: "finite {ns. \<exists>e \<in> set es. P e \<and> map_of e k = Some (JInt ns)}"
proof -
  have "{ns. \<exists>e \<in> set es. P e \<and> map_of e k = Some (JInt ns)} \<subseteq>
      (\<lambda>e. case map_of e k of Some (JInt ns) \<Rightarrow> ns | _ \<Rightarrow> 0) ` set es"
    by force
  then show ?thesis by (rule finite_subset) simp
qed

lemma Min_timesI:
  "ns \<in> A \<Longrightarrow> finite A \<Longrightarrow> (\<And>m. m \<in> A \<Longrightarrow> (of_int ns :: rat) \<le> of_int m) \<Longrightarrow> Min A = ns"
  by (rule Min_eqI) auto

definition int_timed :: "json \<Rightarrow> bool" where
  "int_timed v \<longleftrightarrow> (\<exists>ns. v = JInt ns \<and> plausible_time ns)"

lemma int_timed_facts:
  "int_timed v \<Longrightarrow> is_number v" "int_timed v \<Longrightarrow> \<exists>s. ts_str v = Inr s" "int_timed v \<Longrightarrow> v \<noteq> JNull"
  by (auto simp: int_timed_def is_number_def ts_str_ok simp del: ts_str.simps)

lemma subject_of_iff: "access_entry e \<Longrightarrow> subject_of e = Some k \<longleftrightarrow>
    (\<exists>s. k = KStr s \<and> map_of e ''sub'' = Some (JStr s) \<and> s \<noteq> [] \<and> s \<noteq> ''-'')"
  by (auto simp: access_entry_def text_member_def subject_of_def dget_def Let_def)

lemma access_step_ok:
  assumes "access_entry e" "\<forall>k v. map_of d k = Some v \<longrightarrow> int_timed (fst v)"
  shows "\<exists>d'. access_step e d = Inr d' \<and> (\<forall>k v. map_of d' k = Some v \<longrightarrow> int_timed (fst v))"
proof -
  from assms(1) obtain ns svc where e: "map_of e ''_ts_ns'' = Some (JInt ns)" "int_timed (JInt ns)"
    "map_of e ''_service'' = Some (JStr svc)" "text_member e ''sub''"
    by (auto simp: access_entry_def timed_def int_timed_def)
  have less: "\<exists>b. py_less (JInt ns) (fst v) = Inr b" if "map_of d k = Some v" for k v
    using py_less_numbers int_timed_facts(1) e(2) assms(2) that by blast
  show ?thesis
  proof (cases "\<not> truthy (dget e ''sub'' JNull) \<or> dget e ''sub'' JNull = JStr ''-''")
    case True
    with assms(2) show ?thesis by (auto simp: access_step_def Let_def)
  next
    case False
    with text_dget [OF e(4)] obtain s where s: "dget e ''sub'' JNull = JStr s" by auto
    show ?thesis
    proof (cases "map_of d (KStr s)")
      case None
      with False s e assms(2) show ?thesis by (auto simp: access_step_def dgetitem_def)
    next
      case (Some v)
      with less obtain b where "py_less (JInt ns) (fst v) = Inr b" by blast
      with False s e assms(2) Some show ?thesis by (cases b) (auto simp: access_step_def dgetitem_def)
    qed
  qed
qed

lemma access_loop:
  assumes "list_all access_entry svc"
  obtains d where "efold access_step svc [] = Inr d" "fst ` set d = KStr ` subjects svc"
    "\<And>s v. map_of d (KStr s) = Some v \<Longrightarrow> fst v = JInt (Min (access_times svc s))"
    "wf_dict d" "\<And>k v. map_of d k = Some v \<Longrightarrow> int_timed (fst v)"
proof -
  have ok: "access_entry e" if "e \<in> set svc" for e using assms that by (simp add: list_all_iff)
  obtain d where d: "efold access_step svc [] = Inr d" "\<forall>k v. map_of d k = Some v \<longrightarrow> int_timed (fst v)"
    using efold_returns [of "\<lambda>d. \<forall>k v. map_of d k = Some v \<longrightarrow> int_timed (fst v)" "[]" svc access_step]
      access_step_ok [OF ok] by auto
  have time: "\<exists>ns. access_of e = (JInt ns, snd (access_of e)) \<and> map_of e ''_ts_ns'' = Some (JInt ns)"
    if "e \<in> set svc" for e
    using ok [OF that] by (auto simp: access_entry_def timed_def access_of_def)
  have "fst ` set d = KStr ` subjects svc"
  proof -
    have "(\<exists>e \<in> set svc. subject_of e = Some k) \<longleftrightarrow> k \<in> KStr ` subjects svc" for k
      using subject_of_iff [OF ok] time
      by (fastforce simp: subjects_def access_times_def image_iff)
    then show ?thesis using accesses.loop_keys [OF d(1)] by blast
  qed
  moreover have "fst v = JInt (Min (access_times svc s))" if v: "map_of d (KStr s) = Some v" for s v
  proof -
    have "is_number (fst (access_of e))" if "e \<in> set svc" for e
      using time [OF that] by (metis fst_conv int_timed_facts(1) is_number_def num_val.simps(2) option.distinct(1))
    from accesses.lookup_least [OF d(1) v this]
    obtain e where e: "e \<in> set svc" "subject_of e = Some (KStr s)" "v = access_of e"
      "\<And>e'. e' \<in> set svc \<Longrightarrow> subject_of e' = Some (KStr s) \<Longrightarrow> num_of_json (fst v) \<le> num_of_json (fst (access_of e'))"
      by blast
    from time [OF e(1)] e(3) obtain ns where ns: "fst v = JInt ns" "map_of e ''_ts_ns'' = Some (JInt ns)"
      by (metis fst_conv)
    have sub: "map_of e ''sub'' = Some (JStr s)" "s \<noteq> []" "s \<noteq> ''-''"
      using e(2) subject_of_iff [OF ok [OF e(1)]] by auto
    have "Min (access_times svc s) = ns"
    proof (rule Min_timesI)
      show "ns \<in> access_times svc s" using e(1) ns(2) sub(1) by (auto simp: access_times_def)
      show "finite (access_times svc s)" unfolding access_times_def by (rule finite_times)
    next
      fix m assume "m \<in> access_times svc s"
      then obtain e' where e': "e' \<in> set svc" "map_of e' ''sub'' = Some (JStr s)" "map_of e' ''_ts_ns'' = Some (JInt m)"
        by (auto simp: access_times_def)
      then have "subject_of e' = Some (KStr s)" using subject_of_iff [OF ok [OF e'(1)]] sub by auto
      from e(4) [OF e'(1) this] e'(3) ns(1) show "(of_int ns :: rat) \<le> of_int m"
        by (simp add: access_of_def num_of_json_def)
    qed
    with ns(1) show ?thesis by simp
  qed
  moreover have "wf_dict d" by (rule accesses.loop_wf [OF d(1)])
  ultimately show ?thesis using that d by blast
qed

lemma login_uid_event: "event_entry e \<Longrightarrow>
    login_uid e = Inr (case event_value e ''userId'' of None \<Rightarrow> JNull | Some s \<Rightarrow> JStr s)"
  by (auto simp: event_entry_def login_uid_def dget_def dgetitem_def kv_extract_from_def event_value_def
      Let_def dict_keys_dom)

lemma event_value_not_Nil: "event_value e k = Some s \<Longrightarrow> s \<noteq> []"
  by (auto simp: event_value_def kv_extract_def split: option.splits json.splits if_splits)

lemma login_of_iff: "event_entry e \<Longrightarrow> login_of e = Some k \<longleftrightarrow>
    (\<exists>s. k = KStr s \<and> event_value e ''userId'' = Some s)"
  using event_value_not_Nil [of e "''userId''"]
  by (auto simp: login_of_def login_uid_event split: option.splits)

lemma login_step_ok:
  assumes "event_entry e" "\<forall>k v. map_of d k = Some v \<longrightarrow> int_timed v"
  shows "\<exists>d'. login_step e d = Inr d' \<and> (\<forall>k v. map_of d' k = Some v \<longrightarrow> int_timed v)"
proof -
  from assms(1) obtain ns where e: "map_of e ''_ts_ns'' = Some (JInt ns)" "int_timed (JInt ns)"
    by (auto simp: event_entry_def timed_def int_timed_def)
  show ?thesis
  proof (cases "event_value e ''userId''")
    case None
    with assms show ?thesis by (simp add: login_step_def login_uid_event)
  next
    case (Some s)
    show ?thesis
    proof (cases "map_of d (KStr s)")
      case None
      with Some e assms event_value_not_Nil [OF Some] show ?thesis
        by (auto simp: login_step_def login_uid_event dgetitem_def)
    next
      case (Some v)
      then have "is_number v" "is_number (JInt ns)" using assms(2) e(2) int_timed_facts(1) by blast+
      then obtain b where b: "py_less (JInt ns) v = Inr b" using py_less_numbers by blast
      with Some e assms \<open>event_value e _ = Some s\<close> event_value_not_Nil [of e "''userId''" s] show ?thesis
        by (cases b) (auto simp: login_step_def login_uid_event dgetitem_def)
    qed
  qed
qed

lemma login_loop:
  assumes "list_all event_entry kc"
  obtains d where "efold login_step kc [] = Inr d"
    "\<And>s. map_of d (KStr s) = (if login_times kc s = {} then None else Some (JInt (Min (login_times kc s))))"
    "\<And>k v. map_of d k = Some v \<Longrightarrow> int_timed v"
proof -
  have ok: "event_entry e" if "e \<in> set kc" for e using assms that by (simp add: list_all_iff)
  obtain d where d: "efold login_step kc [] = Inr d" "\<forall>k v. map_of d k = Some v \<longrightarrow> int_timed v"
    using efold_returns [of "\<lambda>d. \<forall>k v. map_of d k = Some v \<longrightarrow> int_timed v" "[]" kc login_step]
      login_step_ok [OF ok] by auto
  have time: "\<exists>ns. time_of e = JInt ns \<and> map_of e ''_ts_ns'' = Some (JInt ns)" if "e \<in> set kc" for e
    using ok [OF that] by (auto simp: event_entry_def timed_def time_of_def)
  have dom: "map_of d (KStr s) \<noteq> None \<longleftrightarrow> login_times kc s \<noteq> {}" for s
  proof -
    have "map_of d (KStr s) \<noteq> None \<longleftrightarrow> (\<exists>e \<in> set kc. login_of e = Some (KStr s))"
      using logins.loop_dom [OF d(1)] by (auto simp: dom_def)
    also have "\<dots> \<longleftrightarrow> login_times kc s \<noteq> {}"
      using login_of_iff [OF ok] time by (fastforce simp: login_times_def)
    finally show ?thesis .
  qed
  have "v = JInt (Min (login_times kc s))" if v: "map_of d (KStr s) = Some v" for s v
  proof -
    have "is_number (time_of e)" if "e \<in> set kc" for e
      using time [OF that] by (auto simp: is_number_def)
    from logins.lookup_least [OF d(1) v this]
    obtain e where e: "e \<in> set kc" "login_of e = Some (KStr s)" "v = time_of e"
      "\<And>e'. e' \<in> set kc \<Longrightarrow> login_of e' = Some (KStr s) \<Longrightarrow> num_of_json v \<le> num_of_json (time_of e')"
      by blast
    from time [OF e(1)] e(3) obtain ns where ns: "v = JInt ns" "map_of e ''_ts_ns'' = Some (JInt ns)" by auto
    have "Min (login_times kc s) = ns"
    proof (rule Min_timesI)
      show "ns \<in> login_times kc s"
        using e(1,2) ns(2) login_of_iff [OF ok [OF e(1)]] by (auto simp: login_times_def)
      show "finite (login_times kc s)" unfolding login_times_def by (rule finite_times)
    next
      fix m assume "m \<in> login_times kc s"
      then obtain e' where e': "e' \<in> set kc" "event_value e' ''userId'' = Some s" "map_of e' ''_ts_ns'' = Some (JInt m)"
        by (auto simp: login_times_def)
      then have "login_of e' = Some (KStr s)" using login_of_iff [OF ok [OF e'(1)]] by auto
      from e(4) [OF e'(1) this] e'(3) ns(1) show "(of_int ns :: rat) \<le> of_int m"
        by (simp add: time_of_def num_of_json_def)
    qed
    with ns(1) show ?thesis by simp
  qed
  with dom have "map_of d (KStr s) = (if login_times kc s = {} then None else Some (JInt (Min (login_times kc s))))" for s
    by (metis not_Some_eq)
  with that d show ?thesis by blast
qed

lemma compare_logins_ok:
  assumes "\<forall>(k, ts, svc) \<in> set d. int_timed ts" "\<forall>k v. map_of l k = Some v \<longrightarrow> int_timed v"
  shows "\<exists>info hard. compare_logins l d = Inr (info, hard) \<and>
    (\<forall>(k, ts, svc) \<in> set info. int_timed ts) \<and>
    (\<forall>((k, ts, svc), login) \<in> set hard. int_timed ts \<and> int_timed login) \<and>
    (hard = [] \<longleftrightarrow> (\<forall>(k, ts, svc) \<in> set d. \<forall>login. map_of l k = Some login \<longrightarrow> num_of_json login \<le> num_of_json ts))"
  using assms(1)
proof (induction d)
  case (Cons a rest)
  obtain sub ts svc where a: "a = (sub, ts, svc)" by (cases a)
  with Cons.prems have t: "int_timed ts" "\<forall>(k, ts, svc) \<in> set rest. int_timed ts" by auto
  from Cons.IH [OF t(2)] obtain info hard where ih: "compare_logins l rest = Inr (info, hard)"
    "\<forall>(k, ts, svc) \<in> set info. int_timed ts"
    "\<forall>((k, ts, svc), login) \<in> set hard. int_timed ts \<and> int_timed login"
    "hard = [] \<longleftrightarrow> (\<forall>(k, ts, svc) \<in> set rest. \<forall>login. map_of l k = Some login \<longrightarrow> num_of_json login \<le> num_of_json ts)"
    by blast
  show ?case
  proof (cases "map_of l sub")
    case None
    with a ih t show ?thesis by auto
  next
    case (Some login)
    then have login: "int_timed login" using assms(2) by blast
    then have "py_less ts login = Inr (num_of_json ts < num_of_json login)"
      using t(1) int_timed_facts(1) by (intro py_less_numbers)
    then have step: "compare_logins l (a # rest) =
        Inr (info, if num_of_json ts < num_of_json login then ((sub, ts, svc), login) # hard else hard)"
      using Some a ih(1) int_timed_facts(3) [OF login] by simp
    show ?thesis
      unfolding step using ih(2-4) Some a t(1) login
      by (intro exI conjI) (rule refl, auto simp: not_less)
  qed
qed simp

lemma no_login_line_ok: "int_timed ts \<Longrightarrow> outcome (no_login_line (k, ts, svc)) = Inr ()"
  using int_timed_facts(2) [of ts] by (auto simp: no_login_line_def run_simps)

lemma early_access_line_ok:
  "int_timed ts \<Longrightarrow> int_timed login \<Longrightarrow> outcome (early_access_line ((k, ts, svc), login)) = Inr ()"
  using int_timed_facts(2) [of ts] int_timed_facts(2) [of login] by (auto simp: early_access_line_def run_simps)

lemma py_sorted_times:
  assumes "\<And>x. x \<in> set xs \<Longrightarrow> is_number (f x)"
  shows "\<exists>ys. py_sorted f xs = Inr ys \<and> set ys = set xs"
proof -
  from assms have "py_sorted f xs = Inr (sort_key (\<lambda>x. the (num_val (f x))) xs)"
    by (intro py_sorted_numbers) (auto simp: is_number_def)
  then show ?thesis by simp
qed

lemma check3_outcome:
  assumes "outcome (query_loki cfg loki (access_log_query (USER_FACING_SERVICES @ ''|'' @ DOWNSTREAM_SERVICES))
      s e default_limit) = Inr svc"
    and "outcome (query_loki cfg loki login_query s e default_limit) = Inr kc"
    and "list_all access_entry svc" "list_all event_entry kc"
  shows "outcome (check3 cfg loki s e) =
    Inr (\<forall>u \<in> subjects svc. login_times kc u \<noteq> {} \<longrightarrow> Min (login_times kc u) \<le> Min (access_times svc u))"
proof -
  obtain d where d: "efold access_step svc [] = Inr d" "fst ` set d = KStr ` subjects svc"
    "\<And>s v. map_of d (KStr s) = Some v \<Longrightarrow> fst v = JInt (Min (access_times svc s))"
    "wf_dict d" "\<And>k v. map_of d k = Some v \<Longrightarrow> int_timed (fst v)"
    using access_loop [OF assms(3)] by blast
  obtain l where l: "efold login_step kc [] = Inr l"
    "\<And>s. map_of l (KStr s) = (if login_times kc s = {} then None else Some (JInt (Min (login_times kc s))))"
    "\<forall>k v. map_of l k = Some v \<longrightarrow> int_timed v"
    using login_loop [OF assms(4)] by blast
  have dt: "\<forall>(k, ts, svc) \<in> set d. int_timed ts"
    using d(5) wf_dict_mem_iff [OF d(4)] by fastforce
  obtain info hard where c: "compare_logins l d = Inr (info, hard)"
    "\<forall>(k, ts, svc) \<in> set info. int_timed ts"
    "\<forall>((k, ts, svc), login) \<in> set hard. int_timed ts \<and> int_timed login"
    "hard = [] \<longleftrightarrow> (\<forall>(k, ts, svc) \<in> set d. \<forall>login. map_of l k = Some login \<longrightarrow> num_of_json login \<le> num_of_json ts)"
    using compare_logins_ok [OF dt l(3)] by blast
  have verdict: "hard = [] \<longleftrightarrow> (\<forall>u \<in> subjects svc. login_times kc u \<noteq> {} \<longrightarrow> Min (login_times kc u) \<le> Min (access_times svc u))"
    (is "_ \<longleftrightarrow> ?r")
  proof -
    have one: "(\<forall>login. map_of l (KStr u) = Some login \<longrightarrow> num_of_json login \<le> num_of_json (fst v)) \<longleftrightarrow>
        (login_times kc u \<noteq> {} \<longrightarrow> Min (login_times kc u) \<le> Min (access_times svc u))"
      if "map_of d (KStr u) = Some v" for u v
      using d(3) [OF that] l(2) [of u] by (simp add: num_of_json_def)
    have "hard = [] \<longleftrightarrow> (\<forall>k v. map_of d k = Some v \<longrightarrow> (\<forall>login. map_of l k = Some login \<longrightarrow> num_of_json login \<le> num_of_json (fst v)))"
      unfolding c(4) by (auto simp: wf_dict_mem_iff [OF d(4), symmetric])
    also have "\<dots> \<longleftrightarrow> (\<forall>u \<in> subjects svc. \<forall>v. map_of d (KStr u) = Some v \<longrightarrow>
        (\<forall>login. map_of l (KStr u) = Some login \<longrightarrow> num_of_json login \<le> num_of_json (fst v)))"
    proof -
      have "\<exists>u \<in> subjects svc. k = KStr u" if "map_of d k = Some v" for k v
      proof -
        have "k \<in> fst ` set d" using that by (simp add: dict_keys_dom domI)
        then show ?thesis unfolding d(2) by blast
      qed
      then show ?thesis by metis
    qed
    also have "\<dots> \<longleftrightarrow> ?r"
    proof -
      have "\<exists>v. map_of d (KStr u) = Some v" if "u \<in> subjects svc" for u
      proof -
        have "KStr u \<in> fst ` set d" unfolding d(2) using that by blast
        then show ?thesis by (simp only: dict_keys_dom) blast
      qed
      with one show ?thesis by metis
    qed
    finally show ?thesis .
  qed
  obtain xs where xs: "py_sorted (\<lambda>a. fst (snd a)) info = Inr xs" "set xs = set info"
    using py_sorted_times [of info "\<lambda>a. fst (snd a)"] c(2) int_timed_facts(1) by fastforce
  obtain hs where hs: "py_sorted (\<lambda>al. fst (snd (fst al))) hard = Inr hs" "set hs = set hard"
    using py_sorted_times [of hard "\<lambda>al. fst (snd (fst al))"] c(3) int_timed_facts(1) by fastforce
  have "outcome (wfor xs no_login_line) = Inr ()"
    using xs(2) c(2) no_login_line_ok by (intro wfor_outcome_ok) fastforce
  moreover have "outcome (wfor hs early_access_line) = Inr ()"
    using hs(2) c(3) early_access_line_ok by (intro wfor_outcome_ok) fastforce
  ultimately have "outcome (check3 cfg loki s e) = Inr (hard = [])"
    using assms(1,2) d(1) l(1) c(1) xs(1) hs(1) by (simp add: check3_def run_simps cong: if_cong)
  with verdict show ?thesis by simp
qed

section \<open>Concrete logs\<close>

text \<open>Logs on which the properties are applied: one use of a token, one exchange, one login.\<close>

definition access_line :: "dict \<Rightarrow> string" where
  "access_line e = dumps_default (\<lambda>q. []) (JObj e)"

definition sample_use :: "string \<Rightarrow> dict" where
  "sample_use token =
     [(''type'', JStr ''access_log''), (''status'', JInt 200), (''sub'', JStr ''u1''), (''jti'', JStr token)]"

definition sample_issue :: string where
  "sample_issue = event_line [(''type'', ''TOKEN_EXCHANGE''), (''audience'', ''order-service''),
     (''token_id'', ''t1''), (''userId'', ''u1'')]"

definition sample_login :: string where
  "sample_login = event_line [(''type'', ''LOGIN''), (''userId'', ''u1'')]"

definition sample_loki :: "string \<Rightarrow> loki" where
  "sample_loki token r =
     (if lr_query r = exchange_query then Body (loki_body [(''keycloak'', [(5, sample_issue)])])
      else if lr_query r = login_query then Body (loki_body [(''keycloak'', [(3, sample_login)])])
      else Body (loki_body [(''order-service'', [(7, access_line (sample_use token))])]))"

lemma access_line_fields:
  "plain_json (JObj e) \<Longrightarrow> readable_line (access_line e)"
  "plain_json (JObj e) \<Longrightarrow> line_fields (access_line e) = e"
  using json_text.dec_enc [of "JObj e"] by (simp_all add: access_line_def readable_line_def line_fields_def)

lemma event_line_text:
  "json_loads sample_issue = Inl JSONDecodeError" "json_loads sample_login = Inl JSONDecodeError"
  by code_simp+

lemma query_one_line:
  assumes "loki (loki_query cfg q s e l) = Body (loki_body [(svc, [tln])])" "readable_line (snd tln)"
  shows "outcome (query_loki cfg loki q s e l) = Inr [entry_of svc tln]"
  using read_body_ok [of "[(svc, [tln])]"] assms by (simp add: query_loki_outcome)

definition use_entry :: "string \<Rightarrow> dict" where
  "use_entry token = sample_use token @ [(''_ts_ns'', JInt 7), (''_service'', JStr ''order-service'')]"

definition issue_entry :: dict where
  "issue_entry = [(''_raw'', JStr sample_issue), (''_ts_ns'', JInt 5), (''_service'', JStr ''keycloak'')]"

definition login_entry :: dict where
  "login_entry = [(''_raw'', JStr sample_login), (''_ts_ns'', JInt 3), (''_service'', JStr ''keycloak'')]"

lemma queries_differ: "exchange_query \<noteq> login_query"
  "access_log_query x \<noteq> exchange_query" "access_log_query x \<noteq> login_query"
  "access_log_query x @ y \<noteq> exchange_query" "access_log_query x @ y \<noteq> login_query"
  by (simp_all add: exchange_query_def login_query_def access_log_query_def)

lemma sample_queries:
  "outcome (query_loki cfg (sample_loki token) exchange_query s e l) = Inr [issue_entry]"
  "outcome (query_loki cfg (sample_loki token) login_query s e l) = Inr [login_entry]"
  "outcome (query_loki cfg (sample_loki token) (access_log_query x) s e l) = Inr [use_entry token]"
  "outcome (query_loki cfg (sample_loki token) (access_log_query x @ y) s e l) = Inr [use_entry token]"
proof -
  have lines: "readable_line sample_issue" "readable_line sample_login"
    by (simp_all add: readable_line_def event_line_text)
  have "plain_json (JObj (sample_use token))" by (simp add: plain_json_def sample_use_def)
  note use = access_line_fields [OF this]
  have entries: "entry_of ''keycloak'' (5, sample_issue) = issue_entry"
    "entry_of ''keycloak'' (3, sample_login) = login_entry"
    by (simp_all add: entry_of_def line_fields_def event_line_text setdefault_def issue_entry_def login_entry_def)
  have use_ok: "entry_of ''order-service'' (7, access_line (sample_use token)) = use_entry token"
    by (simp add: entry_of_def use(2)) (simp add: setdefault_def use_entry_def sample_use_def)
  note one = query_one_line [where loki = "sample_loki token"]
  show "outcome (query_loki cfg (sample_loki token) exchange_query s e l) = Inr [issue_entry]"
    unfolding entries(1) [symmetric]
    by (rule one) (simp_all add: sample_loki_def loki_query_def lines)
  show "outcome (query_loki cfg (sample_loki token) login_query s e l) = Inr [login_entry]"
    unfolding entries(2) [symmetric]
    by (rule one) (simp_all add: sample_loki_def loki_query_def lines queries_differ(1) [symmetric])
  show "outcome (query_loki cfg (sample_loki token) (access_log_query x) s e l) = Inr [use_entry token]"
    "outcome (query_loki cfg (sample_loki token) (access_log_query x @ y) s e l) = Inr [use_entry token]"
    unfolding use_ok [symmetric]
    by (rule one; simp add: sample_loki_def loki_query_def queries_differ use(1))+
qed

lemma sample_entries:
  "list_all access_entry [use_entry token]" "list_all event_entry [issue_entry]" "list_all event_entry [login_entry]"
  by (simp_all add: access_entry_def event_entry_def timed_def plausible_time_def text_member_def use_entry_def
      sample_use_def issue_entry_def login_entry_def)

lemma sample_fields:
  "kv_extract sample_issue ''token_id'' = Some ''t1''" "kv_extract sample_issue ''audience'' = Some ''order-service''"
  "kv_extract sample_issue ''userId'' = Some ''u1''" "kv_extract sample_login ''userId'' = Some ''u1''"
  by code_simp+

lemma check2_unbacked:
  assumes "outcome (query_loki cfg loki (access_log_query EXCHANGED_TOKEN_SERVICES @ '' | status != 401'')
      s e default_limit) = Inr ds"
    and "outcome (query_loki cfg loki exchange_query (s - EXCHANGE_LOOKBACK_SECONDS cfg * 1000000000) e default_limit) = Inr kc"
    and "list_all access_entry ds" "list_all event_entry kc"
    and "(j, a) \<in> token_uses ds" "\<not> list_ex (issues j a) kc"
  shows "outcome (check2 cfg loki s e) = Inr False"
proof -
  have "filter (issues j a) kc = []" using assms(6) by (auto simp: list_ex_iff filter_empty_conv)
  then have "\<not> use_backed kc j a x" for x by (simp add: use_backed_def)
  with check2_outcome [OF assms(1-4)] assms(5) show ?thesis by auto
qed

section \<open>Properties\<close>

text \<open>
  C4: Check 1 decides token reuse across the hops: on well-formed logs it returns, and it passes exactly
  when no token id occurs both in the logs of the user-facing services and in those of the downstream
  services.
\<close>

theorem check1_verdict:
  assumes "outcome (query_loki cfg loki (access_log_query USER_FACING_SERVICES) s e default_limit) = Inr us"
    and "outcome (query_loki cfg loki (access_log_query DOWNSTREAM_SERVICES) s e default_limit) = Inr ds"
    and "list_all access_entry us" "list_all access_entry ds"
  shows "outcome (check1 cfg loki s e) = Inr (token_ids us \<inter> token_ids ds = {})"
  by (rule check1_outcome [OF assms])

theorem check1_verdict_witness:
  "outcome (check1 sample_config (sample_loki ''t1'') 0 10) = Inr False"
proof -
  have "''t1'' \<in> token_ids [use_entry ''t1'']" by (simp add: token_ids_def use_entry_def sample_use_def)
  then have "token_ids [use_entry ''t1''] \<inter> token_ids [use_entry ''t1''] \<noteq> {}" by blast
  then show ?thesis
    using check1_verdict [OF sample_queries(3) sample_queries(3) sample_entries(1) sample_entries(1)] by simp
qed

text \<open>
  C2: Check 2 decides whether the tokens used were issued by an exchange: on well-formed logs it returns,
  and it passes exactly when for every token and service used the latest TOKEN_EXCHANGE event of that
  token and audience exists and does not name another user than the first use.
\<close>

theorem check2_verdict:
  assumes "outcome (query_loki cfg loki (access_log_query EXCHANGED_TOKEN_SERVICES @ '' | status != 401'')
      s e default_limit) = Inr ds"
    and "outcome (query_loki cfg loki exchange_query (s - EXCHANGE_LOOKBACK_SECONDS cfg * 1000000000) e default_limit) = Inr kc"
    and "list_all access_entry ds" "list_all event_entry kc"
  shows "outcome (check2 cfg loki s e) =
    Inr (\<forall>(j, a) \<in> token_uses ds. use_backed kc j a (the (find (is_use j a) ds)))"
  by (rule check2_outcome [OF assms])

lemma sample_use_facts:
  "token_uses [use_entry t] = (if t = [] \<or> t = ''-'' then {} else {(t, ''order-service'')})"
  "is_use t ''order-service'' (use_entry t)"
  by (auto simp: token_uses_def is_use_def use_entry_def sample_use_def split: if_splits)

lemma sample_issue_facts:
  "issues j a issue_entry \<longleftrightarrow> j = ''t1'' \<and> a = ''order-service''" "event_value issue_entry ''userId'' = Some ''u1''"
  by (auto simp: issues_def event_value_def issue_entry_def sample_fields)

theorem check2_verdict_witness:
  "outcome (check2 sample_config (sample_loki ''t1'') 0 10) = Inr True"
proof -
  have "use_backed [issue_entry] ''t1'' ''order-service'' (use_entry ''t1'')"
    by (simp add: use_backed_def sample_issue_facts) (simp add: use_entry_def sample_use_def)
  then show ?thesis
    using check2_verdict [OF sample_queries(4) sample_queries(1) sample_entries(1) sample_entries(2)]
      sample_use_facts by simp
qed

text \<open>The same logs with the token used once more, later.\<close>

definition cached_loki :: "string \<Rightarrow> loki" where
  "cached_loki token r =
     (if lr_query r = exchange_query then sample_loki token r
      else Body (loki_body [(''order-service'', [(7, access_line (sample_use token)), (9, access_line (sample_use token))])]))"

definition later_use :: "string \<Rightarrow> dict" where
  "later_use token = sample_use token @ [(''_ts_ns'', JInt 9), (''_service'', JStr ''order-service'')]"

lemma later_use_facts: "access_entry (later_use t)" "token_uses [later_use t] \<subseteq> token_uses [use_entry t]"
  by (auto simp: access_entry_def timed_def plausible_time_def text_member_def later_use_def use_entry_def
      sample_use_def token_uses_def)

lemma cached_queries:
  "outcome (query_loki cfg (cached_loki token) (access_log_query x @ y) s e l) = Inr ([use_entry token] @ [later_use token])"
  "outcome (query_loki cfg (cached_loki token) exchange_query s e l) = Inr [issue_entry]"
proof -
  have "plain_json (JObj (sample_use token))" by (simp add: plain_json_def sample_use_def)
  note use = access_line_fields [OF this]
  have "entry_of ''order-service'' (7, access_line (sample_use token)) = use_entry token"
    "entry_of ''order-service'' (9, access_line (sample_use token)) = later_use token"
    by (simp_all add: entry_of_def use(2)) (simp_all add: setdefault_def use_entry_def later_use_def sample_use_def)
  then have "read_body (loki_body [(''order-service'', [(7, access_line (sample_use token)), (9, access_line (sample_use token))])]) =
      Inr ([use_entry token] @ [later_use token])"
    by (subst read_body_ok) (use use(1) in auto)
  then show "outcome (query_loki cfg (cached_loki token) (access_log_query x @ y) s e l) =
      Inr ([use_entry token] @ [later_use token])"
    using queries_differ(4) [of x y] by (simp add: query_loki_outcome cached_loki_def loki_query_def)
  show "outcome (query_loki cfg (cached_loki token) exchange_query s e l) = Inr [issue_entry]"
    using sample_queries(1) [of cfg token s e l] by (simp add: query_loki_outcome cached_loki_def loki_query_def)
qed

text \<open>
  C34: A cached token is no violation: more uses of tokens at services where they were already used do
  not change the verdict of check 2.
\<close>

theorem check2_ignores_repeated_uses:
  assumes "outcome (query_loki cfg loki (access_log_query EXCHANGED_TOKEN_SERVICES @ '' | status != 401'')
      s e default_limit) = Inr ds"
    and "outcome (query_loki cfg loki' (access_log_query EXCHANGED_TOKEN_SERVICES @ '' | status != 401'')
      s e default_limit) = Inr (ds @ again)"
    and "outcome (query_loki cfg loki exchange_query (s - EXCHANGE_LOOKBACK_SECONDS cfg * 1000000000) e default_limit) = Inr kc"
    and "outcome (query_loki cfg loki' exchange_query (s - EXCHANGE_LOOKBACK_SECONDS cfg * 1000000000) e default_limit) = Inr kc"
    and "list_all access_entry (ds @ again)" "list_all event_entry kc"
    and "token_uses again \<subseteq> token_uses ds"
  shows "outcome (check2 cfg loki' s e) = outcome (check2 cfg loki s e)"
proof -
  have uses: "token_uses (ds @ again) = token_uses ds" using assms(7) by (auto simp: token_uses_def)
  have "find (is_use j a) (ds @ again) = find (is_use j a) ds" if "(j, a) \<in> token_uses ds" for j a
  proof -
    have "find (is_use j a) ds \<noteq> None" using that by (auto simp: token_uses_def is_use_def find_None_iff)
    then show ?thesis by (induction ds) auto
  qed
  then have "(\<forall>(j, a) \<in> token_uses ds. use_backed kc j a (the (find (is_use j a) (ds @ again)))) \<longleftrightarrow>
      (\<forall>(j, a) \<in> token_uses ds. use_backed kc j a (the (find (is_use j a) ds)))" by auto
  with check2_outcome [OF assms(2,4,5,6)] check2_outcome [OF assms(1,3) _ assms(6)] assms(5) uses
  show ?thesis by simp
qed

theorem check2_ignores_repeated_uses_witness:
  "outcome (check2 sample_config (cached_loki ''t1'') 0 10) = outcome (check2 sample_config (sample_loki ''t1'') 0 10)"
  by (rule check2_ignores_repeated_uses [OF sample_queries(4) cached_queries(1) sample_queries(1) cached_queries(2)])
    (use sample_entries in \<open>simp_all add: later_use_facts\<close>)

text \<open>
  C5: Check 3 accuses only with evidence: on well-formed logs it returns, and it fails exactly when some
  subject has a login event in the window and its earliest login is later than its earliest access;
  subjects without a login event are never violations.
\<close>

theorem check3_verdict:
  assumes "outcome (query_loki cfg loki (access_log_query (USER_FACING_SERVICES @ ''|'' @ DOWNSTREAM_SERVICES))
      s e default_limit) = Inr svc"
    and "outcome (query_loki cfg loki login_query s e default_limit) = Inr kc"
    and "list_all access_entry svc" "list_all event_entry kc"
  shows "outcome (check3 cfg loki s e) =
    Inr (\<forall>u \<in> subjects svc. login_times kc u \<noteq> {} \<longrightarrow> Min (login_times kc u) \<le> Min (access_times svc u))"
  by (rule check3_outcome [OF assms])

lemma sample_times:
  "login_times [login_entry] u = (if u = ''u1'' then {3} else {})"
  "access_times [use_entry t] u = (if u = ''u1'' then {7} else {})"
  by (auto simp: login_times_def access_times_def event_value_def login_entry_def sample_fields use_entry_def sample_use_def)

theorem check3_verdict_witness:
  "outcome (check3 sample_config (sample_loki ''t1'') 0 10) = Inr True"
  using check3_verdict [OF sample_queries(3) sample_queries(2) sample_entries(1) sample_entries(3)]
  by (simp add: sample_times)

end
