(* ===== verification/AuditMain.thy ===== *)
theory AuditMain imports AuditVerdicts begin

text \<open>
  The entry point of \<^verbatim>\<open>audit/audit.py\<close>: the window, the three checks in order, the summary and the exit
  status.
\<close>

section \<open>The program\<close>

text \<open>
  \<open>timestamp\<close> is \<open>datetime.now(timezone.utc).timestamp()\<close>. The two \<open>fromtimestamp\<close> calls come before the
  first line is printed.
\<close>

definition audit_main :: "audit_config \<Rightarrow> loki \<Rightarrow> rat \<Rightarrow> (report, unit) run" where
  "audit_main cfg loki timestamp =
     (let now_ns = py_trunc (timestamp * 1000000000);
          start_ns = now_ns - WINDOW_SECONDS cfg * 1000000000
      in wbind (lift_exn (ts_str (JInt now_ns))) (\<lambda>_.
         wbind (lift_exn (ts_str (JInt start_ns))) (\<lambda>_.
         wthen (emit Rule)
         (wthen (emit Report_title)
         (wthen (emit (Report_loki (LOKI_URL cfg)))
         (wthen (emit (Report_period start_ns now_ns (WINDOW_SECONDS cfg div 60)))
         (wthen (emit Rule)
         (wbind (check1 cfg loki start_ns now_ns) (\<lambda>r1.
          wbind (check2 cfg loki start_ns now_ns) (\<lambda>r2.
          wbind (check3 cfg loki start_ns now_ns) (\<lambda>r3.
          let ok = (r1 \<and> r2 \<and> r3) in
          wthen (emit Rule)
          (wthen (emit (Overall r1 r2 r3))
          (wthen (emit (Conclusion ok))
          (wthen (emit Rule)
          (lift_exn (Inl (SystemExit (if ok then 0 else 1))))))))))))))))))"

text \<open>The whole program: the settings are read when the module is loaded.\<close>

definition audit_program :: "(string \<Rightarrow> string option) \<Rightarrow> loki \<Rightarrow> rat \<Rightarrow> (report, unit) run" where
  "audit_program environ loki timestamp =
     wbind (lift_exn (audit_settings environ)) (\<lambda>cfg. audit_main cfg loki timestamp)"

section \<open>What a clean system is\<close>

text \<open>The logs that one run reads, and the three conditions on them.\<close>

record audit_logs =
  user_log :: "dict list"
  downstream_log :: "dict list"
  exchanged_log :: "dict list"
  exchange_events :: "dict list"
  access_log :: "dict list"
  login_events :: "dict list"

definition reads_logs :: "audit_config \<Rightarrow> loki \<Rightarrow> int \<Rightarrow> int \<Rightarrow> audit_logs \<Rightarrow> bool" where
  "reads_logs cfg loki s e logs \<longleftrightarrow>
     outcome (query_loki cfg loki (access_log_query USER_FACING_SERVICES) s e default_limit) = Inr (user_log logs) \<and>
     outcome (query_loki cfg loki (access_log_query DOWNSTREAM_SERVICES) s e default_limit) = Inr (downstream_log logs) \<and>
     outcome (query_loki cfg loki (access_log_query EXCHANGED_TOKEN_SERVICES @ '' | status != 401'') s e default_limit) =
       Inr (exchanged_log logs) \<and>
     outcome (query_loki cfg loki exchange_query (s - EXCHANGE_LOOKBACK_SECONDS cfg * 1000000000) e default_limit) =
       Inr (exchange_events logs) \<and>
     outcome (query_loki cfg loki (access_log_query (USER_FACING_SERVICES @ ''|'' @ DOWNSTREAM_SERVICES)) s e default_limit) =
       Inr (access_log logs) \<and>
     outcome (query_loki cfg loki login_query s e default_limit) = Inr (login_events logs)"

definition well_formed_logs :: "audit_logs \<Rightarrow> bool" where
  "well_formed_logs logs \<longleftrightarrow>
     list_all access_entry (user_log logs) \<and> list_all access_entry (downstream_log logs) \<and>
     list_all access_entry (exchanged_log logs) \<and> list_all event_entry (exchange_events logs) \<and>
     list_all access_entry (access_log logs) \<and> list_all event_entry (login_events logs)"

definition no_reuse :: "audit_logs \<Rightarrow> bool" where
  "no_reuse logs \<longleftrightarrow> token_ids (user_log logs) \<inter> token_ids (downstream_log logs) = {}"

definition all_exchanged :: "audit_logs \<Rightarrow> bool" where
  "all_exchanged logs \<longleftrightarrow>
     (\<forall>(j, a) \<in> token_uses (exchanged_log logs).
        use_backed (exchange_events logs) j a (the (find (is_use j a) (exchanged_log logs))))"

definition logins_first :: "audit_logs \<Rightarrow> bool" where
  "logins_first logs \<longleftrightarrow>
     (\<forall>u \<in> subjects (access_log logs). login_times (login_events logs) u \<noteq> {} \<longrightarrow>
        Min (login_times (login_events logs) u) \<le> Min (access_times (access_log logs) u))"

definition clean :: "audit_logs \<Rightarrow> bool" where
  "clean logs \<longleftrightarrow> no_reuse logs \<and> all_exchanged logs \<and> logins_first logs"

lemma checks_of_logs:
  assumes "reads_logs cfg loki s e logs" "well_formed_logs logs"
  shows "outcome (check1 cfg loki s e) = Inr (no_reuse logs)"
    and "outcome (check2 cfg loki s e) = Inr (all_exchanged logs)"
    and "outcome (check3 cfg loki s e) = Inr (logins_first logs)"
  using assms check1_outcome check2_outcome check3_outcome
  unfolding reads_logs_def well_formed_logs_def no_reuse_def all_exchanged_def logins_first_def
  by blast+

definition now_ns :: "rat \<Rightarrow> int" where
  "now_ns timestamp = py_trunc (timestamp * 1000000000)"

definition start_ns :: "audit_config \<Rightarrow> rat \<Rightarrow> int" where
  "start_ns cfg timestamp = now_ns timestamp - WINDOW_SECONDS cfg * 1000000000"

lemma audit_main_outcome:
  assumes "plausible_time (now_ns t)" "plausible_time (start_ns cfg t)"
    and "outcome (check1 cfg loki (start_ns cfg t) (now_ns t)) = Inr r1"
    and "outcome (check2 cfg loki (start_ns cfg t) (now_ns t)) = Inr r2"
    and "outcome (check3 cfg loki (start_ns cfg t) (now_ns t)) = Inr r3"
  shows "outcome (audit_main cfg loki t) = Inl (SystemExit (if r1 \<and> r2 \<and> r3 then 0 else 1))"
  using assms ts_str_ok [OF assms(1)] ts_str_ok [OF assms(2)]
  by (auto simp: audit_main_def run_simps Let_def now_ns_def start_ns_def simp del: ts_str.simps)

section \<open>Properties\<close>

text \<open>
  C1: The audit implements its specification: on well-formed logs the program ends with exit status 0
  when no token was reused across the hops, every token used was issued by an exchange to its user, and
  no subject was active before its first login; otherwise with exit status 1.
\<close>

theorem audit_exit_status:
  assumes "plausible_time (now_ns t)" "plausible_time (start_ns cfg t)"
    and "reads_logs cfg loki (start_ns cfg t) (now_ns t) logs" "well_formed_logs logs"
  shows "outcome (audit_main cfg loki t) = Inl (SystemExit (if clean logs then 0 else 1))"
  using audit_main_outcome [OF assms(1,2) checks_of_logs [OF assms(3,4)]] by (simp add: clean_def)

theorem audit_exit_status_witness:
  "outcome (audit_main sample_config (sample_loki ''t1'') 5000) = Inl (SystemExit 1)"
proof -
  let ?l = "\<lparr>user_log = [use_entry ''t1''], downstream_log = [use_entry ''t1''], exchanged_log = [use_entry ''t1''],
    exchange_events = [issue_entry], access_log = [use_entry ''t1''], login_events = [login_entry]\<rparr>"
  have "''t1'' \<in> token_ids [use_entry ''t1'']" by (simp add: token_ids_def use_entry_def sample_use_def)
  then have dirty: "\<not> clean ?l" by (auto simp: clean_def no_reuse_def)
  have "reads_logs sample_config (sample_loki ''t1'') (start_ns sample_config 5000) (now_ns 5000) ?l"
    by (simp add: reads_logs_def sample_queries)
  moreover have "well_formed_logs ?l" using sample_entries by (simp add: well_formed_logs_def)
  moreover have "plausible_time (now_ns 5000)" "plausible_time (start_ns sample_config 5000)"
    by (simp_all add: plausible_time_def now_ns_def start_ns_def py_trunc_def sample_config_def)
  ultimately have "outcome (audit_main sample_config (sample_loki ''t1'') 5000) = Inl (SystemExit (if clean ?l then 0 else 1))"
    by (intro audit_exit_status)
  with dirty show ?thesis by simp
qed

text \<open>
  C35: An unreachable Loki passes the audit: when every request fails, every query returns no entries, all
  three checks pass and the exit status is 0.
\<close>

theorem audit_passes_without_loki:
  assumes "plausible_time (now_ns t)" "plausible_time (start_ns cfg t)"
    and "\<And>r. \<exists>m. loki r = Request_failed m"
  shows "outcome (audit_main cfg loki t) = Inl (SystemExit 0)"
proof -
  let ?l = "\<lparr>user_log = [], downstream_log = [], exchanged_log = [], exchange_events = [], access_log = [],
    login_events = []\<rparr>"
  have "outcome (query_loki cfg loki q s e l) = Inr []" for q s e l
    using assms(3) [of "loki_query cfg q s e l"] by (auto simp: query_loki_outcome)
  then have r: "reads_logs cfg loki (start_ns cfg t) (now_ns t) ?l" by (simp add: reads_logs_def)
  have w: "well_formed_logs ?l" by (simp add: well_formed_logs_def)
  have "no_reuse ?l" "all_exchanged ?l" "logins_first ?l"
    by (simp_all add: no_reuse_def all_exchanged_def logins_first_def token_ids_def token_uses_def subjects_def
        access_times_def)
  then show ?thesis using audit_main_outcome [OF assms(1,2) checks_of_logs [OF r w]] by simp
qed

theorem audit_passes_without_loki_witness:
  "outcome (audit_main sample_config (\<lambda>r. Request_failed ''connection refused'') 5000) = Inl (SystemExit 0)"
  by (rule audit_passes_without_loki)
    (simp_all add: plausible_time_def now_ns_def start_ns_def py_trunc_def sample_config_def)

text \<open>
  C36: The settings are what the environment says: each numeric one is its number (of at most 4300 digits)
  when it is set and its default, one hour or five minutes, when it is not, whatever else is set.
\<close>

theorem audit_settings_read:
  assumes "environ ''AUDIT_WINDOW_SECONDS'' = None \<and> w = 3600 \<or>
      environ ''AUDIT_WINDOW_SECONDS'' = Some (string_of_int w) \<and> length (string_of_nat (nat \<bar>w\<bar>)) \<le> 4300"
    and "environ ''AUDIT_EXCHANGE_LOOKBACK_SECONDS'' = None \<and> b = 300 \<or>
      environ ''AUDIT_EXCHANGE_LOOKBACK_SECONDS'' = Some (string_of_int b) \<and> length (string_of_nat (nat \<bar>b\<bar>)) \<le> 4300"
  shows "audit_settings environ =
     Inr \<lparr>LOKI_URL = (case environ ''LOKI_URL'' of None \<Rightarrow> ''http://otel-lgtm:3100'' | Some url \<Rightarrow> url),
          WINDOW_SECONDS = w, EXCHANGE_LOOKBACK_SECONDS = b\<rparr>"
proof -
  have "int_setting ''3600'' = Inr 3600" "int_setting ''300'' = Inr 300" by code_simp+
  then have "int_setting (environ_get environ ''AUDIT_WINDOW_SECONDS'' ''3600'') = Inr w"
    "int_setting (environ_get environ ''AUDIT_EXCHANGE_LOOKBACK_SECONDS'' ''300'') = Inr b"
    using assms by (auto simp: environ_get_def int_setting_string_of_int)
  then show ?thesis by (simp add: audit_settings_def environ_get_def)
qed

theorem audit_settings_read_witness:
  "audit_settings [''AUDIT_EXCHANGE_LOOKBACK_SECONDS'' \<mapsto> string_of_int 60, ''OTHER'' \<mapsto> ''x''] =
     Inr \<lparr>LOKI_URL = ''http://otel-lgtm:3100'', WINDOW_SECONDS = 3600, EXCHANGE_LOOKBACK_SECONDS = 60\<rparr>"
proof -
  have "string_of_nat 60 = ''60''" by code_simp
  then show ?thesis by (subst audit_settings_read [where w = 3600 and b = 60]) simp_all
qed

text \<open>
  C37: A bad setting stops the program before it prints or asks anything: when either numeric setting is
  empty, has a character that no numeral has (other than digits, signs, underscores and white space), or has
  more than 4300 digits, the program ends with a \<open>ValueError\<close> and no output.
\<close>

theorem audit_rejects_bad_setting:
  assumes "k \<in> {''AUDIT_WINDOW_SECONDS'', ''AUDIT_EXCHANGE_LOOKBACK_SECONDS''}" "environ k = Some v"
    and "v = [] \<or> list_ex (\<lambda>c. \<not> is_digit c \<and> \<not> is_space c \<and> c \<notin> {CHR ''+'', CHR ''-'', CHR ''_''}) v \<or>
      4300 < length (filter is_digit v)"
  shows "audit_program environ loki t = ([], Inl ValueError)"
proof -
  have bad: "int_setting v = Inl ValueError"
    using assms(3) by (intro int_setting_bad) (auto simp: list_ex_iff list_all_iff numeral_char_def)
  have "audit_settings environ = Inl ValueError"
  proof (cases "int_setting (environ_get environ ''AUDIT_WINDOW_SECONDS'' ''3600'')")
    case (Inl e)
    then show ?thesis using int_setting_raises [OF Inl] by (simp add: audit_settings_def)
  next
    case (Inr w)
    with assms(1,2) bad have "k = ''AUDIT_EXCHANGE_LOOKBACK_SECONDS''" by (auto simp: environ_get_def)
    with Inr assms(2) bad show ?thesis by (simp add: audit_settings_def environ_get_def)
  qed
  then show ?thesis by (simp add: audit_program_def lift_exn_def wbind_def)
qed

theorem audit_rejects_bad_setting_witness:
  "audit_program [''AUDIT_EXCHANGE_LOOKBACK_SECONDS'' \<mapsto> ''5m''] (\<lambda>r. Request_failed []) 5000 = ([], Inl ValueError)"
  by (rule audit_rejects_bad_setting [where k = "''AUDIT_EXCHANGE_LOOKBACK_SECONDS''" and v = "''5m''"])
    (simp_all add: is_digit_def is_space_def)

section \<open>Diagnostics\<close>

text \<open>A part of the program that writes nothing to \<open>stderr\<close>.\<close>

definition quiet :: "(report, 'a) run \<Rightarrow> bool" where
  "quiet m \<longleftrightarrow> stderr_of (printed m) = []"

lemma quiet_basic:
  "quiet (ret x)" "quiet (lift_exn m)"
  by (simp_all add: quiet_def)

lemma quiet_emit: "\<forall>d. r \<noteq> Stderr d \<Longrightarrow> quiet (emit r)"
  by (cases r) (simp_all add: quiet_def stderr_of_def)

lemma quiet_wbind: "quiet m \<Longrightarrow> (\<And>x. quiet (f x)) \<Longrightarrow> quiet (wbind m f)"
  by (auto simp: quiet_def printed_wbind split: sum.split)

lemma quiet_wthen: "quiet m \<Longrightarrow> quiet n \<Longrightarrow> quiet (wthen m n)"
  by (auto simp: quiet_def printed_wthen split: sum.split)

lemma quiet_wfor: "(\<And>x. quiet (f x)) \<Longrightarrow> quiet (wfor xs f)"
  by (induction xs) (simp_all add: quiet_basic quiet_wthen)

lemma quiet_when: "quiet m \<Longrightarrow> quiet (when_run b m)"
  by (simp add: quiet_def)

lemma quiet_if: "quiet m \<Longrightarrow> quiet n \<Longrightarrow> quiet (if b then m else n)"
  by simp

lemma quiet_prod: "(\<And>x y. quiet (f x y)) \<Longrightarrow> quiet (case p of (x, y) \<Rightarrow> f x y)"
  by (cases p) simp

lemmas quiet_rules = quiet_basic quiet_emit quiet_wbind quiet_wthen quiet_wfor quiet_when quiet_if quiet_prod

lemma stderr_two_queries:
  assumes "outcome q1 = Inr x" "outcome q2 = Inr y" "quiet m" "quiet (f x y)"
  shows "stderr_of (printed (wthen m (wbind q1 (\<lambda>x. wbind q2 (f x))))) =
    (if outcome m = Inr () then stderr_of (printed q1) @ stderr_of (printed q2) else [])"
  using assms by (auto simp: quiet_def printed_wthen printed_wbind split: sum.split)

text \<open>The checks say nothing themselves on \<open>stderr\<close>; what appears there comes from their queries.\<close>

lemma check1_stderr:
  assumes "outcome (query_loki cfg loki (access_log_query USER_FACING_SERVICES) s e default_limit) = Inr us"
    and "outcome (query_loki cfg loki (access_log_query DOWNSTREAM_SERVICES) s e default_limit) = Inr ds"
  shows "stderr_of (printed (check1 cfg loki s e)) =
    stderr_of (printed (query_loki cfg loki (access_log_query USER_FACING_SERVICES) s e default_limit)) @
    stderr_of (printed (query_loki cfg loki (access_log_query DOWNSTREAM_SERVICES) s e default_limit))"
  unfolding check1_def
  by (subst stderr_two_queries [OF assms]) (auto intro!: quiet_rules simp: bypass_lines_def Let_def)

lemma check2_stderr:
  assumes "outcome (query_loki cfg loki (access_log_query EXCHANGED_TOKEN_SERVICES @ '' | status != 401'') s e default_limit) = Inr ds"
    and "outcome (query_loki cfg loki exchange_query (s - EXCHANGE_LOOKBACK_SECONDS cfg * 1000000000) e default_limit) = Inr kc"
  shows "stderr_of (printed (check2 cfg loki s e)) =
    stderr_of (printed (query_loki cfg loki (access_log_query EXCHANGED_TOKEN_SERVICES @ '' | status != 401'') s e default_limit)) @
    stderr_of (printed (query_loki cfg loki exchange_query (s - EXCHANGE_LOOKBACK_SECONDS cfg * 1000000000) e default_limit))"
  unfolding check2_def
  by (subst stderr_two_queries [OF assms])
    (auto intro!: quiet_rules simp: no_record_line_def sub_mismatch_line_def Let_def)

lemma check3_stderr:
  assumes "outcome (query_loki cfg loki (access_log_query (USER_FACING_SERVICES @ ''|'' @ DOWNSTREAM_SERVICES)) s e default_limit) = Inr us"
    and "outcome (query_loki cfg loki login_query s e default_limit) = Inr kc"
  shows "stderr_of (printed (check3 cfg loki s e)) =
    stderr_of (printed (query_loki cfg loki (access_log_query (USER_FACING_SERVICES @ ''|'' @ DOWNSTREAM_SERVICES)) s e default_limit)) @
    stderr_of (printed (query_loki cfg loki login_query s e default_limit))"
  unfolding check3_def
  by (subst stderr_two_queries [OF assms])
    (auto intro!: quiet_rules simp: no_login_line_def early_access_line_def Let_def)

lemma audit_main_stderr:
  assumes "plausible_time (now_ns t)" "plausible_time (start_ns cfg t)"
    and "outcome (check1 cfg loki (start_ns cfg t) (now_ns t)) = Inr r1"
    and "outcome (check2 cfg loki (start_ns cfg t) (now_ns t)) = Inr r2"
    and "outcome (check3 cfg loki (start_ns cfg t) (now_ns t)) = Inr r3"
  shows "stderr_of (printed (audit_main cfg loki t)) =
    stderr_of (printed (check1 cfg loki (start_ns cfg t) (now_ns t))) @
    stderr_of (printed (check2 cfg loki (start_ns cfg t) (now_ns t))) @
    stderr_of (printed (check3 cfg loki (start_ns cfg t) (now_ns t)))"
proof -
  have quiet: "stderr_of (r # out) = stderr_of out" if "\<forall>d. r \<noteq> Stderr d" for r out
    using that by (cases r) (simp_all add: stderr_of_def)
  show ?thesis
    using assms ts_str_ok [OF assms(1)] ts_str_ok [OF assms(2)]
    by (auto simp: audit_main_def run_simps Let_def now_ns_def start_ns_def quiet simp del: ts_str.simps)
qed

text \<open>
  C38: Logs that may be cut off are announced on \<open>stderr\<close>, and only those: a run on well-formed logs writes
  the warning about the limit of 5000 once for each of its six queries that came back with 5000 entries or
  more, and still decides and exits on what it got.
\<close>

theorem truncated_logs_are_announced:
  assumes "plausible_time (now_ns t)" "plausible_time (start_ns cfg t)"
    and "reads_logs cfg loki (start_ns cfg t) (now_ns t) logs" "well_formed_logs logs"
  shows "count_list (printed (audit_main cfg loki t)) (Stderr (Limit_reached 5000)) =
      length (filter (\<lambda>log. 5000 \<le> length log)
        [user_log logs, downstream_log logs, exchanged_log logs, exchange_events logs, access_log logs, login_events logs]) \<and>
    outcome (audit_main cfg loki t) = Inl (SystemExit (if clean logs then 0 else 1))"
proof
  have count: "count_list out (Stderr d) = count_list (stderr_of out) d" for out d
  proof (induction out)
    case (Cons r out)
    then show ?case by (cases r) (simp_all add: stderr_of_def)
  qed simp
  have warns: "count_list (stderr_of (printed (query_loki cfg loki q s e default_limit))) (Limit_reached 5000) =
      (if 5000 \<le> length es then 1 else 0)"
    if "outcome (query_loki cfg loki q s e default_limit) = Inr es" for q s e es
    using query_loki_warns [OF that] by (simp add: default_limit_def)
  note reads = assms(3) [unfolded reads_logs_def]
  show "count_list (printed (audit_main cfg loki t)) (Stderr (Limit_reached 5000)) =
      length (filter (\<lambda>log. 5000 \<le> length log)
        [user_log logs, downstream_log logs, exchanged_log logs, exchange_events logs, access_log logs, login_events logs])"
    using reads
    by (simp add: count audit_main_stderr [OF assms(1,2) checks_of_logs [OF assms(3,4)]] check1_stderr check2_stderr
        check3_stderr warns)
  show "outcome (audit_main cfg loki t) = Inl (SystemExit (if clean logs then 0 else 1))"
    using audit_main_outcome [OF assms(1,2) checks_of_logs [OF assms(3,4)]] by (simp add: clean_def)
qed

text \<open>A Loki with \<open>n\<close> accesses in every access log.\<close>

definition busy_loki :: "nat \<Rightarrow> loki" where
  "busy_loki n r =
     (if lr_query r = exchange_query \<or> lr_query r = login_query then sample_loki ''t1'' r
      else Body (loki_body [(''order-service'', replicate n (7, access_line (sample_use ''t1'')))]))"

lemma busy_queries:
  "outcome (query_loki cfg (busy_loki n) exchange_query s e l) = Inr [issue_entry]"
  "outcome (query_loki cfg (busy_loki n) login_query s e l) = Inr [login_entry]"
  "outcome (query_loki cfg (busy_loki n) (access_log_query x) s e l) = Inr (replicate n (use_entry ''t1''))"
  "outcome (query_loki cfg (busy_loki n) (access_log_query x @ y) s e l) = Inr (replicate n (use_entry ''t1''))"
proof -
  show "outcome (query_loki cfg (busy_loki n) exchange_query s e l) = Inr [issue_entry]"
    "outcome (query_loki cfg (busy_loki n) login_query s e l) = Inr [login_entry]"
    using sample_queries(1,2) [of cfg "''t1''" s e l] by (simp_all add: query_loki_outcome busy_loki_def loki_query_def)
  have "plain_json (JObj (sample_use ''t1''))" by (simp add: plain_json_def sample_use_def)
  note use = access_line_fields [OF this]
  have "entry_of ''order-service'' (7, access_line (sample_use ''t1'')) = use_entry ''t1''"
    by (simp add: entry_of_def use(2)) (simp add: setdefault_def use_entry_def sample_use_def)
  then have "read_body (loki_body [(''order-service'', replicate n (7, access_line (sample_use ''t1'')))]) =
      Inr (replicate n (use_entry ''t1''))"
    by (subst read_body_ok) (use use(1) in \<open>auto simp: map_replicate\<close>)
  then show "outcome (query_loki cfg (busy_loki n) (access_log_query x) s e l) = Inr (replicate n (use_entry ''t1''))"
    "outcome (query_loki cfg (busy_loki n) (access_log_query x @ y) s e l) = Inr (replicate n (use_entry ''t1''))"
    using queries_differ by (simp_all add: query_loki_outcome busy_loki_def loki_query_def)
qed

definition busy_logs :: "nat \<Rightarrow> audit_logs" where
  "busy_logs n =
     \<lparr>user_log = replicate n (use_entry ''t1''), downstream_log = replicate n (use_entry ''t1''),
      exchanged_log = replicate n (use_entry ''t1''), exchange_events = [issue_entry],
      access_log = replicate n (use_entry ''t1''), login_events = [login_entry]\<rparr>"

lemma busy_logs_ok:
  "reads_logs cfg (busy_loki n) s e (busy_logs n)" "well_formed_logs (busy_logs n)"
  "length (filter (\<lambda>log. k \<le> length log) [user_log (busy_logs n), downstream_log (busy_logs n),
     exchanged_log (busy_logs n), exchange_events (busy_logs n), access_log (busy_logs n), login_events (busy_logs n)]) =
   (if k \<le> n then 4 else 0) + (if k \<le> 1 then 2 else 0)"
  using sample_entries
  by (auto simp: reads_logs_def busy_queries busy_logs_def well_formed_logs_def list_all_iff)

theorem truncated_logs_are_announced_witness:
  "count_list (printed (audit_main sample_config (busy_loki 5000) 5000)) (Stderr (Limit_reached 5000)) = 4"
proof -
  have "plausible_time (now_ns 5000)" "plausible_time (start_ns sample_config 5000)"
    by (simp_all add: plausible_time_def now_ns_def start_ns_def py_trunc_def sample_config_def)
  from truncated_logs_are_announced [OF this busy_logs_ok(1) busy_logs_ok(2), of 5000]
  show ?thesis unfolding busy_logs_ok(3) by simp
qed

end
