(* ===== verification/Action.thy ===== *)
theory Action imports Prelude begin

text \<open>
  Programs that talk to a network: an action takes the trace of everything done so far and returns it
  extended, with its outcome. The network is a function of that trace and the next request, so it may
  answer the same request differently each time.
\<close>

type_synonym ('e, 'a) action = "'e list \<Rightarrow> 'e list \<times> (exn + 'a)"

definition finish :: "'a \<Rightarrow> ('e, 'a) action" where
  "finish x tr = (tr, Inr x)"

definition raising :: "exn + 'a \<Rightarrow> ('e, 'a) action" where
  "raising m tr = (tr, m)"

definition act :: "'e \<Rightarrow> ('e, unit) action" where
  "act e tr = (tr @ [e], Inr ())"

definition andthen :: "('e, 'a) action \<Rightarrow> ('a \<Rightarrow> ('e, 'b) action) \<Rightarrow> ('e, 'b) action" where
  "andthen m f tr = (case m tr of (tr', Inl e) \<Rightarrow> (tr', Inl e) | (tr', Inr x) \<Rightarrow> f x tr')"

definition followed :: "('e, unit) action \<Rightarrow> ('e, 'b) action \<Rightarrow> ('e, 'b) action" where
  "followed m n = andthen m (\<lambda>_. n)"

text \<open>\<open>try: m except Exception as e: h e\<close>, with the rest of the function in \<open>f\<close>.\<close>

fun catchable :: "exn \<Rightarrow> bool" where
  "catchable (SystemExit c) = False"
| "catchable OutOfModel = False"
| "catchable _ = True"

definition try_except ::
  "('e, 'a) action \<Rightarrow> (exn \<Rightarrow> ('e, 'b) action) \<Rightarrow> ('a \<Rightarrow> ('e, 'b) action) \<Rightarrow> ('e, 'b) action" where
  "try_except m h f tr =
     (case m tr of
        (tr', Inl e) \<Rightarrow> if catchable e then h e tr' else (tr', Inl e)
      | (tr', Inr x) \<Rightarrow> f x tr')"

fun each :: "'a list \<Rightarrow> ('a \<Rightarrow> ('e, unit) action) \<Rightarrow> ('e, unit) action" where
  "each [] f = finish ()"
| "each (x # xs) f = followed (f x) (each xs f)"

lemmas action_defs = finish_def raising_def act_def andthen_def followed_def try_except_def

section \<open>What a run that returns did\<close>

named_theorems returned \<open>inversion of an action that returned\<close>

lemma finish_returned [returned]: "finish x tr = (tr', Inr y) \<longleftrightarrow> tr' = tr \<and> y = x"
  by (auto simp: finish_def)

lemma raising_returned [returned]: "raising m tr = (tr', Inr y) \<longleftrightarrow> tr' = tr \<and> m = Inr y"
  by (auto simp: raising_def)

lemma act_returned [returned]: "act e tr = (tr', Inr y) \<longleftrightarrow> tr' = tr @ [e]"
  by (auto simp: act_def)

lemma andthen_returned [returned]:
  "andthen m f tr = (tr', Inr y) \<longleftrightarrow> (\<exists>t x. m tr = (t, Inr x) \<and> f x t = (tr', Inr y))"
  by (cases "m tr"; cases "snd (m tr)") (auto simp: andthen_def)

lemma followed_returned [returned]:
  "followed m n tr = (tr', Inr y) \<longleftrightarrow> (\<exists>t. m tr = (t, Inr ()) \<and> n t = (tr', Inr y))"
  by (simp add: followed_def andthen_returned)

section \<open>Relations on traces\<close>

text \<open>
  A reflexive and transitive relation on traces that every event of an action respects is respected
  by the action: the combinators keep it.
\<close>

definition keeps :: "('e list \<Rightarrow> 'e list \<Rightarrow> bool) \<Rightarrow> ('e, 'a) action \<Rightarrow> bool" where
  "keeps Q m \<longleftrightarrow> (\<forall>tr. Q tr (fst (m tr)))"

locale trace_relation =
  fixes Q :: "'e list \<Rightarrow> 'e list \<Rightarrow> bool"
  assumes refl: "Q t t"
    and trans: "Q t u \<Longrightarrow> Q u v \<Longrightarrow> Q t v"
begin

lemma keeps_finish: "keeps Q (finish x)"
  by (simp add: keeps_def finish_def refl)

lemma keeps_raising: "keeps Q (raising m)"
  by (simp add: keeps_def raising_def refl)

lemma keeps_act: "(\<And>tr. Q tr (tr @ [e])) \<Longrightarrow> keeps Q (act e)"
  by (simp add: keeps_def act_def)

lemma keeps_try:
  assumes "keeps Q m" "\<And>e. keeps Q (h e)" "\<And>x. keeps Q (f x)"
  shows "keeps Q (try_except m h f)"
  unfolding keeps_def
proof
  fix tr
  have "Q tr (fst (m tr))" using assms(1) by (simp add: keeps_def)
  moreover have "Q (fst (m tr)) (fst (h e (fst (m tr))))" for e using assms(2) by (simp add: keeps_def)
  moreover have "Q (fst (m tr)) (fst (f x (fst (m tr))))" for x using assms(3) by (simp add: keeps_def)
  ultimately show "Q tr (fst (try_except m h f tr))"
    using trans by (cases "m tr"; cases "snd (m tr)") (auto simp: try_except_def)
qed

lemma keeps_andthen:
  assumes "keeps Q m" "\<And>x. keeps Q (f x)"
  shows "keeps Q (andthen m f)"
  unfolding keeps_def
proof
  fix tr
  have "Q tr (fst (m tr))" using assms(1) by (simp add: keeps_def)
  moreover have "Q (fst (m tr)) (fst (f x (fst (m tr))))" for x using assms(2) by (simp add: keeps_def)
  ultimately show "Q tr (fst (andthen m f tr))"
    using trans by (cases "m tr"; cases "snd (m tr)") (auto simp: andthen_def)
qed

text \<open>What follows a pure computation only has to respect the relation for the values it can have.\<close>

lemma keeps_raising_andthen:
  "(\<And>x. m = Inr x \<Longrightarrow> keeps Q (f x)) \<Longrightarrow> keeps Q (andthen (raising m) f)"
  by (cases m) (simp_all add: keeps_def andthen_def raising_def refl)

lemma keeps_followed: "keeps Q m \<Longrightarrow> keeps Q n \<Longrightarrow> keeps Q (followed m n)"
  unfolding followed_def by (intro keeps_andthen)

lemma keeps_each: "(\<And>x. x \<in> set xs \<Longrightarrow> keeps Q (f x)) \<Longrightarrow> keeps Q (each xs f)"
  by (induction xs) (simp_all add: keeps_finish keeps_followed)

lemmas keeps_rules =
  keeps_finish keeps_raising keeps_andthen keeps_try keeps_followed keeps_each

end

text \<open>An action only appends to the trace.\<close>

interpretation history: trace_relation prefix
  by unfold_locales auto

section \<open>What an action can raise\<close>

definition raises_only :: "(exn \<Rightarrow> bool) \<Rightarrow> ('e, 'a) action \<Rightarrow> bool" where
  "raises_only R m \<longleftrightarrow> (\<forall>tr e. snd (m tr) = Inl e \<longrightarrow> R e)"

lemma raises_onlyD: "raises_only R m \<Longrightarrow> snd (m tr) = Inl e \<Longrightarrow> R e"
  by (simp add: raises_only_def)

lemma raises_only_finish: "raises_only R (finish x)"
  by (simp add: raises_only_def finish_def)

lemma raises_only_raising: "(\<And>e. m = Inl e \<Longrightarrow> R e) \<Longrightarrow> raises_only R (raising m)"
  by (simp add: raises_only_def raising_def)

lemma raises_only_act: "raises_only R (act e)"
  by (simp add: raises_only_def act_def)

lemma raises_only_andthen:
  "raises_only R m \<Longrightarrow> (\<And>x. raises_only R (f x)) \<Longrightarrow> raises_only R (andthen m f)"
  unfolding raises_only_def andthen_def by (auto split: prod.splits sum.splits) (metis snd_conv)+

lemma raises_only_raising_andthen:
  "(\<And>e. m = Inl e \<Longrightarrow> R e) \<Longrightarrow> (\<And>x. m = Inr x \<Longrightarrow> raises_only R (f x)) \<Longrightarrow> raises_only R (andthen (raising m) f)"
  by (cases m) (simp_all add: raises_only_def andthen_def raising_def)

lemma raises_only_followed: "raises_only R m \<Longrightarrow> raises_only R n \<Longrightarrow> raises_only R (followed m n)"
  unfolding followed_def by (intro raises_only_andthen)

lemma raises_only_try:
  assumes "raises_only S m" "\<And>e. S e \<Longrightarrow> \<not> catchable e \<Longrightarrow> R e" "\<And>e. raises_only R (h e)" "\<And>x. raises_only R (f x)"
  shows "raises_only R (try_except m h f)"
  unfolding raises_only_def
proof (intro allI impI)
  fix tr e
  assume "snd (try_except m h f tr) = Inl e"
  then show "R e"
    using raises_onlyD [OF assms(1), of tr] assms(2) raises_onlyD [OF assms(3)] raises_onlyD [OF assms(4)]
    by (cases "m tr"; cases "snd (m tr)") (auto simp: try_except_def split: if_splits)
qed

lemma raises_only_each: "(\<And>x. x \<in> set xs \<Longrightarrow> raises_only R (f x)) \<Longrightarrow> raises_only R (each xs f)"
  by (induction xs) (simp_all add: raises_only_finish raises_only_followed)

lemma raises_only_if: "raises_only R m \<Longrightarrow> raises_only R n \<Longrightarrow> raises_only R (if b then m else n)"
  by simp

lemmas raises_only_rules =
  raises_only_finish raises_only_raising raises_only_act raises_only_followed raises_only_each raises_only_if

end
