(* ===== verification/Scenario.thy ===== *)
theory Scenario imports Action AuditLog Dpop begin

text \<open>
  \<^verbatim>\<open>audit/scenario.py\<close>: the traffic generator of the audit demonstration. It signs three users in
  through the frontend, calls the frontend's API with their sessions, and then calls the inventory
  service with a token that never went through a token exchange.

  The \<^verbatim>\<open>requests\<close> library is the parameter \<open>net\<close>, a function of everything that happened so far and of
  the next request. A run is the trace of its events: sessions opened, requests with what came of
  them, lines printed (one constructor of \<open>line\<close> per \<open>print\<close>, with the values it prints), pauses. The
  messages of the source that are in Japanese are given in English.
\<close>

section \<open>Configuration\<close>

record scenario_config =
  FRONTEND_URL :: string
  KEYCLOAK_INTERNAL_URL :: string
  INVENTORY_SERVICE_URL :: string

definition scenario_settings :: "(string \<Rightarrow> string option) \<Rightarrow> scenario_config" where
  "scenario_settings environ =
     \<lparr>FRONTEND_URL = environ_get environ ''FRONTEND_URL'' ''http://edge-proxy:3000'',
      KEYCLOAK_INTERNAL_URL =
        environ_get environ ''KEYCLOAK_INTERNAL_URL'' ''http://keycloak:8080/realms/kikan-system'',
      INVENTORY_SERVICE_URL =
        environ_get environ ''INVENTORY_SERVICE_BASE_URL'' ''http://inventory-service:8082''\<rparr>"

definition PUBLIC_URL :: string where
  "PUBLIC_URL = ''http://localhost:3000''"

definition rewrite :: "scenario_config \<Rightarrow> string \<Rightarrow> string" where
  "rewrite cfg url = str_replace PUBLIC_URL (FRONTEND_URL cfg) url"

section \<open>Events\<close>

text \<open>
  A request belongs to a session or is sent on its own. Of a response the program reads the status,
  a header by name, the text, the outcome of \<open>json()\<close>, whether there is content, and the text of the
  exception \<open>raise_for_status\<close> raises.
\<close>

record http_request =
  hr_session :: "nat option"
  hr_method :: string
  hr_url :: string
  hr_allow_redirects :: bool
  hr_data :: "(string \<times> string) list"
  hr_json :: "json option"
  hr_headers :: "(string \<times> string) list"
  hr_timeout :: nat

record http_response =
  http_status :: int
  header_value :: "string \<Rightarrow> string option"
  response_text :: string
  response_json :: "exn + json"
  response_content :: "byte list"
  http_error :: string

datatype line =
    Rule_line
  | Title_line
  | Target_line string
  | Scenario_heading string string
  | Login_failed exn
  | Login_ok
  | Step_failed string string exn
  | Step_status bool string string string int
  | Step_body json
  | Bypass_heading
  | Token_failed exn
  | Token_obtained json json json
  | Direct_failed exn
  | Direct_status bool int
  | Finished_line
  | Audit_hint_line

datatype event =
    Opened nat
  | Exchange http_request "exn + http_response"
  | Print line
  | Sleep rat

type_synonym network = "event list \<Rightarrow> http_request \<Rightarrow> exn + http_response"
type_synonym 'a act = "(event, 'a) action"

definition http :: "network \<Rightarrow> http_request \<Rightarrow> http_response act" where
  "http net q tr = (tr @ [Exchange q (net tr q)], net tr q)"

definition sessions_opened :: "event list \<Rightarrow> nat" where
  "sessions_opened tr = length (filter (\<lambda>e. case e of Opened n \<Rightarrow> True | _ \<Rightarrow> False) tr)"

text \<open>\<open>requests.Session()\<close>: a session with cookies of its own, named by the number of those before it.\<close>

definition new_session :: "nat act" where
  "new_session tr = (tr @ [Opened (sessions_opened tr)], Inr (sessions_opened tr))"

definition get_request :: "nat option \<Rightarrow> string \<Rightarrow> bool \<Rightarrow> nat \<Rightarrow> http_request" where
  "get_request s url redirects timeout =
     \<lparr>hr_session = s, hr_method = ''GET'', hr_url = url, hr_allow_redirects = redirects, hr_data = [],
      hr_json = None, hr_headers = [], hr_timeout = timeout\<rparr>"

section \<open>The login form\<close>

text \<open>\<open>id="kc-form-login"[^>]*action="([^"]+)"\<close> and \<open>action="([^"]+authenticate[^"]+)"\<close>.\<close>

definition form_id :: string where
  "form_id = ''id='' @ [CHR 0x22] @ ''kc-form-login'' @ [CHR 0x22]"

definition action_attribute :: string where
  "action_attribute = ''action='' @ [CHR 0x22]"

definition form_pattern :: "re_item list" where
  "form_pattern =
     map Lit form_id @ Star_not [CHR ''>''] # map Lit action_attribute @
     [Open, Plus_not [CHR 0x22], Close, Lit (CHR 0x22)]"

definition authenticate_pattern :: "re_item list" where
  "authenticate_pattern =
     map Lit action_attribute @ Open # Plus_not [CHR 0x22] # map Lit ''authenticate'' @
     [Plus_not [CHR 0x22], Close, Lit (CHR 0x22)]"

definition find_form_action :: "string \<Rightarrow> string option" where
  "find_form_action page =
     (case re_search form_pattern page of
        Some a \<Rightarrow> Some a
      | None \<Rightarrow> re_search authenticate_pattern page)"

text \<open>
  \<open>html.unescape\<close>: numeric references to the characters of this model, and the five references of
  HTML text and attributes; any other named reference is \<open>OutOfModel\<close>. An ampersand that starts no
  reference stays. \<open>char_ref s\<close> reads what follows an ampersand: the replacement and the number of
  characters it stands for.
\<close>

definition numeric_ref :: "int option \<Rightarrow> nat \<Rightarrow> string \<Rightarrow> exn + string \<times> nat" where
  "numeric_ref n used rest =
     (case n of
        None \<Rightarrow> Inr (''&'', 0)
      | Some i \<Rightarrow>
          if 32 \<le> i \<and> i < 127 \<or> 160 \<le> i \<and> i < 256 \<or> i \<in> {9, 10, 12}
          then Inr ([char_of (nat i)], used + (if take 1 rest = '';'' then 1 else 0))
          else Inl OutOfModel)"

definition hex_int :: "string \<Rightarrow> int" where
  "hex_int s = foldl (\<lambda>n c. 16 * n + int (the (hex_val c))) 0 s"

definition known_refs :: "(string \<times> string) list" where
  "known_refs = [(''amp'', ''&''), (''lt'', ''<''), (''gt'', ''>''), (''quot'', [CHR 0x22]), (''apos'', [CHR 0x27])]"

definition char_ref :: "string \<Rightarrow> exn + string \<times> nat" where
  "char_ref s =
     (if prefix ''#x'' s \<or> prefix ''#X'' s then
        let ds = takeWhile (\<lambda>c. hex_val c \<noteq> None) (drop 2 s) in
        numeric_ref (if ds = [] then None else Some (hex_int ds)) (2 + length ds) (drop (2 + length ds) s)
      else if prefix ''#'' s then
        let ds = takeWhile is_digit (drop 1 s) in
        numeric_ref (if ds = [] then None else Some (int (nat_of_digits ds))) (1 + length ds) (drop (1 + length ds) s)
      else
        let name = takeWhile (\<lambda>c. c \<notin> {CHR 0x09, CHR 0x0A, CHR 0x0C, CHR '' '', CHR ''<'', CHR ''&'', CHR ''#'', CHR '';''}) s in
        if name = [] then Inr (''&'', 0)
        else (case map_of known_refs name of
            Some r \<Rightarrow> if take 1 (drop (length name) s) = '';'' then Inr (r, length name + 1) else Inl OutOfModel
          | None \<Rightarrow> Inl OutOfModel))"

fun unescape_from :: "nat \<Rightarrow> string \<Rightarrow> exn + string" where
  "unescape_from k [] = Inr []"
| "unescape_from (Suc k) (c # cs) = unescape_from k cs"
| "unescape_from 0 (c # cs) =
     (if c = CHR ''&'' then
        ebind (char_ref cs) (\<lambda>(r, k). ebind (unescape_from k cs) (\<lambda>rest. Inr (r @ rest)))
      else ebind (unescape_from 0 cs) (\<lambda>rest. Inr (c # rest)))"

definition html_unescape :: "string \<Rightarrow> exn + string" where
  "html_unescape s = unescape_from 0 s"

section \<open>Signing in\<close>

definition login_url :: "scenario_config \<Rightarrow> string" where
  "login_url cfg = FRONTEND_URL cfg @ ''/api/login''"

text \<open>\<open>rewrite(r.headers["Location"])\<close>, after the status check of a step.\<close>

definition location :: "scenario_config \<Rightarrow> http_response \<Rightarrow> exn + string" where
  "location cfg r =
     (case header_value r ''Location'' of None \<Rightarrow> Inl KeyError | Some l \<Rightarrow> Inr (rewrite cfg l))"

definition redirect_of_login :: "scenario_config \<Rightarrow> http_response \<Rightarrow> exn + string" where
  "redirect_of_login cfg r =
     (if http_status r \<noteq> 302
      then Inl (RuntimeError (''/api/login: expected 302, got '' @ string_of_int (http_status r)))
      else location cfg r)"

definition form_action :: "scenario_config \<Rightarrow> http_response \<Rightarrow> exn + string" where
  "form_action cfg r =
     (if http_status r \<noteq> 200
      then Inl (RuntimeError (''cannot get the login page: '' @ string_of_int (http_status r)))
      else (case find_form_action (response_text r) of
          None \<Rightarrow> Inl (RuntimeError ''no action of the Keycloak login form found'')
        | Some a \<Rightarrow> ebind (html_unescape a) (\<lambda>u. Inr (rewrite cfg u))))"

definition credentials_request :: "nat \<Rightarrow> string \<Rightarrow> string \<Rightarrow> string \<Rightarrow> http_request" where
  "credentials_request s url username password =
     \<lparr>hr_session = Some s, hr_method = ''POST'', hr_url = url, hr_allow_redirects = False,
      hr_data = [(''username'', username), (''password'', password)], hr_json = None,
      hr_headers = [], hr_timeout = 10\<rparr>"

definition redirect_of_post :: "scenario_config \<Rightarrow> http_response \<Rightarrow> exn + string" where
  "redirect_of_post cfg r =
     (if http_status r \<noteq> 302
      then Inl (RuntimeError (''the login POST failed: '' @ string_of_int (http_status r) @ '': '' @
             take 200 (response_text r)))
      else location cfg r)"

definition callback_done :: "http_response \<Rightarrow> exn + unit" where
  "callback_done r =
     (if http_status r \<notin> {200, 302}
      then Inl (RuntimeError (''the callback failed: '' @ string_of_int (http_status r) @ '': '' @
             take 200 (response_text r)))
      else Inr ())"

definition do_login :: "scenario_config \<Rightarrow> network \<Rightarrow> string \<Rightarrow> string \<Rightarrow> nat act" where
  "do_login cfg net username password =
     andthen new_session (\<lambda>s.
     andthen (http net (get_request (Some s) (login_url cfg) False 10)) (\<lambda>r.
     andthen (raising (redirect_of_login cfg r)) (\<lambda>keycloak_auth_url.
     andthen (http net (get_request (Some s) keycloak_auth_url True 10)) (\<lambda>r.
     andthen (raising (form_action cfg r)) (\<lambda>action_url.
     andthen (http net (credentials_request s action_url username password)) (\<lambda>r.
     andthen (raising (redirect_of_post cfg r)) (\<lambda>callback_url.
     andthen (http net (get_request (Some s) callback_url True 15)) (\<lambda>r.
     andthen (raising (callback_done r)) (\<lambda>_.
     finish s)))))))))"

section \<open>Calls of the API\<close>

text \<open>
  The second component of the result of \<open>call\<close>: nothing, the JSON value, or the front of the text
  when it is not JSON.
\<close>

definition response_body :: "http_response \<Rightarrow> exn + json" where
  "response_body r =
     (if response_content r = [] then Inr JNull
      else (case response_json r of
          Inl e \<Rightarrow> if catchable e then Inr (JStr (take 120 (response_text r))) else Inl e
        | Inr v \<Rightarrow> Inr v))"

record scenario_step =
  desc :: string
  st_method :: string
  st_path :: string
  st_json :: "json option"

definition api_request :: "scenario_config \<Rightarrow> nat \<Rightarrow> string \<Rightarrow> string \<Rightarrow> json option \<Rightarrow> http_request" where
  "api_request cfg s m path body =
     \<lparr>hr_session = Some s, hr_method = m, hr_url = FRONTEND_URL cfg @ path, hr_allow_redirects = True,
      hr_data = [], hr_json = body, hr_headers = [], hr_timeout = 15\<rparr>"

definition call ::
  "scenario_config \<Rightarrow> network \<Rightarrow> nat \<Rightarrow> string \<Rightarrow> string \<Rightarrow> json option \<Rightarrow> (int \<times> json) act" where
  "call cfg net s m path body =
     andthen (http net (api_request cfg s m path body)) (\<lambda>r.
     andthen (raising (response_body r)) (\<lambda>v.
     finish (http_status r, v)))"

text \<open>The body of the loop over the steps of a scenario.\<close>

definition run_step :: "scenario_config \<Rightarrow> network \<Rightarrow> nat \<Rightarrow> scenario_step \<Rightarrow> unit act" where
  "run_step cfg net s st =
     try_except (call cfg net s (st_method st) (st_path st) (st_json st))
       (\<lambda>e. act (Print (Step_failed (st_method st) (st_path st) e)))
       (\<lambda>(status, body).
         followed (act (Print (Step_status (status < 400) (desc st) (st_method st) (st_path st) status)))
         (if 400 \<le> status then act (Print (Step_body body)) else finish ()))"

definition run_scenario ::
  "scenario_config \<Rightarrow> network \<Rightarrow> string \<Rightarrow> string \<Rightarrow> string \<Rightarrow> scenario_step list \<Rightarrow> unit act" where
  "run_scenario cfg net username password label steps =
     followed (act (Print (Scenario_heading label username)))
     (try_except (do_login cfg net username password)
       (\<lambda>e. act (Print (Login_failed e)))
       (\<lambda>s.
         followed (act (Print Login_ok))
         (followed (each steps (run_step cfg net s))
         (act (Sleep (1 / 2))))))"

section \<open>The bypass\<close>

definition decode_jwt_claims :: "json \<Rightarrow> exn + json" where
  "decode_jwt_claims access_token =
     (case access_token of
        JStr t \<Rightarrow> (case str_split (CHR ''.'') t of
            h # payload # ps \<Rightarrow>
              ebind (urlsafe_b64decode (payload @ replicate (nat (- int (length payload) mod 4)) (CHR ''='')))
                json_loads_bytes
          | _ \<Rightarrow> Inl IndexError)
      | _ \<Rightarrow> Inl AttributeError)"

text \<open>\<open>raise_for_status\<close> raises for the client and server errors.\<close>

definition raise_for_status :: "http_response \<Rightarrow> exn + unit" where
  "raise_for_status r =
     (if 400 \<le> http_status r \<and> http_status r < 600 then Inl (RequestException (http_error r)) else Inr ())"

definition token_request :: "scenario_config \<Rightarrow> string \<Rightarrow> http_request" where
  "token_request cfg secret =
     \<lparr>hr_session = None, hr_method = ''POST'',
      hr_url = KEYCLOAK_INTERNAL_URL cfg @ ''/protocol/openid-connect/token'', hr_allow_redirects = True,
      hr_data = [(''grant_type'', ''client_credentials''), (''client_id'', ''order-service''),
        (''client_secret'', secret), (''scope'', ''inventory roles'')],
      hr_json = None, hr_headers = [], hr_timeout = 10\<rparr>"

definition direct_request :: "scenario_config \<Rightarrow> json \<Rightarrow> http_request" where
  "direct_request cfg access_token =
     \<lparr>hr_session = None, hr_method = ''GET'', hr_url = INVENTORY_SERVICE_URL cfg @ ''/inventory/product-A'',
      hr_allow_redirects = True, hr_data = [], hr_json = None,
      hr_headers = [(''Authorization'', ''Bearer '' @ str_of_json access_token)], hr_timeout = 10\<rparr>"

definition obtain_token :: "scenario_config \<Rightarrow> network \<Rightarrow> string \<Rightarrow> json act" where
  "obtain_token cfg net secret =
     andthen (http net (token_request cfg secret)) (\<lambda>r.
     raising (ebind (raise_for_status r) (\<lambda>_. ebind (response_json r) (\<lambda>body. py_getitem body ''access_token''))))"

definition token_summary :: "json \<Rightarrow> exn + line" where
  "token_summary access_token =
     ebind (decode_jwt_claims access_token) (\<lambda>claims.
     ebind (py_get claims ''aud'' JNull) (\<lambda>aud.
     ebind (py_get claims ''sub'' JNull) (\<lambda>sub.
     ebind (py_get claims ''jti'' JNull) (\<lambda>jti.
     Inr (Token_obtained aud sub jti)))))"

definition run_bypass_attempt ::
  "scenario_config \<Rightarrow> (string \<Rightarrow> string option) \<Rightarrow> network \<Rightarrow> unit act" where
  "run_bypass_attempt cfg environ net =
     followed (act (Print Bypass_heading))
     (try_except
       (obtain_token cfg net (environ_get environ ''ORDER_SERVICE_CLIENT_SECRET'' ''order-service-secret''))
       (\<lambda>e. act (Print (Token_failed e)))
       (\<lambda>access_token.
         andthen (raising (token_summary access_token)) (\<lambda>summary.
         followed (act (Print summary))
         (try_except (http net (direct_request cfg access_token))
           (\<lambda>e. act (Print (Direct_failed e)))
           (\<lambda>r. followed (act (Print (Direct_status (http_status r < 400) (http_status r))))
                (act (Sleep (1 / 2))))))))"

section \<open>The program\<close>

definition get_step :: "string \<Rightarrow> string \<Rightarrow> scenario_step" where
  "get_step d path = \<lparr>desc = d, st_method = ''GET'', st_path = path, st_json = None\<rparr>"

definition sales_steps :: "scenario_step list" where
  "sales_steps =
     [get_step ''list orders'' ''/api/orders'',
      \<lparr>desc = ''create order'', st_method = ''POST'', st_path = ''/api/orders'',
       st_json = Some (JObj [(''customerId'', JStr ''customer-1''), (''productId'', JStr ''product-A''),
         (''quantity'', JInt 1)])\<rparr>,
      get_step ''stock of the own branch'' ''/api/warehouse-stock/product-A'',
      get_step ''stock again, token cache'' ''/api/warehouse-stock/product-A'',
      get_step ''own employee data'' ''/api/employees/yamada-sales'']"

definition support_steps :: "scenario_step list" where
  "support_steps =
     [get_step ''list orders'' ''/api/orders'',
      get_step ''own employee data'' ''/api/employees/suzuki-support'']"

definition hr_steps :: "scenario_step list" where
  "hr_steps =
     [get_step ''own employee data'' ''/api/employees/tanaka-hr'',
      get_step ''employee data of another'' ''/api/employees/yamada-sales'']"

definition scenarios :: "(string \<times> string \<times> string \<times> scenario_step list) list" where
  "scenarios =
     [(''yamada-sales'', ''password'', ''sales: orders, stock, own employee data'', sales_steps),
      (''suzuki-support'', ''password'', ''support: orders only'', support_steps),
      (''tanaka-hr'', ''password'', ''HR: employee data, of others too'', hr_steps)]"

definition scenario_main :: "scenario_config \<Rightarrow> (string \<Rightarrow> string option) \<Rightarrow> network \<Rightarrow> unit act" where
  "scenario_main cfg environ net =
     followed (each [Rule_line, Title_line, Target_line (FRONTEND_URL cfg), Rule_line] (\<lambda>l. act (Print l)))
     (followed (each scenarios (\<lambda>(username, password, label, steps).
        run_scenario cfg net username password label steps))
     (followed (run_bypass_attempt cfg environ net)
     (each [Rule_line, Finished_line, Audit_hint_line, Rule_line] (\<lambda>l. act (Print l)))))"

text \<open>The program: the settings are read when the module is loaded.\<close>

definition scenario_program :: "(string \<Rightarrow> string option) \<Rightarrow> network \<Rightarrow> event list \<times> (exn + unit)" where
  "scenario_program environ net = scenario_main (scenario_settings environ) environ net []"

end
