(* ===== verification/ScenarioForm.thy ===== *)
theory ScenarioForm imports Scenario begin

text \<open>
  The login form: undoing the HTML escaping of an attribute, and the address that the patterns of
  the traffic generator find in a page.
\<close>

section \<open>Escaping\<close>

text \<open>An attribute value as a page carries it.\<close>

definition escape_char :: "char \<Rightarrow> string" where
  "escape_char c =
     (if c = CHR ''&'' then ''&amp;'' else if c = CHR ''<'' then ''&lt;'' else if c = CHR ''>'' then ''&gt;''
      else if c = CHR 0x22 then ''&quot;'' else if c = CHR 0x27 then ''&#39;'' else [c])"

definition html_escape :: "string \<Rightarrow> string" where
  "html_escape s = concat (map escape_char s)"

lemma char_of_39: "char_of (39 :: nat) = CHR 0x27"
  by code_simp

lemma char_ref_known:
  "char_ref (CHR ''a'' # CHR ''m'' # CHR ''p'' # CHR '';'' # rest) = Inr (''&'', 4)"
  "char_ref (CHR ''l'' # CHR ''t'' # CHR '';'' # rest) = Inr (''<'', 3)"
  "char_ref (CHR ''g'' # CHR ''t'' # CHR '';'' # rest) = Inr (''>'', 3)"
  "char_ref (CHR ''q'' # CHR ''u'' # CHR ''o'' # CHR ''t'' # CHR '';'' # rest) = Inr ([CHR 0x22], 5)"
  "char_ref (CHR ''#'' # CHR ''3'' # CHR ''9'' # CHR '';'' # rest) = Inr ([CHR 0x27], 4)"
  by (simp_all add: char_ref_def known_refs_def numeric_ref_def is_digit_def nat_of_digits_def digit_val_def char_of_39)

lemma unescape_escape_char:
  "unescape_from 0 (escape_char c @ rest) = ebind (unescape_from 0 rest) (\<lambda>r. Inr (c # r))"
  by (simp add: escape_char_def char_ref_known numeral_eq_Suc)

lemma html_unescape_escape: "html_unescape (html_escape s) = Inr s"
  unfolding html_unescape_def html_escape_def by (induction s) (simp_all add: unescape_escape_char)

lemma html_escape_chars: "CHR 0x22 \<notin> set (html_escape s)" "CHR ''>'' \<notin> set (html_escape s)"
  by (auto simp: html_escape_def escape_char_def split: if_splits)

section \<open>The page\<close>

lemma append_eq_append_before:
  "a @ c # b = x @ y \<Longrightarrow> c \<notin> set x \<Longrightarrow> \<exists>y'. a = x @ y' \<and> y = y' @ c # b"
  by (induction x arbitrary: a) (auto simp: append_eq_Cons_conv)

lemma sublist_of_prefix: "prefix l y \<Longrightarrow> sublist l (x @ y)"
  by (auto elim!: prefixE simp: sublist_def)

lemma form_literals:
  "form_id \<noteq> []" "action_attribute \<noteq> []" "CHR ''>'' \<notin> set action_attribute"
  by (simp_all add: form_id_def action_attribute_def)

text \<open>
  The page names its form once, by its id; after the address nothing up to the end of the tag looks
  like another action attribute.
\<close>

definition login_page :: "string \<Rightarrow> string \<Rightarrow> string \<Rightarrow> string \<Rightarrow> string \<Rightarrow> string" where
  "login_page pre attrs url attrs' post =
     pre @ form_id @ attrs @ action_attribute @ html_escape url @ CHR 0x22 # attrs' @ CHR ''>'' # post"

definition page_ok :: "string \<Rightarrow> string \<Rightarrow> string \<Rightarrow> string \<Rightarrow> bool" where
  "page_ok pre attrs url attrs' \<longleftrightarrow>
     \<not> sublist form_id (pre @ butlast form_id) \<and>
     CHR ''>'' \<notin> set attrs \<and> CHR ''>'' \<notin> set attrs' \<and> url \<noteq> [] \<and>
     \<not> sublist action_attribute (drop 1 (action_attribute @ html_escape url @ CHR 0x22 # attrs'))"

lemma html_escape_Nil_iff: "html_escape s = [] \<longleftrightarrow> s = []"
  by (cases s) (auto simp: html_escape_def escape_char_def)

lemma find_form_action_page:
  assumes "page_ok pre attrs url attrs'"
  shows "find_form_action (login_page pre attrs url attrs' post) = Some (html_escape url)"
proof -
  let ?u = "html_escape url" and ?gt = "CHR ''>''"
  let ?s = "action_attribute @ ?u @ CHR 0x22 # attrs' @ ?gt # post"
  let ?p = "map Lit action_attribute @ [Open, Plus_not [CHR 0x22], Close, Lit (CHR 0x22)]"
  have u: "?u \<noteq> []" using assms by (simp add: page_ok_def html_escape_Nil_iff)
  have "match_here (Star_not [?gt] # ?p) False [] (attrs @ ?s) = Some ?u"
  proof (rule match_star_last)
    show "match_here ?p False [] ?s = Some ?u"
      by (simp add: match_literal match_plus_delimited html_escape_chars u del: match_here.simps)
    show "set attrs \<inter> set [?gt] = {}" using assms by (auto simp: page_ok_def)
    fix x y
    assume xy: "?s = x @ y" "x \<noteq> []" "set x \<inter> set [?gt] = {}"
    have "\<not> prefix action_attribute y"
    proof
      assume pre: "prefix action_attribute y"
      obtain y' where y': "action_attribute @ ?u @ CHR 0x22 # attrs' = x @ y'" "y = y' @ ?gt # post"
        using append_eq_append_before [of "action_attribute @ ?u @ CHR 0x22 # attrs'" ?gt post x y] xy(1,3) by auto
      have "prefix action_attribute y'" by (rule prefix_before [OF pre [unfolded y'(2)] form_literals(3)])
      moreover have "drop 1 (action_attribute @ ?u @ CHR 0x22 # attrs') = drop 1 x @ y'"
        unfolding y'(1) using xy(2) by (cases x) simp_all
      ultimately have "sublist action_attribute (drop 1 (action_attribute @ ?u @ CHR 0x22 # attrs'))"
        by (metis sublist_of_prefix)
      with assms show False unfolding page_ok_def by blast
    qed
    then show "match_here ?p False [] y = None" by (simp add: match_literal del: match_here.simps)
  qed
  then have "match_here (map Lit form_id @ Star_not [?gt] # ?p) False [] (form_id @ attrs @ ?s) = Some ?u"
    by (simp add: match_literal del: match_here.simps)
  moreover have "\<not> sublist form_id (pre @ butlast form_id)" using assms by (simp add: page_ok_def)
  ultimately have "re_search (map Lit form_id @ Star_not [?gt] # ?p) (pre @ form_id @ attrs @ ?s) = Some ?u"
    by (intro re_search_first_literal form_literals)
  then show ?thesis by (simp add: find_form_action_def form_pattern_def login_page_def)
qed

text \<open>
  C22: From a login page whose form carries an escaped address in its action attribute, the program
  takes that address, with the escaping undone and the public origin replaced.
\<close>

theorem form_action_found:
  assumes "http_status r = 200" "response_text r = login_page pre attrs url attrs' post"
    and "page_ok pre attrs url attrs'"
  shows "form_action cfg r = Inr (rewrite cfg url)"
  using assms by (simp add: form_action_def find_form_action_page html_unescape_escape)

text \<open>A page of this shape.\<close>

definition sample_page :: string where
  "sample_page = login_page ''<form '' '' method=post '' ''http://localhost:3000/auth?code=1&tab=2'' '' '' ''<input>''"

theorem form_action_found_witness:
  "form_action (scenario_settings (\<lambda>k. None)) \<lparr>http_status = 200, header_value = (\<lambda>h. None), response_text = sample_page,
     response_json = Inl JSONDecodeError, response_content = [], http_error = []\<rparr> =
   Inr ''http://edge-proxy:3000/auth?code=1&tab=2''"
proof -
  have "page_ok ''<form '' '' method=post '' ''http://localhost:3000/auth?code=1&tab=2'' '' ''" by code_simp
  moreover have "rewrite (scenario_settings (\<lambda>k. None)) ''http://localhost:3000/auth?code=1&tab=2'' =
      ''http://edge-proxy:3000/auth?code=1&tab=2''" by code_simp
  ultimately show ?thesis
    using form_action_found [where url = "''http://localhost:3000/auth?code=1&tab=2''"]
    by (simp add: sample_page_def)
qed

end
