(* ===== verification/ScenarioRuns.thy ===== *)
theory ScenarioRuns imports ScenarioForm begin

text \<open>
  What the traffic generator does: its login implements an abstract machine, the steps of a scenario
  are all attempted, and the bypass sends one credential grant and one direct access.
\<close>

section \<open>Reading a trace\<close>

fun requests_of :: "event list \<Rightarrow> http_request list" where
  "requests_of [] = []"
| "requests_of (Exchange q a # tr) = q # requests_of tr"
| "requests_of (e # tr) = requests_of tr"

fun opened :: "event list \<Rightarrow> nat list" where
  "opened [] = []"
| "opened (Opened n # tr) = n # opened tr"
| "opened (e # tr) = opened tr"

text \<open>The users whose scenarios were started.\<close>

fun started :: "event list \<Rightarrow> string list" where
  "started [] = []"
| "started (Print (Scenario_heading label u) # tr) = u # started tr"
| "started (e # tr) = started tr"

lemma started_append [simp]: "started (xs @ ys) = started xs @ started ys"
  by (induction xs rule: started.induct) auto

lemma requests_of_append [simp]: "requests_of (xs @ ys) = requests_of xs @ requests_of ys"
  by (induction xs rule: requests_of.induct) auto

lemma opened_append [simp]: "opened (xs @ ys) = opened xs @ opened ys"
  by (induction xs rule: opened.induct) auto

lemma sessions_opened_eq: "sessions_opened tr = length (opened tr)"
  by (induction tr rule: opened.induct) (auto simp: sessions_opened_def)

text \<open>The two requests of a login, written out.\<close>

definition browser_get :: "nat \<Rightarrow> string \<Rightarrow> bool \<Rightarrow> nat \<Rightarrow> http_request" where
  "browser_get s url follow timeout =
     \<lparr>hr_session = Some s, hr_method = ''GET'', hr_url = url, hr_allow_redirects = follow, hr_data = [],
      hr_json = None, hr_headers = [], hr_timeout = timeout\<rparr>"

definition post_credentials :: "nat \<Rightarrow> string \<Rightarrow> string \<Rightarrow> string \<Rightarrow> http_request" where
  "post_credentials s url username password =
     \<lparr>hr_session = Some s, hr_method = ''POST'', hr_url = url, hr_allow_redirects = False,
      hr_data = [(''username'', username), (''password'', password)], hr_json = None,
      hr_headers = [], hr_timeout = 10\<rparr>"

lemma login_request_forms:
  "get_request (Some s) u a t = browser_get s u a t"
  "credentials_request s u username password = post_credentials s u username password"
  by (simp_all add: get_request_def browser_get_def credentials_request_def post_credentials_def)

lemma login_request_inj [simp]:
  "browser_get s u a t = browser_get s' u' a' t' \<longleftrightarrow> s = s' \<and> u = u' \<and> a = a' \<and> t = t'"
  "post_credentials s u n p = post_credentials s' u' n' p' \<longleftrightarrow> s = s' \<and> u = u' \<and> n = n' \<and> p = p'"
  by (auto simp: browser_get_def post_credentials_def)

lemma http_returned [returned]:
  "http net q tr = (tr', Inr r) \<longleftrightarrow> net tr q = Inr r \<and> tr' = tr @ [Exchange q (Inr r)]"
  by (auto simp: http_def)

lemma new_session_returned [returned]:
  "new_session tr = (tr', Inr s) \<longleftrightarrow> s = sessions_opened tr \<and> tr' = tr @ [Opened s]"
  by (auto simp: new_session_def)

section \<open>The login as a state machine\<close>

text \<open>
  The browser's part of the authorization code flow: it is sent to the identity provider, gets a
  form, posts the credentials to the address of the form, is sent back, and has followed the way
  back. A move is a request with its answer.
\<close>

datatype phase = Fresh | Challenged string | At_form string | Returning string | Signed_in

inductive login_move ::
  "scenario_config \<Rightarrow> string \<Rightarrow> string \<Rightarrow> nat \<Rightarrow> phase \<Rightarrow> http_request \<Rightarrow> http_response \<Rightarrow> phase \<Rightarrow> bool"
  for cfg username password s where
  challenge: "http_status r = 302 \<Longrightarrow> header_value r ''Location'' = Some l \<Longrightarrow>
     login_move cfg username password s Fresh
       (browser_get s (FRONTEND_URL cfg @ ''/api/login'') False 10) r (Challenged (rewrite cfg l))"
| show_form: "http_status r = 200 \<Longrightarrow> find_form_action (response_text r) = Some a \<Longrightarrow>
     html_unescape a = Inr u \<Longrightarrow>
     login_move cfg username password s (Challenged l)
       (browser_get s l True 10) r (At_form (rewrite cfg u))"
| submit: "http_status r = 302 \<Longrightarrow> header_value r ''Location'' = Some l \<Longrightarrow>
     login_move cfg username password s (At_form u)
       (post_credentials s u username password) r (Returning (rewrite cfg l))"
| come_back: "http_status r \<in> {200, 302} \<Longrightarrow>
     login_move cfg username password s (Returning l) (browser_get s l True 15) r Signed_in"

inductive_simps from_phase:
  "login_move cfg username password s Fresh q r p"
  "login_move cfg username password s (Challenged l) q r p"
  "login_move cfg username password s (At_form u) q r p"
  "login_move cfg username password s (Returning l) q r p"
  "login_move cfg username password s Signed_in q r p"

text \<open>Runs of the machine against a network, with the trace they leave.\<close>

inductive login_run ::
  "scenario_config \<Rightarrow> network \<Rightarrow> string \<Rightarrow> string \<Rightarrow> nat \<Rightarrow> phase \<Rightarrow> event list \<Rightarrow> phase \<Rightarrow> event list \<Rightarrow> bool"
  for cfg net username password s where
  stay: "login_run cfg net username password s p tr p tr"
| move: "login_move cfg username password s p q r p' \<Longrightarrow> net tr q = Inr r \<Longrightarrow>
     login_run cfg net username password s p' (tr @ [Exchange q (Inr r)]) p'' tr'' \<Longrightarrow>
     login_run cfg net username password s p tr p'' tr''"

inductive_simps login_run_to_end: "login_run cfg net username password s p tr Signed_in tr'"

lemma login_run_done:
  "login_run cfg net username password s Signed_in tr Signed_in tr' \<longleftrightarrow> tr' = tr"
  by (subst login_run_to_end) (auto simp: from_phase)

text \<open>The checks of the program between two requests are the guards of the machine.\<close>

lemma login_guards:
  "redirect_of_login cfg r = Inr u \<longleftrightarrow>
     http_status r = 302 \<and> (\<exists>l. header_value r ''Location'' = Some l \<and> u = rewrite cfg l)"
  "form_action cfg r = Inr u \<longleftrightarrow>
     http_status r = 200 \<and> (\<exists>a v. find_form_action (response_text r) = Some a \<and> html_unescape a = Inr v \<and>
       u = rewrite cfg v)"
  "redirect_of_post cfg r = Inr u \<longleftrightarrow>
     http_status r = 302 \<and> (\<exists>l. header_value r ''Location'' = Some l \<and> u = rewrite cfg l)"
  "callback_done r = Inr x \<longleftrightarrow> http_status r \<in> {200, 302}"
  by (auto simp: redirect_of_login_def form_action_def redirect_of_post_def callback_done_def location_def
      raises split: option.splits if_splits)

lemma login_run_from:
  "login_run cfg net username password s Fresh tr Signed_in tr' \<longleftrightarrow>
     (let q = browser_get s (login_url cfg) False 10 in
      \<exists>r u. net tr q = Inr r \<and> redirect_of_login cfg r = Inr u \<and>
        login_run cfg net username password s (Challenged u) (tr @ [Exchange q (Inr r)]) Signed_in tr')"
  "login_run cfg net username password s (Challenged l) tr Signed_in tr' \<longleftrightarrow>
     (let q = browser_get s l True 10 in
      \<exists>r u. net tr q = Inr r \<and> form_action cfg r = Inr u \<and>
        login_run cfg net username password s (At_form u) (tr @ [Exchange q (Inr r)]) Signed_in tr')"
  "login_run cfg net username password s (At_form u) tr Signed_in tr' \<longleftrightarrow>
     (let q = post_credentials s u username password in
      \<exists>r l. net tr q = Inr r \<and> redirect_of_post cfg r = Inr l \<and>
        login_run cfg net username password s (Returning l) (tr @ [Exchange q (Inr r)]) Signed_in tr')"
  "login_run cfg net username password s (Returning l) tr Signed_in tr' \<longleftrightarrow>
     (let q = browser_get s l True 15 in
      \<exists>r. net tr q = Inr r \<and> callback_done r = Inr () \<and> tr' = tr @ [Exchange q (Inr r)])"
  by (subst login_run_to_end, fastforce simp: from_phase login_guards login_url_def Let_def login_run_done)+

text \<open>
  C11: do_login returns a session exactly when the abstract login machine, started with a fresh
  session, runs from its first phase to Signed_in, and the trace it leaves is that of the run.
\<close>

theorem do_login_implements_machine:
  "do_login cfg net username password tr = (tr', Inr s) \<longleftrightarrow>
     s = sessions_opened tr \<and>
     login_run cfg net username password s Fresh (tr @ [Opened s]) Signed_in tr'"
  by (auto simp: do_login_def returned login_run_from Let_def login_request_forms)

section \<open>What a login sends\<close>

text \<open>The requests of a login in the order they are made, for the addresses learned on the way.\<close>

definition login_requests :: "scenario_config \<Rightarrow> nat \<Rightarrow> string \<Rightarrow> string \<Rightarrow> string \<Rightarrow> string \<Rightarrow> string \<Rightarrow> http_request list" where
  "login_requests cfg s username password keycloak action callback =
     [browser_get s (FRONTEND_URL cfg @ ''/api/login'') False 10, browser_get s keycloak True 10,
      post_credentials s action username password, browser_get s callback True 15]"

text \<open>Where an address comes from: a redirect, or the form of a page, with the public origin replaced.\<close>

definition redirected_to :: "scenario_config \<Rightarrow> event \<Rightarrow> string \<Rightarrow> bool" where
  "redirected_to cfg ev url \<longleftrightarrow>
     (\<exists>q r l. ev = Exchange q (Inr r) \<and> http_status r = 302 \<and> header_value r ''Location'' = Some l \<and>
        url = str_replace ''http://localhost:3000'' (FRONTEND_URL cfg) l)"

definition form_posts_to :: "scenario_config \<Rightarrow> event \<Rightarrow> string \<Rightarrow> bool" where
  "form_posts_to cfg ev url \<longleftrightarrow>
     (\<exists>q r a u. ev = Exchange q (Inr r) \<and> http_status r = 200 \<and> find_form_action (response_text r) = Some a \<and>
        html_unescape a = Inr u \<and> url = str_replace ''http://localhost:3000'' (FRONTEND_URL cfg) u)"

text \<open>
  A request whose answer is examined by \<open>g\<close>: either it is the last one, or \<open>g\<close> found something in the
  answer and the action goes on with it.
\<close>

definition asks ::
  "http_request \<Rightarrow> (http_response \<Rightarrow> exn + 'a) \<Rightarrow> ('a \<Rightarrow> event list \<Rightarrow> bool) \<Rightarrow> event list \<Rightarrow> bool" where
  "asks q g R es \<longleftrightarrow> (\<exists>a. es = [Exchange q a]) \<or>
     (\<exists>r x es'. es = Exchange q (Inr r) # es' \<and> g r = Inr x \<and> R x es')"

lemma asks_step:
  assumes "\<And>x t. \<exists>es. fst (f x t) = t @ es \<and> R x es"
  shows "\<exists>es. fst (andthen (http net q) (\<lambda>r. andthen (raising (g r)) f) tr) = tr @ es \<and> asks q g R es"
proof (cases "net tr q")
  case (Inl e)
  then show ?thesis by (simp add: andthen_def http_def asks_def)
next
  case (Inr r)
  show ?thesis
  proof (cases "g r")
    case (Inl e)
    with Inr show ?thesis by (simp add: andthen_def http_def raising_def asks_def)
  next
    case r: (Inr x)
    obtain es where "fst (f x (tr @ [Exchange q (Inr r)])) = (tr @ [Exchange q (Inr r)]) @ es" "R x es"
      using assms by blast
    with Inr r show ?thesis by (simp add: andthen_def http_def raising_def asks_def)
  qed
qed

lemma do_login_asks:
  assumes s: "s = sessions_opened tr"
  shows "\<exists>es. fst (do_login cfg net username password tr) = (tr @ [Opened s]) @ es \<and>
    asks (get_request (Some s) (login_url cfg) False 10) (redirect_of_login cfg) (\<lambda>keycloak.
    asks (get_request (Some s) keycloak True 10) (form_action cfg) (\<lambda>action.
    asks (credentials_request s action username password) (redirect_of_post cfg) (\<lambda>callback.
    asks (get_request (Some s) callback True 15) callback_done (\<lambda>_ es. es = [])))) es"
proof -
  have "do_login cfg net username password tr =
     andthen (http net (get_request (Some s) (login_url cfg) False 10)) (\<lambda>r.
     andthen (raising (redirect_of_login cfg r)) (\<lambda>keycloak.
     andthen (http net (get_request (Some s) keycloak True 10)) (\<lambda>r.
     andthen (raising (form_action cfg r)) (\<lambda>action.
     andthen (http net (credentials_request s action username password)) (\<lambda>r.
     andthen (raising (redirect_of_post cfg r)) (\<lambda>callback.
     andthen (http net (get_request (Some s) callback True 15)) (\<lambda>r.
     andthen (raising (callback_done r)) (\<lambda>_. finish s)))))))) (tr @ [Opened s])"
    by (simp add: do_login_def andthen_def [of new_session] new_session_def s)
  then show ?thesis by (simp only:) (intro asks_step, simp add: finish_def)
qed

lemma login_origins:
  "redirect_of_login cfg r = Inr u \<Longrightarrow> redirected_to cfg (Exchange q (Inr r)) u"
  "form_action cfg r = Inr u \<Longrightarrow> form_posts_to cfg (Exchange q (Inr r)) u"
  "redirect_of_post cfg r = Inr u \<Longrightarrow> redirected_to cfg (Exchange q (Inr r)) u"
  by (auto simp: login_guards redirected_to_def form_posts_to_def rewrite_def PUBLIC_URL_def)

text \<open>
  C12: Whatever the network answers, a login opens one session and sends a prefix of the four requests
  of the flow in that session, and nothing else. Each address is the one its predecessor's answer names;
  the credentials leave only in the third request, a POST that follows no redirect, to the address of the
  form in a page that came with status 200.
\<close>

theorem do_login_sends:
  "\<exists>es keycloak action callback.
     fst (do_login cfg net username password tr) = tr @ Opened (sessions_opened tr) # es \<and>
     opened es = [] \<and>
     prefix (requests_of es) (login_requests cfg (sessions_opened tr) username password keycloak action callback) \<and>
     (length (requests_of es) \<le> 1 \<or> redirected_to cfg (es ! 0) keycloak) \<and>
     (length (requests_of es) \<le> 2 \<or> form_posts_to cfg (es ! 1) action) \<and>
     (length (requests_of es) \<le> 3 \<or> redirected_to cfg (es ! 2) callback)"
proof -
  obtain es where "fst (do_login cfg net username password tr) = tr @ Opened (sessions_opened tr) # es"
    and "asks (browser_get (sessions_opened tr) (FRONTEND_URL cfg @ ''/api/login'') False 10) (redirect_of_login cfg) (\<lambda>keycloak.
    asks (browser_get (sessions_opened tr) keycloak True 10) (form_action cfg) (\<lambda>action.
    asks (post_credentials (sessions_opened tr) action username password) (redirect_of_post cfg) (\<lambda>callback.
    asks (browser_get (sessions_opened tr) callback True 15) callback_done (\<lambda>_ es. es = [])))) es"
    using do_login_asks [OF refl, of cfg net username password tr]
    unfolding login_request_forms login_url_def by auto
  then show ?thesis
    by (intro exI [of _ es]) (auto simp: asks_def login_requests_def nth_Cons' intro: login_origins)
qed

section \<open>Sessions\<close>

text \<open>Only a login opens a session, and it opens one; only a scenario has a heading.\<close>

definition same_users :: "event list \<Rightarrow> event list \<Rightarrow> bool" where
  "same_users t u \<longleftrightarrow> opened u = opened t \<and> started u = started t"

interpretation users: trace_relation same_users
  by unfold_locales (simp_all add: same_users_def)

definition no_heading :: "line \<Rightarrow> bool" where
  "no_heading l \<longleftrightarrow> (\<forall>label username. l \<noteq> Scenario_heading label username)"

lemma users_print: "no_heading l \<Longrightarrow> keeps same_users (act (Print l))"
  by (cases l) (simp_all add: same_users_def keeps_def act_def no_heading_def)

lemma users_actions:
  "keeps same_users (act (Sleep d))" "keeps same_users (http net q)"
  by (simp_all add: same_users_def keeps_def act_def http_def)

lemmas users_rules = users_print users_actions users.keeps_rules

lemma keeps_same_users:
  assumes "keeps same_users m"
  shows "opened (fst (m tr)) = opened tr" "started (fst (m tr)) = started tr"
  using assms by (simp_all add: keeps_def same_users_def)

lemma run_step_users: "keeps same_users (run_step cfg net s st)"
  unfolding run_step_def call_def
  by (intro users_rules) (auto intro!: users_rules simp: no_heading_def split: prod.splits)

lemma do_login_users:
  "opened (fst (do_login cfg net username password tr)) = opened tr @ [length (opened tr)]"
  "started (fst (do_login cfg net username password tr)) = started tr"
proof -
  obtain es where "fst (do_login cfg net username password tr) = tr @ Opened (sessions_opened tr) # es"
    "opened es = []" "started es = []"
    using do_login_asks [OF refl, of cfg net username password tr] by (auto simp: asks_def)
  then show "opened (fst (do_login cfg net username password tr)) = opened tr @ [length (opened tr)]"
    "started (fst (do_login cfg net username password tr)) = started tr"
    by (simp_all add: sessions_opened_eq)
qed

lemma run_scenario_users:
  "opened (fst (run_scenario cfg net username password label steps tr)) = opened tr @ [length (opened tr)]"
  "started (fst (run_scenario cfg net username password label steps tr)) = started tr @ [username]"
proof -
  let ?rest = "\<lambda>s. followed (act (Print Login_ok)) (followed (each steps (run_step cfg net s)) (act (Sleep (1 / 2))))"
  let ?t = "tr @ [Print (Scenario_heading label username)]"
  have "keeps same_users (?rest s)" for s
    by (intro users_rules run_step_users) (simp add: no_heading_def)
  then have rest: "opened (fst (?rest s t)) = opened t" "started (fst (?rest s t)) = started t" for s t
    using keeps_same_users by blast+
  obtain t r where login: "do_login cfg net username password ?t = (t, r)" by (cases "do_login cfg net username password ?t")
  then have t: "opened t = opened tr @ [length (opened tr)]" "started t = started tr @ [username]"
    using do_login_users [of cfg net username password ?t] by simp_all
  have run: "run_scenario cfg net username password label steps tr =
      (case r of Inl e \<Rightarrow> if catchable e then (t @ [Print (Login_failed e)], Inr ()) else (t, Inl e) | Inr s \<Rightarrow> ?rest s t)"
    by (simp add: run_scenario_def followed_def [of "act (Print (Scenario_heading label username))"] andthen_def act_def
        try_except_def login split: sum.split)
  show "opened (fst (run_scenario cfg net username password label steps tr)) = opened tr @ [length (opened tr)]"
    "started (fst (run_scenario cfg net username password label steps tr)) = started tr @ [username]"
    using t rest by (cases r; simp add: run)+
qed

section \<open>The steps of a scenario\<close>

text \<open>
  What the library promises of its exceptions: they are caught by \<open>except Exception\<close>. It is a
  hypothesis on \<open>net\<close>, also about the exceptions of \<open>json()\<close>.
\<close>

definition catchable_errors :: "network \<Rightarrow> bool" where
  "catchable_errors net \<longleftrightarrow>
     (\<forall>tr q e. net tr q = Inl e \<longrightarrow> catchable e) \<and>
     (\<forall>tr q r e. net tr q = Inr r \<longrightarrow> response_json r = Inl e \<longrightarrow> catchable e)"

definition step_request :: "scenario_config \<Rightarrow> nat \<Rightarrow> scenario_step \<Rightarrow> http_request" where
  "step_request cfg s st = api_request cfg s (st_method st) (st_path st) (st_json st)"

text \<open>The events of one step, for the answer it got.\<close>

definition step_events ::
  "scenario_config \<Rightarrow> nat \<Rightarrow> scenario_step \<Rightarrow> exn + http_response \<Rightarrow> event list" where
  "step_events cfg s st a =
     Exchange (step_request cfg s st) a #
     (case a of
        Inl e \<Rightarrow> [Print (Step_failed (st_method st) (st_path st) e)]
      | Inr r \<Rightarrow>
          Print (Step_status (http_status r < 400) (desc st) (st_method st) (st_path st) (http_status r)) #
          (if 400 \<le> http_status r then
             [Print (Step_body
                (if response_content r = [] then JNull
                 else case response_json r of Inl e \<Rightarrow> JStr (take 120 (response_text r)) | Inr v \<Rightarrow> v))]
           else []))"

lemma sent_step_events [simp]: "requests_of (step_events cfg s st a) = [step_request cfg s st]"
  by (simp add: step_events_def split: sum.split)

lemma run_step_events:
  assumes "catchable_errors net"
  shows "run_step cfg net s st tr = (tr @ step_events cfg s st (net tr (step_request cfg s st)), Inr ())"
  using assms
  by (cases "net tr (step_request cfg s st)")
    (auto simp: run_step_def call_def try_except_def andthen_def http_def step_request_def raising_def finish_def
      followed_def act_def step_events_def response_body_def catchable_errors_def split: sum.splits)

lemma run_steps_events:
  "catchable_errors net \<Longrightarrow> \<exists>answers. length answers = length steps \<and>
     each steps (run_step cfg net s) tr = (tr @ concat (map2 (step_events cfg s) steps answers), Inr ())"
proof (induction steps arbitrary: tr)
  case Nil
  then show ?case by (simp add: finish_def)
next
  case (Cons st steps)
  let ?a = "net tr (step_request cfg s st)"
  obtain answers where "length answers = length steps" "each steps (run_step cfg net s) (tr @ step_events cfg s st ?a) =
      ((tr @ step_events cfg s st ?a) @ concat (map2 (step_events cfg s) steps answers), Inr ())"
    using Cons by blast
  then show ?case
    by (intro exI [of _ "?a # answers"]) (simp add: followed_def andthen_def run_step_events [OF Cons.prems, of cfg s st tr])
qed

lemma sent_steps:
  "length answers = length steps \<Longrightarrow>
     requests_of (concat (map2 (step_events cfg s) steps answers)) = map (step_request cfg s) steps"
  by (induction answers steps rule: list_induct2) auto

text \<open>
  C13: A scenario whose login succeeds returns and has attempted every one of its steps, in order and
  in the session of the login, whatever the answers were, with the lines each answer calls for; a
  scenario whose login fails with an exception returns after reporting it.
\<close>

theorem run_scenario_attempts_every_step:
  assumes "catchable_errors net"
  shows "case do_login cfg net username password (tr @ [Print (Scenario_heading label username)]) of
      (t, Inr s) \<Rightarrow> \<exists>es answers. length answers = length steps \<and>
        es = concat (map2 (step_events cfg s) steps answers) \<and> requests_of es = map (step_request cfg s) steps \<and>
        run_scenario cfg net username password label steps tr =
          (t @ Print Login_ok # es @ [Sleep (1 / 2)], Inr ())
    | (t, Inl e) \<Rightarrow> run_scenario cfg net username password label steps tr =
        (if catchable e then (t @ [Print (Login_failed e)], Inr ()) else (t, Inl e))"
proof (cases "do_login cfg net username password (tr @ [Print (Scenario_heading label username)])")
  case (Pair t r)
  show ?thesis
  proof (cases r)
    case (Inl e)
    with Pair show ?thesis by (simp add: run_scenario_def followed_def andthen_def act_def try_except_def)
  next
    case (Inr s)
    obtain answers where "length answers = length steps" "each steps (run_step cfg net s) (t @ [Print Login_ok]) =
        ((t @ [Print Login_ok]) @ concat (map2 (step_events cfg s) steps answers), Inr ())"
      using run_steps_events [OF assms] by blast
    with Pair Inr show ?thesis
      by (auto simp: run_scenario_def followed_def andthen_def act_def try_except_def sent_steps)
  qed
qed

section \<open>The bypass\<close>

abbreviation order_secret :: "(string \<Rightarrow> string option) \<Rightarrow> string" where
  "order_secret environ \<equiv> environ_get environ ''ORDER_SERVICE_CLIENT_SECRET'' ''order-service-secret''"

text \<open>The token of the answer of the token endpoint.\<close>

definition token_of :: "http_response \<Rightarrow> exn + json" where
  "token_of r = ebind (raise_for_status r) (\<lambda>_. ebind (response_json r) (\<lambda>body. py_getitem body ''access_token''))"

lemma token_of_Inr_iff:
  "token_of r = Inr v \<longleftrightarrow>
     http_status r \<notin> {400..<600} \<and> (\<exists>body. response_json r = Inr body \<and> py_getitem body ''access_token'' = Inr v)"
  by (auto simp: token_of_def raises raise_for_status_def)

lemma obtain_token_run:
  "obtain_token cfg net secret tr =
     (tr @ [Exchange (token_request cfg secret) (net tr (token_request cfg secret))],
      case net tr (token_request cfg secret) of Inl e \<Rightarrow> Inl e | Inr r \<Rightarrow> token_of r)"
  by (simp add: obtain_token_def token_of_def andthen_def http_def raising_def split: sum.split)

definition direct_events :: "exn + http_response \<Rightarrow> event list" where
  "direct_events a =
     (case a of
        Inl e \<Rightarrow> if catchable e then [Print (Direct_failed e)] else []
      | Inr r \<Rightarrow> [Print (Direct_status (http_status r < 400) (http_status r)), Sleep (1 / 2)])"

lemma bypass_with_token:
  fixes tr :: "event list"
  defines "t \<equiv> tr @ [Print Bypass_heading]"
  assumes "net t (token_request cfg (order_secret environ)) = Inr r" "token_of r = Inr v"
  shows "run_bypass_attempt cfg environ net tr =
    (let t' = t @ [Exchange (token_request cfg (order_secret environ)) (Inr r)] in
     case token_summary v of
       Inl e \<Rightarrow> (t', Inl e)
     | Inr l \<Rightarrow>
         (let a = net (t' @ [Print l]) (direct_request cfg v) in
          (t' @ Print l # Exchange (direct_request cfg v) a # direct_events a,
           case a of Inl e \<Rightarrow> if catchable e then Inr () else Inl e | Inr r \<Rightarrow> Inr ())))"
  using assms
  by (simp add: run_bypass_attempt_def followed_def andthen_def act_def try_except_def obtain_token_run raising_def
      http_def direct_events_def split: sum.split)

lemma bypass_without_token:
  fixes tr :: "event list"
  defines "t \<equiv> tr @ [Print Bypass_heading]"
  assumes "\<And>r. net t (token_request cfg (order_secret environ)) = Inr r \<Longrightarrow> \<exists>e. token_of r = Inl e"
  shows "\<exists>ls. run_bypass_attempt cfg environ net tr =
    (t @ Exchange (token_request cfg (order_secret environ)) (net t (token_request cfg (order_secret environ))) # map Print ls,
     case obtain_token cfg net (order_secret environ) t of
       (t', Inl e) \<Rightarrow> if catchable e then Inr () else Inl e | (t', Inr v) \<Rightarrow> Inr ())"
proof (cases "obtain_token cfg net (order_secret environ) t")
  case (Pair t' x)
  moreover obtain e where "x = Inl e"
    using Pair assms(2) by (auto simp: obtain_token_run split: sum.splits)
  ultimately show ?thesis
    by (intro exI [of _ "if catchable e then [Token_failed e] else []"])
      (auto simp: run_bypass_attempt_def followed_def [of "act (Print Bypass_heading)"] andthen_def act_def
        try_except_def t_def obtain_token_run)
qed

text \<open>What the bypass is to send, written out.\<close>

definition client_credentials_grant :: "scenario_config \<Rightarrow> (string \<Rightarrow> string option) \<Rightarrow> http_request" where
  "client_credentials_grant cfg environ =
     \<lparr>hr_session = None, hr_method = ''POST'',
      hr_url = KEYCLOAK_INTERNAL_URL cfg @ ''/protocol/openid-connect/token'', hr_allow_redirects = True,
      hr_data = [(''grant_type'', ''client_credentials''), (''client_id'', ''order-service''),
        (''client_secret'', case environ ''ORDER_SERVICE_CLIENT_SECRET'' of None \<Rightarrow> ''order-service-secret'' | Some s \<Rightarrow> s),
        (''scope'', ''inventory roles'')],
      hr_json = None, hr_headers = [], hr_timeout = 10\<rparr>"

definition inventory_access :: "scenario_config \<Rightarrow> string \<Rightarrow> http_request" where
  "inventory_access cfg token =
     \<lparr>hr_session = None, hr_method = ''GET'', hr_url = INVENTORY_SERVICE_URL cfg @ ''/inventory/product-A'',
      hr_allow_redirects = True, hr_data = [], hr_json = None,
      hr_headers = [(''Authorization'', ''Bearer '' @ token)], hr_timeout = 10\<rparr>"

lemma bypass_request_forms:
  "token_request cfg (order_secret environ) = client_credentials_grant cfg environ"
  "direct_request cfg (JStr t) = inventory_access cfg t"
  by (simp_all add: token_request_def direct_request_def client_credentials_grant_def inventory_access_def
      environ_get_def str_of_json_def split: option.split)

text \<open>The token an answer carries, and whether its claims can be read.\<close>

definition received :: "exn + http_response \<Rightarrow> json option" where
  "received a =
     (case a of
        Inl e \<Rightarrow> None
      | Inr r \<Rightarrow>
          if 400 \<le> http_status r \<and> http_status r < 600 then None
          else (case response_json r of Inr (JObj body) \<Rightarrow> map_of body ''access_token'' | _ \<Rightarrow> None))"

definition readable_token :: "string \<Rightarrow> bool" where
  "readable_token t \<longleftrightarrow>
     (case str_split (CHR ''.'') t of
        h # payload # ps \<Rightarrow>
          (case ebind (b64url_decode payload) json_loads_bytes of Inr (JObj claims) \<Rightarrow> True | _ \<Rightarrow> False)
      | _ \<Rightarrow> False)"

lemma token_of_received: "token_of r = Inr v \<longleftrightarrow> received (Inr r) = Some v"
proof -
  have "(case x of Inr (JObj body) \<Rightarrow> map_of body ''access_token'' | _ \<Rightarrow> None) = Some v \<longleftrightarrow>
      (\<exists>body. x = Inr body \<and> py_getitem body ''access_token'' = Inr v)" for x :: "exn + json"
  proof (cases x)
    case (Inr b)
    then show ?thesis by (cases b) (auto simp: dgetitem_Inr_iff)
  qed simp
  then show ?thesis by (auto simp: token_of_Inr_iff received_def)
qed

lemma token_summary_str:
  "(\<exists>l. token_summary (JStr t) = Inr l) \<longleftrightarrow> readable_token t"
proof (cases "\<exists>h p ps. str_split (CHR ''.'') t = h # p # ps")
  case True
  then obtain h p ps where parts: "str_split (CHR ''.'') t = h # p # ps" by blast
  have "decode_jwt_claims (JStr t) = ebind (b64url_decode p) json_loads_bytes"
    by (simp add: decode_jwt_claims_def parts b64url_decode_def)
  moreover have "(\<exists>l. ebind (py_get c ''aud'' JNull) (\<lambda>aud. ebind (py_get c ''sub'' JNull) (\<lambda>sub.
      ebind (py_get c ''jti'' JNull) (\<lambda>jti. Inr (Token_obtained aud sub jti)))) = Inr l) \<longleftrightarrow>
      (case c of JObj claims \<Rightarrow> True | _ \<Rightarrow> False)" for c
    by (cases c) simp_all
  ultimately show ?thesis
    by (cases "ebind (b64url_decode p) json_loads_bytes") (simp_all add: token_summary_def readable_token_def parts)
next
  case False
  then have "decode_jwt_claims (JStr t) = Inl IndexError" "\<not> readable_token t"
    by (auto simp: decode_jwt_claims_def readable_token_def split: list.splits)
  then show ?thesis by (simp add: token_summary_def)
qed

lemma token_summary_not_str: "\<not> is_str v \<Longrightarrow> token_summary v = Inl AttributeError"
  by (cases v) (simp_all add: token_summary_def decode_jwt_claims_def)

lemma token_summary_line: "token_summary v = Inr l \<Longrightarrow> no_heading l"
  by (auto simp: token_summary_def raises no_heading_def)

lemma requests_of_lines [simp]: "requests_of (map Print ls) = []" "requests_of (direct_events a) = []"
  by (induction ls) (simp_all add: direct_events_def split: sum.split)

lemma bypass_requests_run:
  "\<exists>answer rest. answer = net (tr @ [Print Bypass_heading]) (client_credentials_grant cfg environ) \<and>
     fst (run_bypass_attempt cfg environ net tr) =
       tr @ Print Bypass_heading # Exchange (client_credentials_grant cfg environ) answer # rest \<and>
     requests_of rest =
       (case received answer of
          Some (JStr token) \<Rightarrow> if readable_token token then [inventory_access cfg token] else []
        | _ \<Rightarrow> [])"
proof -
  define answer where "answer = net (tr @ [Print Bypass_heading]) (client_credentials_grant cfg environ)"
  have "\<exists>rest. fst (run_bypass_attempt cfg environ net tr) =
       tr @ Print Bypass_heading # Exchange (client_credentials_grant cfg environ) answer # rest \<and>
     requests_of rest =
       (case received answer of
          Some (JStr token) \<Rightarrow> if readable_token token then [inventory_access cfg token] else []
        | _ \<Rightarrow> [])"
  proof (cases "\<exists>r v. answer = Inr r \<and> token_of r = Inr v")
    case False
    then have "\<exists>e. token_of r = Inl e" if "answer = Inr r" for r
      using that by (cases "token_of r") auto
    then obtain ls where "fst (run_bypass_attempt cfg environ net tr) =
        tr @ Print Bypass_heading # Exchange (client_credentials_grant cfg environ) answer # map Print ls"
      using bypass_without_token [of net tr cfg environ] by (auto simp: bypass_request_forms answer_def)
    moreover have "received answer = None"
      using False token_of_received by (cases answer) (auto simp: received_def)
    ultimately show ?thesis by (intro exI [of _ "map Print ls"]) simp
  next
    case True
    then obtain r v where r: "answer = Inr r" "token_of r = Inr v" by blast
    then have rec: "received answer = Some v" by (simp add: token_of_received)
    have net: "net (tr @ [Print Bypass_heading]) (token_request cfg (order_secret environ)) = Inr r"
      using r(1) by (simp add: bypass_request_forms answer_def)
    note run = bypass_with_token [where net = net and cfg = cfg and environ = environ and tr = tr, OF net r(2)]
    show ?thesis
    proof (cases "token_summary v")
      case (Inl e)
      then have "requests_of [] = (case received answer of
            Some (JStr token) \<Rightarrow> if readable_token token then [inventory_access cfg token] else [] | _ \<Rightarrow> [])"
        using token_summary_str [symmetric] by (auto simp: rec split: json.split)
      then show ?thesis using run Inl r(1) by (intro exI [of _ "[]"]) (simp add: bypass_request_forms)
    next
      case (Inr l)
      then obtain t where t: "v = JStr t" using token_summary_not_str by (cases v) auto
      with Inr have "readable_token t" using token_summary_str by blast
      then show ?thesis
        using run Inr r(1) rec by (auto simp: t bypass_request_forms Let_def)
    qed
  qed
  then show ?thesis unfolding answer_def by blast
qed

text \<open>
  C18: Whatever the network answers, the bypass asks the token endpoint with the order service's own
  credentials, and exactly when the answer carries a token whose claims can be read it sends one more
  request, which presents that very token to the inventory service; it sends nothing else, so no token
  exchange takes place.
\<close>

theorem bypass_requests:
  "\<exists>answer rest. answer = net (tr @ [Print Bypass_heading]) (client_credentials_grant cfg environ) \<and>
     fst (run_bypass_attempt cfg environ net tr) =
       tr @ Print Bypass_heading # Exchange (client_credentials_grant cfg environ) answer # rest \<and>
     requests_of rest =
       (case received answer of
          Some (JStr token) \<Rightarrow> if readable_token token then [inventory_access cfg token] else []
        | _ \<Rightarrow> [])"
  by (rule bypass_requests_run)

lemma bypass_users: "keeps same_users (run_bypass_attempt cfg environ net)"
  unfolding run_bypass_attempt_def obtain_token_def
  by (intro users.keeps_raising_andthen users_rules) (auto simp: no_heading_def dest: token_summary_line)

text \<open>The claims of a compact token are read from its second segment.\<close>

lemma decode_jwt_claims_compact:
  assumes "CHR ''.'' \<notin> set sig" "plain_object claims"
  shows "decode_jwt_claims (JStr (jws_compact frepr header claims sig)) = Inr claims"
  using jws_segment_reads [OF assms(2), of frepr]
  by (simp add: decode_jwt_claims_def jws_compact_split [OF assms(1)] b64url_decode_def)

text \<open>
  C20: When the token endpoint answers with a compact token, the bypass prints the audience, subject
  and id its payload carries and presents the token to the inventory service, and the program goes on.
\<close>

theorem bypass_reports_token:
  assumes "net (tr @ [Print Bypass_heading]) (token_request cfg (order_secret environ)) = Inr r"
    and "http_status r = 200" "response_json r = Inr (JObj body)"
    and "map_of body ''access_token'' = Some (JStr (jws_compact frepr header (JObj claims) sig))"
    and "CHR ''.'' \<notin> set sig" "plain_object (JObj claims)" "catchable_errors net"
  shows "\<exists>a. run_bypass_attempt cfg environ net tr =
    (tr @ Print Bypass_heading # Exchange (token_request cfg (order_secret environ)) (Inr r) #
       Print (Token_obtained (dget claims ''aud'' JNull) (dget claims ''sub'' JNull) (dget claims ''jti'' JNull)) #
       Exchange (direct_request cfg (JStr (jws_compact frepr header (JObj claims) sig))) a # direct_events a,
     Inr ())"
proof -
  let ?v = "JStr (jws_compact frepr header (JObj claims) sig)"
  have "token_of r = Inr ?v" using assms(2-4) by (simp add: token_of_Inr_iff dgetitem_def)
  from bypass_with_token [where net = net and cfg = cfg and environ = environ and tr = tr and v = ?v, OF assms(1) this]
  show ?thesis
    using assms(5-7) by (auto simp: token_summary_def decode_jwt_claims_compact Let_def catchable_errors_def split: sum.split)
qed

section \<open>The whole program\<close>

text \<open>
  The pages of the network stay inside the model of \<open>html.unescape\<close>; with that, everything a login can
  raise is caught.
\<close>

definition pages_in_model :: "network \<Rightarrow> bool" where
  "pages_in_model net \<longleftrightarrow>
     (\<forall>tr q r a. net tr q = Inr r \<longrightarrow> find_form_action (response_text r) = Some a \<longrightarrow> (\<exists>u. html_unescape a = Inr u))"

lemma raises_only_exchange:
  assumes "\<And>tr e. net tr q = Inl e \<Longrightarrow> R e" "\<And>tr r. net tr q = Inr r \<Longrightarrow> raises_only R (f r)"
  shows "raises_only R (andthen (http net q) f)"
  unfolding raises_only_def
proof (intro allI impI)
  fix tr e
  assume "snd (andthen (http net q) f tr) = Inl e"
  then show "R e"
    using assms by (cases "net tr q") (auto simp: andthen_def http_def raises_only_def)
qed

lemma login_checks_catchable:
  "redirect_of_login cfg r = Inl e \<Longrightarrow> catchable e"
  "redirect_of_post cfg r = Inl e \<Longrightarrow> catchable e"
  "callback_done r = Inl x \<Longrightarrow> catchable x"
  "(\<And>a. find_form_action (response_text r) = Some a \<Longrightarrow> \<exists>u. html_unescape a = Inr u) \<Longrightarrow>
     form_action cfg r = Inl e \<Longrightarrow> catchable e"
  by (auto simp: redirect_of_login_def redirect_of_post_def callback_done_def location_def form_action_def raises
      split: if_splits option.splits)

lemma do_login_catchable:
  assumes "catchable_errors net" "pages_in_model net"
  shows "raises_only catchable (do_login cfg net username password)"
proof -
  have failed: "catchable e" if "net tr q = Inl e" for tr q e
    using assms(1) that by (auto simp: catchable_errors_def)
  have form: "catchable e" if "net tr q = Inr r" "form_action cfg r = Inl e" for tr q r e
    using assms(2) that login_checks_catchable(4) unfolding pages_in_model_def by metis
  have "raises_only catchable new_session" by (simp add: raises_only_def new_session_def)
  then show ?thesis
    unfolding do_login_def
    by (intro raises_only_andthen [of _ new_session] raises_only_exchange raises_only_raising_andthen raises_only_finish)
      (auto dest: failed form login_checks_catchable(1-3))
qed

lemma run_scenario_returns:
  assumes "catchable_errors net" "pages_in_model net"
  shows "raises_only (\<lambda>e. False) (run_scenario cfg net username password label steps)"
proof -
  have "raises_only (\<lambda>e. False) (each steps (run_step cfg net s))" for s
    by (intro raises_only_each) (simp add: raises_only_def run_step_events [OF assms(1)])
  then show ?thesis
    unfolding run_scenario_def
    by (intro raises_only_followed raises_only_act raises_only_try [OF do_login_catchable [OF assms]]) auto
qed

lemma obtain_token_contained:
  assumes "catchable_errors net" "snd (obtain_token cfg net secret tr) = Inl e"
  shows "catchable e"
proof (cases "net tr (token_request cfg secret)")
  case (Inr r)
  with assms(2) have t: "token_of r = Inl e" by (simp add: obtain_token_run)
  have "response_json r = Inl e' \<Longrightarrow> catchable e'" for e'
    using assms(1) Inr by (auto simp: catchable_errors_def)
  with t show ?thesis
    by (auto simp: token_of_def raise_for_status_def raises split: if_splits dest!: py_getitem_raises)
qed (use assms in \<open>auto simp: obtain_token_run catchable_errors_def\<close>)

text \<open>Only reading the claims of the token happens outside every \<open>try\<close>.\<close>

lemma run_bypass_raises:
  assumes "catchable_errors net" "snd (run_bypass_attempt cfg environ net tr) = Inl e"
  obtains r v where "net (tr @ [Print Bypass_heading]) (client_credentials_grant cfg environ) = Inr r"
    "received (Inr r) = Some v" "token_summary v = Inl e"
    "fst (run_bypass_attempt cfg environ net tr) =
       tr @ [Print Bypass_heading, Exchange (client_credentials_grant cfg environ) (Inr r)]"
proof (cases "\<exists>r v. net (tr @ [Print Bypass_heading]) (token_request cfg (order_secret environ)) = Inr r \<and>
    token_of r = Inr v")
  case False
  then have "\<exists>e. token_of r = Inl e"
    if "net (tr @ [Print Bypass_heading]) (token_request cfg (order_secret environ)) = Inr r" for r
    using that by (cases "token_of r") auto
  then have "\<exists>ls. run_bypass_attempt cfg environ net tr =
    ((tr @ [Print Bypass_heading]) @ Exchange (token_request cfg (order_secret environ))
       (net (tr @ [Print Bypass_heading]) (token_request cfg (order_secret environ))) # map Print ls,
     case obtain_token cfg net (order_secret environ) (tr @ [Print Bypass_heading]) of
       (t', Inl e) \<Rightarrow> if catchable e then Inr () else Inl e | (t', Inr v) \<Rightarrow> Inr ())"
    using bypass_without_token [of net tr cfg environ] by blast
  with assms obtain_token_contained [OF assms(1), of cfg "order_secret environ" "tr @ [Print Bypass_heading]"]
  show ?thesis by (auto split: prod.splits sum.splits if_splits)
next
  case True
  then obtain r v where r: "net (tr @ [Print Bypass_heading]) (token_request cfg (order_secret environ)) = Inr r"
    "token_of r = Inr v" by blast
  note run = bypass_with_token [where net = net and cfg = cfg and environ = environ and tr = tr, OF r]
  have "token_summary v = Inl e"
    using assms run by (auto simp: Let_def catchable_errors_def split: sum.splits if_splits)
  moreover have "fst (run_bypass_attempt cfg environ net tr) =
      tr @ [Print Bypass_heading, Exchange (client_credentials_grant cfg environ) (Inr r)]"
    using run calculation by (simp add: bypass_request_forms)
  ultimately show ?thesis
    using that r by (simp add: bypass_request_forms token_of_received)
qed

lemma decode_jwt_claims_raises:
  assumes "decode_jwt_claims access_token = Inl e"
  shows "e \<in> {AttributeError, IndexError, BinasciiError, ValueError, JSONDecodeError, UnicodeError, OutOfModel}"
proof (cases access_token)
  case (JStr t)
  then show ?thesis
  proof (cases "\<exists>h p ps. str_split (CHR ''.'') t = h # p # ps")
    case True
    then obtain h p ps where "str_split (CHR ''.'') t = h # p # ps" by blast
    with assms JStr have "ebind (b64url_decode p) json_loads_bytes = Inl e"
      by (simp add: decode_jwt_claims_def b64url_decode_def)
    then show ?thesis by (auto simp: raises dest!: b64url_decode_raises json_loads_bytes_raises)
  next
    case False
    with assms JStr show ?thesis by (simp add: decode_jwt_claims_def split: list.splits)
  qed
qed (use assms in \<open>simp_all add: decode_jwt_claims_def\<close>)

lemma token_summary_raises:
  assumes "token_summary access_token = Inl e"
  shows "e \<in> {AttributeError, IndexError, BinasciiError, ValueError, JSONDecodeError, UnicodeError, OutOfModel}"
proof -
  from assms have "decode_jwt_claims access_token = Inl e \<or> e = AttributeError"
    by (auto simp: token_summary_def raises dest!: py_get_raises)
  then show ?thesis using decode_jwt_claims_raises by blast
qed

lemma each_scenario_users:
  "each scs (\<lambda>(username, password, label, steps). run_scenario cfg net username password label steps) tr = (tr', Inr ()) \<Longrightarrow>
     opened tr' = opened tr @ [length (opened tr)..<length (opened tr) + length scs] \<and>
     started tr' = started tr @ map fst scs"
proof (induction scs arbitrary: tr)
  case Nil
  then show ?case by (simp add: finish_def)
next
  case (Cons sc scs)
  obtain username password label steps where sc: "sc = (username, password, label, steps)" by (cases sc)
  with Cons.prems obtain t where t: "run_scenario cfg net username password label steps tr = (t, Inr ())"
    "each scs (\<lambda>(username, password, label, steps). run_scenario cfg net username password label steps) t = (tr', Inr ())"
    by (auto simp: followed_returned)
  have "opened t = opened tr @ [length (opened tr)]" "started t = started tr @ [username]"
    using run_scenario_users [of cfg net username password label steps tr] t(1) by simp_all
  with Cons.IH [OF t(2)] sc show ?case by (simp add: upt_conv_Cons del: upt_Suc)
qed

lemma print_each: "each ls (\<lambda>l. act (Print l)) tr = (tr @ map Print ls, Inr ())"
  by (induction ls arbitrary: tr) (simp_all add: followed_def andthen_def act_def finish_def)

lemma opened_lines [simp]: "opened (map Print ls) = []"
  by (induction ls) simp_all

lemma history_bypass: "prefix (tr @ [Print Bypass_heading]) (fst (run_bypass_attempt cfg environ net tr))"
  using bypass_requests_run [of net tr cfg environ] by auto

lemma scenario_program_run:
  assumes "catchable_errors net" "pages_in_model net"
  obtains t1 where "opened t1 = [0, 1, 2]" "started t1 = [''yamada-sales'', ''suzuki-support'', ''tanaka-hr'']"
    "scenario_program environ net =
       (case run_bypass_attempt (scenario_settings environ) environ net t1 of
          (t2, Inl e) \<Rightarrow> (t2, Inl e)
        | (t2, Inr u) \<Rightarrow> (t2 @ map Print [Rule_line, Finished_line, Audit_hint_line, Rule_line], Inr ()))"
proof -
  let ?cfg = "scenario_settings environ"
  let ?f = "\<lambda>(username, password, label, steps). run_scenario ?cfg net username password label steps"
  let ?t0 = "map Print [Rule_line, Title_line, Target_line (FRONTEND_URL ?cfg), Rule_line]"
  obtain t1 r1 where t1: "each scenarios ?f ?t0 = (t1, r1)" by (cases "each scenarios ?f ?t0")
  have "raises_only (\<lambda>e. False) (each scenarios ?f)"
    by (intro raises_only_each) (auto intro!: run_scenario_returns assms)
  then have r1: "r1 = Inr ()"
    using t1 by (cases r1) (auto dest: raises_onlyD [where tr = ?t0])
  have "scenario_program environ net =
      (case run_bypass_attempt ?cfg environ net t1 of
          (t2, Inl e) \<Rightarrow> (t2, Inl e)
        | (t2, Inr u) \<Rightarrow> (t2 @ map Print [Rule_line, Finished_line, Audit_hint_line, Rule_line], Inr ()))"
    unfolding scenario_program_def scenario_main_def followed_def andthen_def
    by (simp add: print_each t1 [simplified] r1 del: each.simps split: prod.split sum.split)
  moreover have "opened t1 = [0, 1, 2]" "started t1 = [''yamada-sales'', ''suzuki-support'', ''tanaka-hr'']"
    using each_scenario_users [of scenarios ?cfg net ?t0 t1] t1 r1 by (simp_all add: scenarios_def upt_rec)
  ultimately show ?thesis using that by blast
qed

text \<open>
  C19: Whatever goes wrong in the network, the program runs the scenarios of its three users in order,
  each in a session of its own, and then the bypass. It returns after the bypass, unless the token that the
  token endpoint answered with is no compact token with a JSON object of claims: then it ends right after
  that answer, with the exception of decoding that token.
\<close>

theorem scenario_program_outcome:
  assumes "catchable_errors net" "pages_in_model net"
  shows "\<exists>pre post. fst (scenario_program environ net) = pre @ Print Bypass_heading # post \<and>
    opened pre = [0, 1, 2] \<and> started pre = [''yamada-sales'', ''suzuki-support'', ''tanaka-hr''] \<and>
    opened post = [] \<and>
    (snd (scenario_program environ net) = Inr () \<and> last post = Print Rule_line \<or>
     (\<exists>r token e. net (pre @ [Print Bypass_heading]) (client_credentials_grant (scenario_settings environ) environ) = Inr r \<and>
        received (Inr r) = Some token \<and>
        (case token of JStr t \<Rightarrow> \<not> readable_token t | _ \<Rightarrow> True) \<and>
        post = [Exchange (client_credentials_grant (scenario_settings environ) environ) (Inr r)] \<and>
        snd (scenario_program environ net) = Inl e \<and>
        e \<in> {AttributeError, IndexError, BinasciiError, ValueError, JSONDecodeError, UnicodeError, OutOfModel}))"
proof -
  let ?cfg = "scenario_settings environ"
  obtain t1 where t1: "opened t1 = [0, 1, 2]" "started t1 = [''yamada-sales'', ''suzuki-support'', ''tanaka-hr'']"
    and run: "scenario_program environ net =
       (case run_bypass_attempt ?cfg environ net t1 of
          (t2, Inl e) \<Rightarrow> (t2, Inl e)
        | (t2, Inr u) \<Rightarrow> (t2 @ map Print [Rule_line, Finished_line, Audit_hint_line, Rule_line], Inr ()))"
    using scenario_program_run [OF assms] by blast
  obtain t2 x where t2: "run_bypass_attempt ?cfg environ net t1 = (t2, x)"
    by (cases "run_bypass_attempt ?cfg environ net t1")
  show ?thesis
  proof (cases x)
    case (Inl e)
    obtain r v where r: "net (t1 @ [Print Bypass_heading]) (client_credentials_grant ?cfg environ) = Inr r"
      "received (Inr r) = Some v" "token_summary v = Inl e"
      "t2 = t1 @ [Print Bypass_heading, Exchange (client_credentials_grant ?cfg environ) (Inr r)]"
      using run_bypass_raises [OF assms(1), of ?cfg environ t1 e] t2 Inl by auto
    have "case v of JStr t \<Rightarrow> \<not> readable_token t | _ \<Rightarrow> True"
      using r(3) token_summary_str by (auto split: json.split) (metis sum.distinct(1))
    with r t1 token_summary_raises [OF r(3)] show ?thesis
      by (intro exI [of _ t1] exI [of _ "[Exchange (client_credentials_grant ?cfg environ) (Inr r)]"])
        (auto simp: run t2 Inl)
  next
    case (Inr u)
    obtain rest where rest: "t2 = t1 @ Print Bypass_heading # rest"
      using history_bypass [of t1 ?cfg environ net] t2 by (auto elim!: prefixE)
    have "opened t2 = opened t1"
      using keeps_same_users(1) [OF bypass_users, of ?cfg environ net t1] t2 by simp
    with t1 rest show ?thesis
      by (intro exI [of _ t1] exI [of _ "rest @ map Print [Rule_line, Finished_line, Audit_hint_line, Rule_line]"])
        (simp add: run t2 Inr)
  qed
qed

text \<open>
  C21: A token endpoint that answers with a token without a dot stops the program: no \<open>try\<close> of the
  bypass surrounds the decoding, so the exception leaves it and the inventory service is never called.
\<close>

theorem malformed_token_escapes:
  assumes "net (tr @ [Print Bypass_heading]) (token_request cfg (order_secret environ)) = Inr r"
    and "http_status r = 200" "response_json r = Inr (JObj body)"
    and "map_of body ''access_token'' = Some (JStr t)" "CHR ''.'' \<notin> set t"
  shows "run_bypass_attempt cfg environ net tr =
    (tr @ [Print Bypass_heading, Exchange (token_request cfg (order_secret environ)) (Inr r)], Inl IndexError)"
proof -
  have "token_of r = Inr (JStr t)" using assms(2-4) by (simp add: token_of_Inr_iff dgetitem_def)
  from bypass_with_token [where net = net and cfg = cfg and environ = environ and tr = tr, OF assms(1) this] assms(5)
  show ?thesis by (simp add: token_summary_def decode_jwt_claims_def str_split_single)
qed

section \<open>A concrete network\<close>

text \<open>It lets every user sign in, has a token for the order service, and answers every call with 200.\<close>

definition reply :: "int \<Rightarrow> string \<Rightarrow> string \<Rightarrow> json \<Rightarrow> http_response" where
  "reply status loc page body =
     \<lparr>http_status = status, header_value = (\<lambda>h. if h = ''Location'' then Some loc else None), response_text = page,
      response_json = Inr body, response_content = [1], http_error = []\<rparr>"

definition sample_token :: string where
  "sample_token = jws_compact (\<lambda>q. []) (JObj []) (JObj [(''aud'', JStr ''inventory-service''), (''jti'', JStr ''j1'')]) ''sig''"

definition sample_net :: network where
  "sample_net tr q = Inr
     (if hr_url q = ''http://edge-proxy:3000/api/login'' then reply 302 ''http://localhost:3000/realms'' [] JNull
      else if hr_url q = ''http://edge-proxy:3000/realms'' then reply 200 [] sample_page JNull
      else if hr_url q = ''http://edge-proxy:3000/auth?code=1&tab=2''
      then reply 302 ''http://localhost:3000/api/callback'' [] JNull
      else reply 200 [] [] (JObj [(''access_token'', JStr sample_token)]))"

abbreviation default_settings :: scenario_config where
  "default_settings \<equiv> scenario_settings (\<lambda>k. None)"

lemma catchable_sample: "catchable_errors sample_net"
  by (simp add: catchable_errors_def sample_net_def reply_def)

lemma sample_login: "snd (do_login default_settings sample_net ''u'' ''p'' [Print (Scenario_heading ''l'' ''u'')]) = Inr 0"
  by code_simp

theorem run_scenario_attempts_every_step_witness:
  "\<exists>t a. run_scenario default_settings sample_net ''u'' ''p'' ''l'' [get_step ''d'' ''/api/orders''] [] =
     (t @ Print Login_ok # step_events default_settings 0 (get_step ''d'' ''/api/orders'') a @ [Sleep (1 / 2)], Inr ())"
proof -
  obtain t where "do_login default_settings sample_net ''u'' ''p'' [Print (Scenario_heading ''l'' ''u'')] = (t, Inr 0)"
    using sample_login by (metis prod.collapse)
  then obtain a where "run_scenario default_settings sample_net ''u'' ''p'' ''l'' [get_step ''d'' ''/api/orders''] [] =
      (t @ Print Login_ok # step_events default_settings 0 (get_step ''d'' ''/api/orders'') a @ [Sleep (1 / 2)], Inr ())"
    using run_scenario_attempts_every_step [OF catchable_sample, where cfg = default_settings and
      username = "''u''" and password = "''p''" and tr = "[]" and label = "''l''" and steps = "[get_step ''d'' ''/api/orders'']"]
    by (auto simp: length_Suc_conv)
  then show ?thesis by blast
qed

theorem bypass_reports_token_witness:
  "\<exists>a r. run_bypass_attempt default_settings (\<lambda>k. None) sample_net [] =
    ([Print Bypass_heading, Exchange (token_request default_settings ''order-service-secret'') (Inr r),
       Print (Token_obtained (JStr ''inventory-service'') JNull (JStr ''j1'')),
       Exchange (direct_request default_settings (JStr sample_token)) a] @ direct_events a,
     Inr ())"
proof -
  let ?claims = "[(''aud'', JStr ''inventory-service''), (''jti'', JStr ''j1'')]"
  let ?r = "reply 200 [] [] (JObj [(''access_token'', JStr sample_token)])"
  have "sample_net ([] @ [Print Bypass_heading]) (token_request default_settings (order_secret (\<lambda>k. None))) = Inr ?r"
    by (simp add: sample_net_def token_request_def scenario_settings_def environ_get_def)
  moreover have "http_status ?r = 200" "response_json ?r = Inr (JObj [(''access_token'', JStr sample_token)])"
    by (simp_all add: reply_def)
  moreover have "map_of [(''access_token'', JStr sample_token)] ''access_token'' =
      Some (JStr (jws_compact (\<lambda>q. []) (JObj []) (JObj ?claims) ''sig''))"
    by (simp add: sample_token_def)
  moreover have "CHR ''.'' \<notin> set ''sig''" by simp
  moreover have "plain_object (JObj ?claims)" by (simp add: plain_object_def plain_json_def)
  ultimately have "\<exists>a. run_bypass_attempt default_settings (\<lambda>k. None) sample_net [] =
    ([] @ Print Bypass_heading # Exchange (token_request default_settings (order_secret (\<lambda>k. None))) (Inr ?r) #
       Print (Token_obtained (dget ?claims ''aud'' JNull) (dget ?claims ''sub'' JNull) (dget ?claims ''jti'' JNull)) #
       Exchange (direct_request default_settings (JStr sample_token)) a # direct_events a, Inr ())"
    using catchable_sample unfolding sample_token_def by (rule bypass_reports_token)
  then show ?thesis by (auto simp: dget_def environ_get_def)
qed

lemma pages_sample: "pages_in_model sample_net"
proof -
  have "find_form_action [] = None" by code_simp
  moreover have "html_unescape (the (find_form_action sample_page)) = Inr ''http://localhost:3000/auth?code=1&tab=2''"
    by code_simp
  ultimately show ?thesis by (auto simp: pages_in_model_def sample_net_def reply_def split: if_splits)
qed

lemma sample_token_readable: "readable_token sample_token"
  by (simp add: readable_token_def sample_token_def jws_compact_split jws_segment_reads plain_object_def plain_json_def)

theorem scenario_program_outcome_witness:
  "\<exists>pre post. fst (scenario_program (\<lambda>k. None) sample_net) = pre @ Print Bypass_heading # post \<and>
     opened pre = [0, 1, 2] \<and> started pre = [''yamada-sales'', ''suzuki-support'', ''tanaka-hr''] \<and>
     snd (scenario_program (\<lambda>k. None) sample_net) = Inr ()"
proof -
  have "received (Inr r) = Some (JStr sample_token)"
    if "sample_net tr (client_credentials_grant default_settings (\<lambda>k. None)) = Inr r" for tr r
    using that by (auto simp: sample_net_def client_credentials_grant_def scenario_settings_def environ_get_def
        received_def reply_def)
  with scenario_program_outcome [OF catchable_sample pages_sample, of "\<lambda>k. None"] sample_token_readable
  show ?thesis by fastforce
qed

definition opaque_net :: network where
  "opaque_net tr q = Inr (reply 200 [] [] (JObj [(''access_token'', JStr ''opaque'')]))"

theorem malformed_token_escapes_witness:
  "run_bypass_attempt default_settings (\<lambda>k. None) opaque_net [] =
    ([] @ [Print Bypass_heading, Exchange (token_request default_settings (order_secret (\<lambda>k. None)))
       (Inr (reply 200 [] [] (JObj [(''access_token'', JStr ''opaque'')])))], Inl IndexError)"
  by (rule malformed_token_escapes [where body = "[(''access_token'', JStr ''opaque'')]" and t = "''opaque''"])
    (simp_all add: opaque_net_def reply_def)

end
