(* ===== verification/Spec2Isabelle.thy ===== *)
theory Spec2Isabelle imports DpopClient Employee AuditMain ScenarioRuns begin

text \<open>
  A verification development for the Python programs of the repository: the employee service
  (\<^verbatim>\<open>src/employee-service\<close>: \<^verbatim>\<open>auth.py\<close>, \<^verbatim>\<open>dpop.py\<close>, \<^verbatim>\<open>main.py\<close>), which answers requests that carry
  a Keycloak access token and possibly a DPoP proof, the audit (\<^verbatim>\<open>src/audit/audit.py\<close>), which reads the
  access logs of all services and the event log of Keycloak from Loki and decides whether every token used
  was issued by a token exchange, and the scenario (\<^verbatim>\<open>src/audit/scenario.py\<close>), which makes the traffic
  that the audit looks at. They meet in the log: the middleware of the service prints one JSON line per
  request, Loki stores it, the audit parses it.

  The theories, in the order they build on each other:

  \<^item> \<^theory_text>\<open>Prelude\<close>: exceptions as values (\<open>exn + 'a\<close>), runs that print (\<open>run\<close>: the printed events and the
    outcome), dicts as association lists in insertion order.
  \<^item> \<^theory_text>\<open>PyStr\<close>, \<^theory_text>\<open>PyBase64\<close>, \<^theory_text>\<open>PyValue\<close>, \<^theory_text>\<open>PyJson\<close>, \<^theory_text>\<open>PyRe\<close>, \<^theory_text>\<open>Sha256\<close>: what the sources use of
    Python's \<open>str\<close>, \<open>bytes\<close>, \<open>int\<close>, \<open>base64\<close>, \<open>json\<close>, \<open>re\<close> and \<open>hashlib\<close>, executable, with the round trips
    (UTF-8, base64, JSON) and the exceptions they raise.
  \<^item> \<^theory_text>\<open>Codec\<close>: the interface of an encoder and its decoder, with the instances for JSON and base64url.
  \<^item> \<^theory_text>\<open>Dpop\<close>: \<^verbatim>\<open>dpop.py\<close>. \<open>proof_accepted\<close> states what a valid proof is; the properties show when
    \<open>validate_dpop\<close> returns, what a proof is bound to, how long it can be used, and what is raised.
  \<^item> \<^theory_text>\<open>DpopClient\<close>: \<open>createDPoPProof\<close> and \<open>callDownstream\<close> of \<^verbatim>\<open>src/frontend/server/utils/dpop.ts\<close>, the
    client whose proofs the service checks.
  \<^item> \<^theory_text>\<open>Auth\<close>: \<^verbatim>\<open>auth.py\<close>. The interface \<open>authenticator\<close> says what an endpoint may rely on: the request
    state changes only when the authentication passes.
  \<^item> \<^theory_text>\<open>Employee\<close>: \<^verbatim>\<open>main.py\<close>. Settings, the two endpoints, the access-log middleware.
  \<^item> \<^theory_text>\<open>AuditLog\<close>: configuration, Loki queries, field extraction and time formatting of \<^verbatim>\<open>audit.py\<close>.
  \<^item> \<^theory_text>\<open>KeyedLoop\<close>: the interface of a loop that builds a dict from log entries, with its three variants
    (the last, the first, the least entry of a key wins).
  \<^item> \<^theory_text>\<open>AuditChecks\<close>: the three checks as the code has them; its loops are instances of \<^theory_text>\<open>KeyedLoop\<close>.
  \<^item> \<^theory_text>\<open>AuditVerdicts\<close>: on well-formed logs each check returns, and its verdict as a statement about the logs.
  \<^item> \<^theory_text>\<open>AuditMain\<close>: \<open>main\<close> and the exit status; \<open>clean\<close> is the abstract specification it implements.
  \<^item> \<^theory_text>\<open>Action\<close>: programs that talk to a network, as functions of the trace of everything done so far, with
    \<open>try/except\<close> and \<open>for\<close>; the interface \<open>trace_relation\<close> of what all events of an action respect.
  \<^item> \<^theory_text>\<open>Scenario\<close>: \<^verbatim>\<open>scenario.py\<close>, one definition per function and, in \<open>do_login\<close> and the bypass, one per
    check between two requests. \<^theory_text>\<open>ScenarioForm\<close>: the login form it finds in a page. \<^theory_text>\<open>ScenarioRuns\<close>: the
    login implements an abstract machine (\<open>login_move\<close>, \<open>login_run\<close>), what it sends on every path, that every
    step is attempted, what the bypass sends, and how the program can end.
  \<^item> this theory: the properties that span components.

  How state and operations correspond: \<open>request.state\<close> is the record \<open>request_state\<close>, passed through and
  returned by \<open>get_claims\<close>; \<open>app.state\<close> is \<open>app_state\<close>, made by \<open>lifespan\<close>; clocks are arguments, with one
  reading \<open>now\<close> for PyJWT and the DPoP check of a request. Each
  \<open>raise\<close> is a value of \<open>exn\<close>, and so is each exception the code does not catch. Every \<open>print\<close> of the audit
  is a constructor of \<open>report\<close> with the values it prints (\<open>Stderr\<close> for the two that go to \<open>sys.stderr\<close>), because its texts are Japanese; the access-log line
  is the exact string. The scenario's trace is a list of \<open>event\<close>s: sessions opened, requests with what came
  of them, printed lines (\<open>line\<close>), pauses; its messages are given in English.

  Parameters: PyJWT, the JWKS client, \<open>cryptography\<close>, FastAPI's routing and responses, MongoDB, the
  tracer, Loki, the \<open>requests\<close> library and the servers behind it, and the signing library are arguments of the definitions; what is relied on
  is a named hypothesis (\<open>no_http_exception\<close>, \<open>checks_options\<close>, \<open>checks_issue_time\<close>, \<open>fastapi\<close>, \<open>compact_serialization\<close>,
  \<open>key_pair\<close>, \<open>catchable_errors\<close>, \<open>pages_in_model\<close>), shown satisfiable by a witness. PyJWT's \<open>jwt.decode\<close> takes
  the time and its options, because it checks every registered claim that the options do not turn off.

  Bounds: a \<open>str\<close> is a string of code points below U+0100 and an operation that leaves this range answers
  \<open>OutOfModel\<close>; floats are exact rationals with infinities and NaN, so the rounding of doubles is not
  modelled; the JSON scanner takes fuel from the length of the text, and \<open>json_fuel_enough\<close> shows that more
  changes nothing; the limit of 4300 digits of \<open>int\<close> is modelled for the settings, not for JSON integers and
  Loki's time stamps. The logs of the verdict theorems have time stamps between 1970 and 2262.

  Not modelled: the services in Go, Rust and Java, the other parts of the frontend, Keycloak's realm, the
  proxy and the telemetry configuration are other languages or configuration of third-party servers; of
  the Python programs, the wording of the Japanese messages, the effect of HTTP timeouts, the thread pool, and named character
  references other than the five of HTML text (\<open>OutOfModel\<close>).
\<close>

section \<open>Frontend and employee service\<close>

lemma client_proof_validates:
  assumes "compact_serialization sign" "key_pair ext sign jwk" "plain_json (JObj jwk)"
    and "jwk_thumbprint ext (JObj jwk) = Inr jkt"
    and "map_of claims ''cnf'' = Some (JObj cd)" "map_of cd ''jkt'' = Some (JStr jkt)"
    and "CHR ''?'' \<notin> set url" "req_url request = url" "token \<noteq> []"
    and "req_header request ''DPoP'' =
      Some (create_dpop_proof sign jwk jti sent (req_method request) url (Some token))"
    and "of_int \<lfloor>sent\<rfloor> \<le> now" "now \<le> of_int \<lfloor>sent\<rfloor> + 60" "\<bar>\<lfloor>sent\<rfloor>\<bar> < 2 ^ 1023"
  shows "validate_dpop ext now request claims token = Inr ()"
  using client_proof_ok [OF assms(1-7), of request "[]"] assms(8-13) by simp

text \<open>
  C6: A call of the frontend is authenticated: a request that carries the headers \<open>callDownstream\<close> sets,
  for a token that verifies and is bound to the frontend's key, passes \<open>get_claims\<close>, as long as it
  arrives within 60 seconds and the frontend's clock is not ahead of the service's.
\<close>

theorem downstream_call_authenticated:
  assumes "compact_serialization sign" "key_pair ext sign jwk" "plain_json (JObj jwk)"
    and "jwk_thumbprint ext (JObj jwk) = Inr jkt"
    and "verify ext now ctx token = Inr claims"
    and "map_of claims ''cnf'' = Some (JObj cd)" "map_of cd ''jkt'' = Some (JStr jkt)"
    and "CHR ''?'' \<notin> set url" "token \<noteq> []"
    and "of_int \<lfloor>sent\<rfloor> \<le> now" "now \<le> of_int \<lfloor>sent\<rfloor> + 60" "\<bar>\<lfloor>sent\<rfloor>\<bar> < 2 ^ 1023"
    and "call_downstream sign jwk jti sent m url token headers =
      \<lparr>out_method = req_method request, out_url = req_url request, out_headers = req_header request\<rparr>"
  shows "get_claims ext now ctx request st = (record_identity claims st, Inr claims)"
proof -
  from assms(13) have out: "req_method request = m" "req_url request = url"
    "req_header request ''DPoP'' = Some (create_dpop_proof sign jwk jti sent m url (Some token))"
    "req_header request ''Authorization'' = Some (''DPoP'' @ CHR '' '' # token)"
    by (auto simp: call_downstream_def Let_def dest: fun_cong [where x = "''DPoP''"] fun_cong [where x = "''Authorization''"])
  have "validate_dpop ext now request claims token = Inr ()"
    by (rule client_proof_validates [OF assms(1-4,6-8) out(2) assms(9) _ assms(10-12)]) (simp add: out)
  with assms(5,9) out(4) show ?thesis unfolding get_claims_passed_iff by blast
qed

theorem downstream_call_authenticated_witness:
  "get_claims sample_externals 1030 sample_context
     \<lparr>req_method = ''GET'', req_url = ''http://e/employees/bob'', req_path = ''/employees/bob'',
      req_header = out_headers (call_downstream sample_sign sample_jwk ''j'' 1000 ''GET'' ''http://e/employees/bob'' bound_token (\<lambda>h. None))\<rparr>
     fresh_state = (record_identity sample_claims fresh_state, Inr sample_claims)"
proof -
  have "verify sample_externals 1030 sample_context bound_token = Inr sample_claims"
    using bound_token_verifies [of 1030 sample_context]
    by (simp add: verify_def loose_services_def externals.truncate_def sample_services_def strict_externals_def)
  moreover have "bound_token \<noteq> []" by (simp add: bound_token_def)
  ultimately show ?thesis
    by (intro downstream_call_authenticated [OF sample_client _ sample_cnf, where url = "''http://e/employees/bob''" and sent = 1000
          and m = "''GET''" and jti = "''j''" and headers = "\<lambda>h. None"])
      (simp_all add: call_downstream_def Let_def)
qed

section \<open>Employee service and audit\<close>

lemma logged_use:
  assumes "st_jti st = Some (JStr j)" "j \<noteq> []" "j \<noteq> ''-''" "st_sub st = Some (JStr u)"
    and "line = dumps_default frepr (JObj (access_log_entry request resp start end_time st sctx))"
  shows "is_use j svc (entry_of svc (ts, line))" "readable_line line"
    "plausible_time ts \<Longrightarrow> access_entry (entry_of svc (ts, line))"
proof -
  let ?e = "access_log_entry request resp start end_time st sctx"
  have "plain_json (JObj ?e)"
    by (rule wf_access_log_entry) (use assms in \<open>auto simp: plain_json_def\<close>)
  then have "json_loads line = Inr (JObj ?e)" unfolding assms(5) by (rule json_text.dec_enc)
  then show "readable_line line" "is_use j svc (entry_of svc (ts, line))"
    "plausible_time ts \<Longrightarrow> access_entry (entry_of svc (ts, line))"
    using assms(1,4)
    by (simp_all add: readable_line_def is_use_def entry_of_def line_fields_def map_of_setdefault
        access_entry_def timed_def text_member_def)
      (simp_all add: access_log_entry_def)
qed

text \<open>
  C3: An access with a token that no exchange issued is reported: when the employee service answered a
  request whose recorded token id is \<open>j\<close>, the line it printed is among those Loki returns for the
  service, and no TOKEN_EXCHANGE event has token id \<open>j\<close> and audience \<open>employee-service\<close>, then check 2 fails.
\<close>

theorem unexchanged_access_is_reported:
  assumes "req_path request \<noteq> ''/health''"
    and "call_next srv now app request fresh_state = (st, Inr resp)"
    and "st_jti st = Some (JStr j)" "j \<noteq> []" "j \<noteq> ''-''" "st_sub st = Some (JStr u)"
    and "printed (access_log_middleware srv app start now end_time sctx request) = [line]"
    and "loki (loki_query cfg (access_log_query EXCHANGED_TOKEN_SERVICES @ '' | status != 401'') s e default_limit) =
      Body (loki_body streams)"
    and "(''employee-service'', lines) \<in> set streams" "(ts, line) \<in> set lines"
    and "\<forall>sv \<in> set streams. \<forall>tln \<in> set (snd sv). readable_line (snd tln) \<and> access_entry (entry_of (fst sv) tln)"
    and "outcome (query_loki cfg loki exchange_query (s - EXCHANGE_LOOKBACK_SECONDS cfg * 1000000000) e default_limit) = Inr kc"
    and "list_all event_entry kc" "\<not> list_ex (issues j ''employee-service'') kc"
  shows "outcome (check2 cfg loki s e) = Inr False"
proof -
  let ?ds = "concat (map (\<lambda>sv. map (entry_of (fst sv)) (snd sv)) streams)"
  have line: "line = dumps_default (float_repr srv) (JObj (access_log_entry request resp start end_time st sctx))"
    using assms(7) unfolding middleware_logged [OF assms(1,2)] by simp
  have "read_body (loki_body streams) = Inr ?ds"
    by (rule read_body_ok) (use assms(11) in blast)
  then have ds: "outcome (query_loki cfg loki (access_log_query EXCHANGED_TOKEN_SERVICES @ '' | status != 401'') s e default_limit) = Inr ?ds"
    by (simp add: query_loki_outcome assms(8))
  have ok: "list_all access_entry ?ds" using assms(11) by (force simp: list_all_iff)
  have "entry_of ''employee-service'' (ts, line) \<in> set ?ds" using assms(9,10) by force
  then have "(j, ''employee-service'') \<in> token_uses ?ds"
    using logged_use(1) [OF assms(3-6) line, of "''employee-service''" ts] assms(4,5)
    unfolding token_uses_def is_use_def by blast
  then show ?thesis by (rule check2_unbacked [OF ds assms(12) ok assms(13) _ assms(14)])
qed

text \<open>The line that the sample service prints, and a Loki that has it and no exchange event.\<close>

definition sample_line :: string where
  "sample_line = dumps_default (float_repr sample_services)
     (JObj (access_log_entry (bearer_request []) \<lparr>status_code = 200, content = JObj [(''username'', JStr ''bob'')]\<rparr> 0 1
        (record_identity bearer_claims fresh_state) \<lparr>is_valid = False, trace_id = 0\<rparr>))"

definition bypass_loki :: loki where
  "bypass_loki r = (if lr_query r = exchange_query then Body (loki_body [])
     else Body (loki_body [(''employee-service'', [(7, sample_line)])]))"

theorem unexchanged_access_is_reported_witness:
  "outcome (check2 sample_config bypass_loki 0 10) = Inr False"
proof -
  let ?st = "record_identity bearer_claims fresh_state"
  have id: "st_jti ?st = Some (JStr ''t1'')" "st_sub ?st = Some (JStr ''u1'')"
    by (simp_all add: record_identity_def bearer_claims_def)
  have path: "req_path (bearer_request []) \<noteq> ''/health''" by (simp add: bearer_request_def)
  note facts = logged_use [OF id(1) _ _ id(2) sample_line_def]
  have kc: "outcome (query_loki sample_config bypass_loki exchange_query
      (0 - EXCHANGE_LOOKBACK_SECONDS sample_config * 1000000000) 10 default_limit) = Inr []"
    using read_body_ok [of "[]"] by (simp add: query_loki_outcome bypass_loki_def loki_query_def)
  show ?thesis
  proof (rule unexchanged_access_is_reported [where ts = 7, OF path sample_call id(1) _ _ id(2) _ _ _ _ _ kc])
    show "printed (access_log_middleware sample_services sample_app 0 5 1 \<lparr>is_valid = False, trace_id = 0\<rparr> (bearer_request [])) = [sample_line]"
      unfolding middleware_logged [OF path sample_call] sample_line_def by simp
    show "bypass_loki (loki_query sample_config (access_log_query EXCHANGED_TOKEN_SERVICES @ '' | status != 401'') 0 10 default_limit) =
        Body (loki_body [(''employee-service'', [(7, sample_line)])])"
      by (simp add: bypass_loki_def loki_query_def queries_differ)
    show "\<forall>sv \<in> set [(''employee-service'', [(7, sample_line)])]. \<forall>tln \<in> set (snd sv).
        readable_line (snd tln) \<and> access_entry (entry_of (fst sv) tln)"
      using facts(2) facts(3) [of 7] by (simp add: plausible_time_def)
    show "(7, sample_line) \<in> set [(7, sample_line)]" by simp
  qed simp_all
qed

end
